(* ===== verification/Prelude.thy ===== *)
theory Prelude
  imports
    Main
    "HOL-Library.Product_Lexorder"
    "HOL-Library.List_Lexorder"
    "HOL-Library.Char_ord"
    "HOL-Library.Multiset"
begin

text \<open>
  What every part of the development shares: the shape of a fallible, state-changing call, the
  small relational algebra in which the SQL statements of the drivers are written (filtered
  update, ordered and limited selection, grouping), and the list facts the components use.

  A Go call \<open>func (d *T) f(args) (A, error)\<close> that works on the database is a function
  \<open>args \<Rightarrow> 's \<Rightarrow> ('e + 'a) \<times> 's\<close>: \<open>Inl e\<close> for a non-nil error, \<open>Inr a\<close> for a result,
  with the state that is left behind in both cases.
\<close>

type_synonym ('s, 'e, 'a) call_result = "('e + 'a) \<times> 's"

text \<open>Facts about how a statement changes the rows of a table.\<close>

named_theorems row_simps

subsection \<open>Table operations\<close>

text \<open>\<open>UPDATE t SET f WHERE P\<close>.\<close>

definition update_where :: "('a \<Rightarrow> bool) \<Rightarrow> ('a \<Rightarrow> 'a) \<Rightarrow> 'a list \<Rightarrow> 'a list" where
  "update_where P f xs = map (\<lambda>r. if P r then f r else r) xs"

text \<open>\<open>SELECT .. WHERE P ORDER BY k LIMIT n\<close>. The order of rows with equal keys is not fixed by
  SQL; here it is the order of the table's list, over which every theorem is universally
  quantified.\<close>

definition select_limit :: "('a \<Rightarrow> bool) \<Rightarrow> ('a \<Rightarrow> 'k::linorder) \<Rightarrow> nat \<Rightarrow> 'a list \<Rightarrow> 'a list" where
  "select_limit P k n xs = take n (sort_key k (filter P xs))"

text \<open>\<open>SELECT .. WHERE P ORDER BY k DESC LIMIT n\<close>.\<close>

definition select_desc :: "('a \<Rightarrow> bool) \<Rightarrow> ('a \<Rightarrow> 'k::linorder) \<Rightarrow> nat \<Rightarrow> 'a list \<Rightarrow> 'a list" where
  "select_desc P k n xs = take n (rev (sort_key k (filter P xs)))"

text \<open>The rows affected by an \<open>UPDATE .. WHERE P\<close>.\<close>

definition rows_affected :: "('a \<Rightarrow> bool) \<Rightarrow> 'a list \<Rightarrow> nat" where
  "rows_affected P xs = length (filter P xs)"

text \<open>\<open>SELECT k, COUNT(*) .. GROUP BY k\<close>, read into a Go map.\<close>

definition group_count :: "('a \<Rightarrow> 'k) \<Rightarrow> 'a list \<Rightarrow> ('k \<rightharpoonup> nat)" where
  "group_count k xs = (\<lambda>v. if v \<in> set (map k xs)
     then Some (length (filter (\<lambda>r. k r = v) xs)) else None)"

lemma length_update_where [simp]: "length (update_where P f xs) = length xs"
  by (simp add: update_where_def)

lemma update_where_Nil [simp]: "update_where P f [] = []"
  by (simp add: update_where_def)

lemma update_where_Cons [simp]:
  "update_where P f (x # xs) = (if P x then f x else x) # update_where P f xs"
  by (simp add: update_where_def)

lemma set_update_where: "set (update_where P f xs) = (\<lambda>r. if P r then f r else r) ` set xs"
  by (simp add: update_where_def)

lemma map_update_where:
  assumes "\<And>r. P r \<Longrightarrow> k (f r) = k r"
  shows "map k (update_where P f xs) = map k xs"
  by (induction xs) (auto simp: assms)

lemma update_where_none: "(\<And>r. r \<in> set xs \<Longrightarrow> \<not> P r) \<Longrightarrow> update_where P f xs = xs"
  by (induction xs) auto

lemma list_all2_update_where:
  assumes "\<And>r. r \<in> set xs \<Longrightarrow> P r \<Longrightarrow> R r (f r)" and "\<And>r. R r r"
  shows "list_all2 R xs (update_where P f xs)"
  using assms(1) by (induction xs) (auto simp: assms(2))

lemma rows_affected_0 [simp]: "rows_affected P xs = 0 \<longleftrightarrow> (\<forall>r \<in> set xs. \<not> P r)"
  by (auto simp: rows_affected_def filter_empty_conv)

lemma set_select_limit_subset: "set (select_limit P k n xs) \<subseteq> {r \<in> set xs. P r}"
  by (auto simp: select_limit_def dest: in_set_takeD)

lemma set_select_desc_subset: "set (select_desc P k n xs) \<subseteq> {r \<in> set xs. P r}"
  by (auto simp: select_desc_def dest: in_set_takeD)

lemma select_limitD:
  assumes "r \<in> set (select_limit P k n xs)"
  shows "r \<in> set xs" and "P r"
  using assms set_select_limit_subset by fastforce+

lemma length_select_limit:
  "length (select_limit P k n xs) = min n (length (filter P xs))"
  by (simp add: select_limit_def min.commute)

lemma length_select_limit_le: "length (select_limit P k n xs) \<le> n"
  by (simp add: length_select_limit)

lemma select_limit_all:
  "length (filter P xs) \<le> n \<Longrightarrow> set (select_limit P k n xs) = {r \<in> set xs. P r}"
  by (auto simp: select_limit_def)

lemma sorted_select_limit: "sorted (map k (select_limit P k n xs))"
  by (simp add: select_limit_def take_map [symmetric] sorted_wrt_take)

lemma distinct_select_limit:
  "distinct (map f xs) \<Longrightarrow> distinct (map f (select_limit P k n xs))"
proof -
  assume d: "distinct (map f xs)"
  have "mset (map f (sort_key k (filter P xs))) = mset (map f (filter P xs))"
    by simp
  moreover have "distinct (map f (filter P xs))"
    using d by (simp add: distinct_map_filter)
  ultimately have "distinct (map f (sort_key k (filter P xs)))"
    using mset_eq_imp_distinct_iff by blast
  then show ?thesis by (simp add: select_limit_def take_map [symmetric])
qed

text \<open>A limited, ordered selection takes the smallest keys: what is left out is no smaller than
  what is taken.\<close>

lemma select_limit_smallest:
  assumes r: "r \<in> set (select_limit P k n xs)"
    and q: "q \<in> set xs" "P q" and nq: "q \<notin> set (select_limit P k n xs)"
  shows "k r \<le> k q"
proof -
  let ?ys = "sort_key k (filter P xs)"
  have "q \<in> set ?ys" using q by simp
  then have "q \<in> set (take n ?ys) \<or> q \<in> set (drop n ?ys)"
    by (metis append_take_drop_id set_append Un_iff)
  then have "q \<in> set (drop n ?ys)" using nq by (auto simp: select_limit_def)
  moreover have "sorted (map k (take n ?ys @ drop n ?ys))" by simp
  then have "\<forall>a \<in> set (take n ?ys). \<forall>b \<in> set (drop n ?ys). k a \<le> k b"
    unfolding map_append sorted_append by auto
  ultimately show ?thesis using r by (auto simp: select_limit_def)
qed

lemma select_limit_1:
  "select_limit P k 1 xs = [] \<longleftrightarrow> (\<forall>r \<in> set xs. \<not> P r)"
proof -
  have "select_limit P k 1 xs = [] \<longleftrightarrow> filter P xs = []"
    using length_select_limit [of P k 1 xs] by (cases "filter P xs") (auto simp: select_limit_def)
  then show ?thesis by (simp add: filter_empty_conv)
qed

subsection \<open>Selections and updates commute with a renaming of the rows\<close>

lemma insort_key_map: "insort_key k (f x) (map f xs) = map f (insort_key (\<lambda>r. k (f r)) x xs)"
  by (induction xs) simp_all

lemma sort_key_map: "sort_key k (map f xs) = map f (sort_key (\<lambda>r. k (f r)) xs)"
  by (induction xs) (simp_all add: insort_key_map)

lemma insort_key_mono:
  assumes "\<And>x y. k x \<le> k y \<longleftrightarrow> k' x \<le> k' y"
  shows "insort_key k x xs = insort_key k' x xs"
  by (induction xs) (simp_all add: assms)

lemma sort_key_mono:
  assumes "\<And>x y. k x \<le> k y \<longleftrightarrow> k' x \<le> k' y"
  shows "sort_key k xs = sort_key k' xs"
  by (induction xs) (simp_all add: insort_key_mono [of k k', OF assms])

lemma filter_map_cong: "(\<And>r. P' (f r) = P r) \<Longrightarrow> filter P' (map f xs) = map f (filter P xs)"
  by (induction xs) simp_all

lemma select_limit_map:
  assumes "\<And>r. P' (f r) = P r" and "\<And>x y. k' (f x) \<le> k' (f y) \<longleftrightarrow> k x \<le> k y"
  shows "select_limit P' k' n (map f xs) = map f (select_limit P k n xs)"
  by (simp add: select_limit_def filter_map_cong [of P' f P] assms sort_key_map take_map
      sort_key_mono [of "\<lambda>r. k' (f r)" k])

lemma rows_affected_map:
  "(\<And>r. P' (f r) = P r) \<Longrightarrow> rows_affected P' (map f xs) = rows_affected P xs"
  by (simp add: rows_affected_def filter_map_cong [of P' f P])

lemma update_where_map:
  assumes "\<And>r. P' (f r) = P r" and "\<And>r. P r \<Longrightarrow> g' (f r) = f (g r)"
  shows "update_where P' g' (map f xs) = map f (update_where P g xs)"
  by (induction xs) (simp_all add: assms)

lemma update_where_all:
  "(\<And>r. r \<in> set xs \<Longrightarrow> R r) \<Longrightarrow> (\<And>r. P r \<Longrightarrow> R r \<Longrightarrow> R (f r)) \<Longrightarrow> r \<in> set (update_where P f xs) \<Longrightarrow> R r"
  by (auto simp: set_update_where)

subsection \<open>Lookup by a key column\<close>

definition find_key :: "('a \<Rightarrow> 'k) \<Rightarrow> 'k \<Rightarrow> 'a list \<Rightarrow> 'a option" where
  "find_key k v xs = find (\<lambda>r. k r = v) xs"

lemma find_key_Some: "find_key k v xs = Some r \<Longrightarrow> r \<in> set xs \<and> k r = v"
  by (auto simp: find_key_def find_Some_iff)

lemma find_key_None: "find_key k v xs = None \<longleftrightarrow> v \<notin> k ` set xs"
  by (auto simp: find_key_def find_None_iff)

lemma find_key_unique:
  "distinct (map k xs) \<Longrightarrow> r \<in> set xs \<Longrightarrow> find_key k (k r) xs = Some r"
  by (induction xs) (auto simp: find_key_def rev_image_eqI)

lemma find_key_update_where:
  assumes "\<And>r. k (f r) = k r"
  shows "find_key k v (update_where P f xs) =
    map_option (\<lambda>r. if P r then f r else r) (find_key k v xs)"
  by (induction xs) (auto simp: find_key_def assms)

lemma find_key_append:
  "find_key k v (xs @ ys) = (case find_key k v xs of Some r \<Rightarrow> Some r | None \<Rightarrow> find_key k v ys)"
  by (induction xs) (auto simp: find_key_def)

subsection \<open>Grouping\<close>

lemma group_count_default:
  "(case group_count k xs v of Some n \<Rightarrow> n | None \<Rightarrow> 0) = length (filter (\<lambda>r. k r = v) xs)"
  by (auto simp: group_count_def filter_empty_conv)

lemma count_list_distinct: "distinct vs \<Longrightarrow> v \<in> set vs \<Longrightarrow> count_list vs v = 1"
  by (induction vs) (auto simp: count_list_0_iff)

lemma length_filter_partition:
  assumes "distinct vs" and "\<forall>x \<in> set xs. k x \<in> set vs"
  shows "(\<Sum>v\<leftarrow>vs. length (filter (\<lambda>x. k x = v) xs)) = length xs"
  using assms(2)
proof (induction xs)
  case Nil
  show ?case by (induction vs) auto
next
  case (Cons x xs)
  have split: "(\<Sum>v\<leftarrow>ws. length (filter (\<lambda>y. k y = v) (x # xs)))
     = (\<Sum>v\<leftarrow>ws. length (filter (\<lambda>y. k y = v) xs)) + count_list ws (k x)" for ws
    by (induction ws) auto
  from Cons.prems assms(1) have "count_list vs (k x) = 1"
    by (simp add: count_list_distinct)
  with split Cons show ?case by simp
qed

end
