(* ===== verification/Go_Int.thy ===== *)
theory Go_Int
  imports Prelude "HOL-Library.Word"
begin

text \<open>
  The machine arithmetic the Go code relies on, at its width. A Go \<open>int\<close>, \<open>int64\<close> or
  \<open>time.Duration\<close> is an integer kept in the range of 64-bit two's complement by
  \<open>wrap64\<close>; an \<open>int32\<close> conversion is \<open>wrap32\<close>. Division truncates towards zero.
  A \<open>float64\<close> only occurs as the value of a JSON number and of \<open>math.Pow(2, k)\<close>: the first
  is rounded to 53 significant bits, the second is exact for integral \<open>k\<close>. What Go leaves
  implementation-specific (converting a float that is out of range to \<open>int64\<close>) is the
  parameter \<open>oor\<close> of the definitions that need it.
\<close>

subsection \<open>Wrap-around\<close>

definition wrap64 :: "int \<Rightarrow> int" where
  "wrap64 x = (x + 2 ^ 63) mod 2 ^ 64 - 2 ^ 63"

definition wrap32 :: "int \<Rightarrow> int" where
  "wrap32 x = (x + 2 ^ 31) mod 2 ^ 32 - 2 ^ 31"

definition in_int64 :: "int \<Rightarrow> bool" where
  "in_int64 x \<longleftrightarrow> - (2 ^ 63) \<le> x \<and> x < 2 ^ 63"

definition in_int32 :: "int \<Rightarrow> bool" where
  "in_int32 x \<longleftrightarrow> - (2 ^ 31) \<le> x \<and> x < 2 ^ 31"

lemma wrap64_word: "wrap64 x = sint (word_of_int x :: 64 word)"
  by (simp add: wrap64_def sint_sbintrunc' signed_take_bit_eq_take_bit_shift take_bit_eq_mod)

lemma wrap32_word: "wrap32 x = sint (word_of_int x :: 32 word)"
  by (simp add: wrap32_def sint_sbintrunc' signed_take_bit_eq_take_bit_shift take_bit_eq_mod)

lemma wrap64_id: "in_int64 x \<Longrightarrow> wrap64 x = x"
  by (simp add: wrap64_def in_int64_def)

lemma wrap32_id: "in_int32 x \<Longrightarrow> wrap32 x = x"
  by (simp add: wrap32_def in_int32_def)

lemma in_int64_wrap64 [simp]: "in_int64 (wrap64 x)"
  by (simp add: wrap64_def in_int64_def)

lemma in_int64_nonneg: "0 \<le> x \<Longrightarrow> x < 2 ^ 63 \<Longrightarrow> in_int64 x"
  by (simp add: in_int64_def)

subsection \<open>Truncated division\<close>

definition go_div :: "int \<Rightarrow> int \<Rightarrow> int" where
  "go_div a b = sgn a * sgn b * (\<bar>a\<bar> div \<bar>b\<bar>)"

lemma go_div_nonneg: "0 \<le> a \<Longrightarrow> 0 < b \<Longrightarrow> go_div a b = a div b"
  by (cases "a = 0") (simp_all add: go_div_def)

lemma go_div_neg: "a < 0 \<Longrightarrow> 0 < b \<Longrightarrow> go_div a b = - (- a div b)"
  by (simp add: go_div_def)

lemma go_div_2_less_iff: "go_div a 2 < 0 \<longleftrightarrow> a \<le> - 2"
proof (cases "0 \<le> a")
  case True
  then show ?thesis by (simp add: go_div_nonneg)
next
  case False
  then have "go_div a 2 = - (- a div 2)" by (simp add: go_div_neg)
  then show ?thesis by linarith
qed

subsection \<open>Floating point numbers with an integral value\<close>

text \<open>Rounding an integer to 53 significant bits, ties to even: the value of the \<open>float64\<close>
  that \<open>encoding/json\<close> makes of an integer literal. \<open>excess\<close> is the number of low bits that do
  not fit.\<close>

fun bit_len :: "nat \<Rightarrow> nat" where
  "bit_len n = (if n = 0 then 0 else Suc (bit_len (n div 2)))"

declare bit_len.simps [simp del]

lemma bit_len_0 [simp]: "bit_len 0 = 0"
  by (simp add: bit_len.simps)

lemma bit_len_pos: "0 < n \<Longrightarrow> bit_len n = Suc (bit_len (n div 2))"
  by (subst bit_len.simps) simp

lemma bit_len_le: "n < 2 ^ k \<Longrightarrow> bit_len n \<le> k"
proof (induction k arbitrary: n)
  case 0
  then show ?case by simp
next
  case (Suc k)
  then have "bit_len (n div 2) \<le> k" by (simp add: less_mult_imp_div_less mult.commute)
  then show ?case by (cases "n = 0") (simp_all add: bit_len_pos)
qed

definition round53 :: "nat \<Rightarrow> nat" where
  "round53 n =
     (let e = bit_len n - 53; q = n div 2 ^ e; r = n mod 2 ^ e
      in if e = 0 then n
         else if 2 ^ (e - 1) < r \<or> (r = 2 ^ (e - 1) \<and> odd q) then (q + 1) * 2 ^ e
         else q * 2 ^ e)"

definition float64_of_int :: "int \<Rightarrow> int" where
  "float64_of_int x = sgn x * int (round53 (nat \<bar>x\<bar>))"

lemma round53_exact: "n < 2 ^ 53 \<Longrightarrow> round53 n = n"
  using bit_len_le [of n 53] by (simp add: round53_def Let_def)

lemma float64_exact: "\<bar>x\<bar> < 2 ^ 53 \<Longrightarrow> float64_of_int x = x"
  by (simp add: float64_of_int_def round53_exact nat_less_iff abs_sgn [symmetric] sgn_mult_abs)

text \<open>\<open>int64(v)\<close> for a \<open>float64\<close> with an integral value.\<close>

definition int64_of_float :: "int \<Rightarrow> int \<Rightarrow> int" where
  "int64_of_float oor v = (if in_int64 v then v else oor)"

text \<open>\<open>int64(math.Pow(2, float64(k)))\<close>: a negative exponent gives a value in (0, 1), which
  converts to 0.\<close>

definition int64_pow2 :: "int \<Rightarrow> int \<Rightarrow> int" where
  "int64_pow2 oor k = (if k < 0 then 0 else if k < 63 then 2 ^ nat k else oor)"

subsection \<open>Decimal digits (\<open>%d\<close> of a non-negative number)\<close>

fun show_nat :: "nat \<Rightarrow> string" where
  "show_nat n = (if n < 10 then [char_of (48 + n)] else show_nat (n div 10) @ [char_of (48 + n mod 10)])"

declare show_nat.simps [simp del]

fun read_nat :: "string \<Rightarrow> nat" where
  "read_nat s = foldl (\<lambda>a c. 10 * a + (of_char c - 48)) 0 s"

declare read_nat.simps [simp del]

lemma read_nat_snoc: "read_nat (s @ [c]) = 10 * read_nat s + (of_char c - 48)"
  by (simp add: read_nat.simps)

lemma of_char_digit: "n < 10 \<Longrightarrow> of_char (char_of (48 + n :: nat)) = (48 + n :: nat)"
  by (simp add: of_char_of)

lemma read_show_nat [simp]: "read_nat (show_nat n) = n"
proof (induction n rule: show_nat.induct)
  case (1 n)
  show ?case
  proof (cases "n < 10")
    case True
    then show ?thesis
      by (subst show_nat.simps) (simp add: read_nat.simps of_char_digit del: of_char_of)
  next
    case False
    with "1" have "read_nat (show_nat (n div 10)) = n div 10" by simp
    with False show ?thesis
      by (subst show_nat.simps) (simp add: read_nat_snoc of_char_digit del: of_char_of)
  qed
qed

lemma show_nat_inj: "show_nat m = show_nat n \<longleftrightarrow> m = n"
  by (metis read_show_nat)

lemma show_nat_digits: "c \<in> set (show_nat n) \<Longrightarrow> 48 \<le> (of_char c :: nat) \<and> (of_char c :: nat) < 58"
proof (induction n rule: show_nat.induct)
  case (1 n)
  show ?case
  proof (cases "n < 10")
    case True
    with "1.prems" show ?thesis
      by (subst (asm) show_nat.simps) (simp add: of_char_digit del: of_char_of)
  next
    case False
    have "n mod 10 < 10" by simp
    with False "1.prems" "1.IH" show ?thesis
      by (subst (asm) show_nat.simps) (auto simp: of_char_digit simp del: of_char_of)
  qed
qed

lemma show_nat_nonempty [simp]: "show_nat n \<noteq> []"
  by (subst show_nat.simps) simp

end
