(* ===== verification/Go_Strings.thy ===== *)
theory Go_Strings
  imports Go_Int
begin

text \<open>
  The \<open>strings\<close> functions the Go code uses, on byte strings (a Go \<open>string\<close> is a sequence of
  bytes; a \<open>char\<close> is a byte), and UTF-8: \<open>for _, r := range s\<close> walks the runes of \<open>s\<close>, with
  U+FFFD for every byte that does not belong to a valid encoding, and
  \<open>strings.Builder.WriteRune\<close> encodes a rune.
\<close>

subsection \<open>Prefixes, cutting, splitting\<close>

definition has_prefix :: "string \<Rightarrow> string \<Rightarrow> bool" where
  "has_prefix s p \<longleftrightarrow> take (length p) s = p"

definition has_suffix :: "string \<Rightarrow> string \<Rightarrow> bool" where
  "has_suffix s p \<longleftrightarrow> length p \<le> length s \<and> drop (length s - length p) s = p"

definition trim_prefix :: "string \<Rightarrow> string \<Rightarrow> string" where
  "trim_prefix s p = (if has_prefix s p then drop (length p) s else s)"

text \<open>\<open>strings.Cut(s, sep)\<close> for a one-byte separator: what is before and after its first
  occurrence.\<close>

fun cut :: "string \<Rightarrow> char \<Rightarrow> (string \<times> string) option" where
  "cut [] c = None"
| "cut (x # xs) c = (if x = c then Some ([], xs)
     else map_option (\<lambda>(a, b). (x # a, b)) (cut xs c))"

fun split_on :: "char \<Rightarrow> string \<Rightarrow> string list" where
  "split_on c [] = [[]]"
| "split_on c (x # xs) = (if x = c then [] # split_on c xs
     else (case split_on c xs of [] \<Rightarrow> [[x]] | p # ps \<Rightarrow> (x # p) # ps))"

lemma has_prefix_append [simp]: "has_prefix (p @ s) p"
  by (simp add: has_prefix_def)

lemma has_prefix_iff: "has_prefix s p \<longleftrightarrow> (\<exists>t. s = p @ t)"
  by (auto simp: has_prefix_def) (metis append_take_drop_id)

lemma trim_prefix_append [simp]: "trim_prefix (p @ s) p = s"
  by (simp add: trim_prefix_def)

lemma has_suffix_iff: "has_suffix s p \<longleftrightarrow> (\<exists>t. s = t @ p)"
  by (auto simp: has_suffix_def) (metis append_take_drop_id)

lemma cut_append: "c \<notin> set a \<Longrightarrow> cut (a @ c # b) c = Some (a, b)"
  by (induction a) auto

lemma cut_Some: "cut s c = Some (a, b) \<Longrightarrow> s = a @ c # b \<and> c \<notin> set a"
  by (induction s c arbitrary: a rule: cut.induct) (auto split: if_splits)

lemma cut_None: "cut s c = None \<longleftrightarrow> c \<notin> set s"
  by (induction s c rule: cut.induct) auto

lemma split_on_nonempty [simp]: "split_on c s \<noteq> []"
  by (induction s) (auto split: list.splits)

lemma split_on_none: "p \<in> set (split_on c s) \<Longrightarrow> c \<notin> set p"
proof (induction s arbitrary: p)
  case Nil
  then show ?case by simp
next
  case (Cons a s)
  obtain q qs where q: "split_on c s = q # qs" by (cases "split_on c s") auto
  with Cons.IH have "c \<notin> set q" and "\<And>r. r \<in> set qs \<Longrightarrow> c \<notin> set r" by auto
  with Cons.prems q Cons.IH show ?case by (auto split: if_splits)
qed

lemma split_on_single: "c \<notin> set s \<Longrightarrow> split_on c s = [s]"
  by (induction s) auto

lemma split_on_append: "c \<notin> set a \<Longrightarrow> split_on c (a @ c # b) = a # split_on c b"
  by (induction a) (auto split: list.splits)

subsection \<open>White space and case\<close>

text \<open>The UTF-8 encodings of the runes that \<open>unicode.IsSpace\<close> accepts.\<close>

definition space_seqs :: "string list" where
  "space_seqs = map (map char_of)
     ([[9], [10], [11], [12], [13], [32], [0xC2, 0x85], [0xC2, 0xA0], [0xE1, 0x9A, 0x80],
       [0xE2, 0x80, 0xA8], [0xE2, 0x80, 0xA9], [0xE2, 0x80, 0xAF], [0xE2, 0x81, 0x9F],
       [0xE3, 0x80, 0x80]] @ map (\<lambda>k. [0xE2, 0x80, 0x80 + k]) [0..<11 :: nat])"

text \<open>For evaluation: the sequences written out.\<close>

lemma space_seqs_code [code]: "space_seqs =
    [[CHR 0x09],
     [CHR 0x0A],
     [CHR 0x0B],
     [CHR 0x0C],
     [CHR 0x0D],
     [CHR 0x20],
     [CHR 0xC2, CHR 0x85],
     [CHR 0xC2, CHR 0xA0],
     [CHR 0xE1, CHR 0x9A, CHR 0x80],
     [CHR 0xE2, CHR 0x80, CHR 0xA8],
     [CHR 0xE2, CHR 0x80, CHR 0xA9],
     [CHR 0xE2, CHR 0x80, CHR 0xAF],
     [CHR 0xE2, CHR 0x81, CHR 0x9F],
     [CHR 0xE3, CHR 0x80, CHR 0x80],
     [CHR 0xE2, CHR 0x80, CHR 0x80],
     [CHR 0xE2, CHR 0x80, CHR 0x81],
     [CHR 0xE2, CHR 0x80, CHR 0x82],
     [CHR 0xE2, CHR 0x80, CHR 0x83],
     [CHR 0xE2, CHR 0x80, CHR 0x84],
     [CHR 0xE2, CHR 0x80, CHR 0x85],
     [CHR 0xE2, CHR 0x80, CHR 0x86],
     [CHR 0xE2, CHR 0x80, CHR 0x87],
     [CHR 0xE2, CHR 0x80, CHR 0x88],
     [CHR 0xE2, CHR 0x80, CHR 0x89],
     [CHR 0xE2, CHR 0x80, CHR 0x8A]]"
  by code_simp

function trim_left :: "string \<Rightarrow> string" where
  "trim_left s = (case filter (has_prefix s) space_seqs of
      [] \<Rightarrow> s | p # _ \<Rightarrow> if p = [] then s else trim_left (drop (length p) s))"
  by pat_completeness auto
termination
proof (relation "measure length", goal_cases)
  case 1
  show ?case by simp
next
  case (2 s p ps)
  from 2(1) have "p \<in> set (filter (has_prefix s) space_seqs)" by simp
  then have "has_prefix s p" by simp
  then obtain t where "s = p @ t" by (auto simp: has_prefix_iff)
  with 2(2) show ?case by simp
qed

declare trim_left.simps [simp del]

function trim_right :: "string \<Rightarrow> string" where
  "trim_right s = (case filter (has_suffix s) space_seqs of
      [] \<Rightarrow> s | p # _ \<Rightarrow> if p = [] then s else trim_right (take (length s - length p) s))"
  by pat_completeness auto
termination
proof (relation "measure length", goal_cases)
  case 1
  show ?case by simp
next
  case (2 s p ps)
  from 2(1) have "p \<in> set (filter (has_suffix s) space_seqs)" by simp
  then have "has_suffix s p" by simp
  then obtain t where "s = t @ p" by (auto simp: has_suffix_iff)
  with 2(2) show ?case by simp
qed

declare trim_right.simps [simp del]

definition trim_space :: "string \<Rightarrow> string" where
  "trim_space s = trim_right (trim_left s)"

definition starts_with_space :: "string \<Rightarrow> bool" where
  "starts_with_space s \<longleftrightarrow> (\<exists>p \<in> set space_seqs. has_prefix s p)"

definition ends_with_space :: "string \<Rightarrow> bool" where
  "ends_with_space s \<longleftrightarrow> (\<exists>p \<in> set space_seqs. has_suffix s p)"

lemma space_seqs_nonempty: "[] \<notin> set space_seqs"
  by (auto simp: space_seqs_def)

lemma trim_left_suffix: "\<exists>a. s = a @ trim_left s"
proof (induction s rule: trim_left.induct)
  case (1 s)
  show ?case
  proof (cases "filter (has_prefix s) space_seqs")
    case Nil
    then show ?thesis by (simp add: trim_left.simps [of s])
  next
    case (Cons p ps)
    then have "p \<in> set (filter (has_prefix s) space_seqs)" by simp
    then obtain t where t: "s = p @ t" by (auto simp: has_prefix_iff)
    show ?thesis
    proof (cases "p = []")
      case True
      with Cons show ?thesis by (simp add: trim_left.simps [of s])
    next
      case False
      with "1.IH" [OF Cons] obtain a where "drop (length p) s = a @ trim_left (drop (length p) s)"
        by blast
      with t have "s = (p @ a) @ trim_left (drop (length p) s)" by simp
      then have "\<exists>a. s = a @ trim_left (drop (length p) s)" by blast
      with Cons False show ?thesis by (simp add: trim_left.simps [of s])
    qed
  qed
qed

lemma trim_right_prefix: "\<exists>b. s = trim_right s @ b"
proof (induction s rule: trim_right.induct)
  case (1 s)
  show ?case
  proof (cases "filter (has_suffix s) space_seqs")
    case Nil
    then show ?thesis by (subst trim_right.simps) simp
  next
    case (Cons p ps)
    then have "p \<in> set (filter (has_suffix s) space_seqs)" by simp
    then obtain t where t: "s = t @ p" by (auto simp: has_suffix_iff)
    show ?thesis
    proof (cases "p = []")
      case True
      with Cons show ?thesis by (subst trim_right.simps) simp
    next
      case False
      with "1.IH" [OF Cons] obtain b where
        "take (length s - length p) s = trim_right (take (length s - length p) s) @ b"
        by blast
      with t have "s = trim_right (take (length s - length p) s) @ (b @ p)" by simp
      with Cons False show ?thesis by (subst trim_right.simps) auto
    qed
  qed
qed

lemma trim_right_no_space: "\<not> ends_with_space (trim_right s)"
proof (induction s rule: trim_right.induct)
  case (1 s)
  show ?case
  proof (cases "filter (has_suffix s) space_seqs")
    case Nil
    then show ?thesis
      by (subst trim_right.simps) (auto simp: ends_with_space_def filter_empty_conv)
  next
    case (Cons p ps)
    then have "p \<in> set (filter (has_suffix s) space_seqs)" by simp
    then have "p \<noteq> []" using space_seqs_nonempty by auto
    with Cons "1.IH" [OF Cons] show ?thesis by (subst trim_right.simps) simp
  qed
qed

lemma set_trim_space: "set (trim_space s) \<subseteq> set s"
proof -
  obtain a where "s = a @ trim_left s" using trim_left_suffix by blast
  moreover obtain b where "trim_left s = trim_space s @ b"
    using trim_right_prefix unfolding trim_space_def by blast
  ultimately show ?thesis by (metis Un_upper2 Un_upper1 order_trans set_append)
qed

text \<open>\<open>strings.ToLower\<close> on ASCII text: the only strings it is applied to are ULIDs.\<close>

definition to_lower :: "string \<Rightarrow> string" where
  "to_lower s = map (\<lambda>c. let n = of_char c :: nat in
     if 65 \<le> n \<and> n \<le> 90 then char_of (n + 32) else c) s"

end
