(* ===== verification/Utf8.thy ===== *)
theory Utf8
  imports Go_Strings
begin

text \<open>
  UTF-8 as Go reads and writes it: \<open>decode_rune\<close> is \<open>utf8.DecodeRuneInString\<close> (the rune and
  its width; an invalid byte gives U+FFFD with width 1), \<open>runes\<close> the sequence that
  \<open>for _, r := range s\<close> visits, \<open>encode_rune\<close> what \<open>WriteRune\<close> appends.
\<close>

definition rune_error :: nat where
  "rune_error = 0xFFFD"

definition byte_in :: "nat \<Rightarrow> nat \<Rightarrow> char \<Rightarrow> bool" where
  "byte_in lo hi c \<longleftrightarrow> lo \<le> of_char c \<and> of_char c \<le> hi"

definition low6 :: "char \<Rightarrow> nat" where
  "low6 c = of_char c - 0x80"

fun decode2 :: "nat \<Rightarrow> string \<Rightarrow> nat \<times> nat" where
  "decode2 x (c1 # _) = (if byte_in 0x80 0xBF c1 then ((x - 0xC0) * 64 + low6 c1, 2) else (rune_error, 1))"
| "decode2 x [] = (rune_error, 1)"

fun decode3 :: "nat \<Rightarrow> string \<Rightarrow> nat \<times> nat" where
  "decode3 x (c1 # c2 # _) =
     (if byte_in (if x = 0xE0 then 0xA0 else 0x80) (if x = 0xED then 0x9F else 0xBF) c1
         \<and> byte_in 0x80 0xBF c2
      then ((x - 0xE0) * 4096 + low6 c1 * 64 + low6 c2, 3) else (rune_error, 1))"
| "decode3 x _ = (rune_error, 1)"

fun decode4 :: "nat \<Rightarrow> string \<Rightarrow> nat \<times> nat" where
  "decode4 x (c1 # c2 # c3 # _) =
     (if byte_in (if x = 0xF0 then 0x90 else 0x80) (if x = 0xF4 then 0x8F else 0xBF) c1
         \<and> byte_in 0x80 0xBF c2 \<and> byte_in 0x80 0xBF c3
      then ((x - 0xF0) * 262144 + low6 c1 * 4096 + low6 c2 * 64 + low6 c3, 4) else (rune_error, 1))"
| "decode4 x _ = (rune_error, 1)"

fun decode_rune :: "string \<Rightarrow> nat \<times> nat" where
  "decode_rune [] = (rune_error, 0)"
| "decode_rune (c # s) =
     (let x = of_char c :: nat in
      if x < 0x80 then (x, 1)
      else if 0xC2 \<le> x \<and> x \<le> 0xDF then decode2 x s
      else if 0xE0 \<le> x \<and> x \<le> 0xEF then decode3 x s
      else if 0xF0 \<le> x \<and> x \<le> 0xF4 then decode4 x s
      else (rune_error, 1))"

lemma decode2_width: "0 < snd (decode2 x s)"
  by (cases s) simp_all

lemma decode3_width: "0 < snd (decode3 x s)"
  by (cases "(x, s)" rule: decode3.cases) simp_all

lemma decode4_width: "0 < snd (decode4 x s)"
  by (cases "(x, s)" rule: decode4.cases) simp_all

lemma decode_width_pos: "0 < snd (decode_rune (c # s))"
  by (simp add: Let_def decode2_width decode3_width decode4_width)

function runes :: "string \<Rightarrow> nat list" where
  "runes [] = []"
| "runes (c # s) = fst (decode_rune (c # s)) # runes (drop (snd (decode_rune (c # s))) (c # s))"
  by pat_completeness auto
termination
  by (relation "measure length") (use decode_width_pos in \<open>simp_all del: decode_rune.simps\<close>)

declare runes.simps(2) [simp del]

definition valid_rune :: "nat \<Rightarrow> bool" where
  "valid_rune r \<longleftrightarrow> r < 0xD800 \<or> (0xE000 \<le> r \<and> r \<le> 0x10FFFF)"

definition encode_rune :: "nat \<Rightarrow> string" where
  "encode_rune r = map char_of
     (if r < 0x80 then [r]
      else if r < 0x800 then [0xC0 + r div 64, 0x80 + r mod 64]
      else if \<not> valid_rune r then [0xEF, 0xBF, 0xBD]
      else if r < 0x10000 then [0xE0 + r div 4096, 0x80 + r div 64 mod 64, 0x80 + r mod 64]
      else [0xF0 + r div 262144, 0x80 + r div 4096 mod 64, 0x80 + r div 64 mod 64, 0x80 + r mod 64])"

definition encode_runes :: "nat list \<Rightarrow> string" where
  "encode_runes rs = concat (map encode_rune rs)"

text \<open>A string is valid UTF-8 when it is the encoding of valid runes.\<close>

definition valid_utf8 :: "string \<Rightarrow> bool" where
  "valid_utf8 s \<longleftrightarrow> encode_runes (runes s) = s"

lemma encode_rune_nonempty [simp]: "encode_rune r \<noteq> []"
  by (simp add: encode_rune_def)

lemma of_char_small: "n < 256 \<Longrightarrow> of_char (char_of (n :: nat)) = n"
  by simp

lemma div_mod_64_3:
  "(r :: nat) div 4096 * 4096 + r div 64 mod 64 * 64 + r mod 64 = r"
proof -
  have "r div 4096 = r div 64 div 64" by (simp add: div_mult2_eq [symmetric])
  then have "r div 4096 * 64 + r div 64 mod 64 = r div 64"
    by (metis div_mult_mod_eq)
  then have "r div 4096 * 4096 + r div 64 mod 64 * 64 = r div 64 * 64" by simp
  then show ?thesis by simp
qed

lemma div_mod_64_4:
  "(r :: nat) div 262144 * 262144 + r div 4096 mod 64 * 4096 + r div 64 mod 64 * 64 + r mod 64 = r"
proof -
  have "r div 262144 = r div 4096 div 64" by (simp add: div_mult2_eq [symmetric])
  then have "r div 262144 * 64 + r div 4096 mod 64 = r div 4096"
    by (metis div_mult_mod_eq)
  then have "r div 262144 * 262144 + r div 4096 mod 64 * 4096 = r div 4096 * 4096" by simp
  then show ?thesis using div_mod_64_3 [of r] by simp
qed

lemma decode_encode_1: "r < 0x80 \<Longrightarrow> decode_rune (encode_rune r @ s) = (r, 1)"
  by (simp add: encode_rune_def)

lemma decode_encode_2:
  assumes "0x80 \<le> r" "r < 0x800"
  shows "decode_rune (encode_rune r @ s) = (r, 2)"
proof -
  have "2 \<le> r div 64" and "r div 64 < 32" using assms by auto
  then show ?thesis using assms
    by (simp add: encode_rune_def byte_in_def low6_def Let_def)
qed

text \<open>The two multi-byte cases on the bytes themselves.\<close>

lemma decode_3_bytes:
  assumes "a < 16" "b < 64" "c < 64" "a = 0 \<longrightarrow> 32 \<le> b" "a = 13 \<longrightarrow> b < 32"
  shows "decode_rune (char_of (0xE0 + a) # char_of (0x80 + b) # char_of (0x80 + c) # s)
    = (a * 4096 + b * 64 + c, 3)"
  using assms by (auto simp: byte_in_def low6_def Let_def)

lemma decode_4_bytes:
  assumes "a < 5" "b < 64" "c < 64" "d < 64" "a = 0 \<longrightarrow> 16 \<le> b" "a = 4 \<longrightarrow> b < 16"
  shows "decode_rune (char_of (0xF0 + a) # char_of (0x80 + b) # char_of (0x80 + c)
      # char_of (0x80 + d) # s) = (a * 262144 + b * 4096 + c * 64 + d, 4)"
  using assms by (auto simp: byte_in_def low6_def Let_def)

lemma decode_encode_3:
  assumes "0x800 \<le> r" "r < 0x10000" "valid_rune r"
  shows "decode_rune (encode_rune r @ s) = (r, 3)"
proof -
  let ?a = "r div 4096" and ?b = "r div 64 mod 64" and ?c = "r mod 64"
  have a: "?a < 16" using assms by auto
  have b: "?b < 64" and c: "?c < 64" by auto
  have eq: "?a * 4096 + ?b * 64 + ?c = r" by (rule div_mod_64_3)
  have lo: "?a = 0 \<longrightarrow> 32 \<le> ?b" using eq assms(1) c by arith
  have hi: "?a = 13 \<longrightarrow> ?b < 32"
  proof
    assume "?a = 13"
    with eq b c have "r < 0xE000" by arith
    with assms(3) have "r < 0xD800" by (auto simp: valid_rune_def)
    with eq \<open>?a = 13\<close> show "?b < 32" by arith
  qed
  have "encode_rune r @ s = char_of (0xE0 + ?a) # char_of (0x80 + ?b) # char_of (0x80 + ?c) # s"
    using assms by (simp add: encode_rune_def)
  with decode_3_bytes [OF a b c lo hi, of s] eq show ?thesis by (simp only:)
qed

lemma decode_encode_4:
  assumes "0x10000 \<le> r" "valid_rune r"
  shows "decode_rune (encode_rune r @ s) = (r, 4)"
proof -
  let ?a = "r div 262144" and ?b = "r div 4096 mod 64" and ?c = "r div 64 mod 64" and ?d = "r mod 64"
  have b: "?b < 64" and c: "?c < 64" and d: "?d < 64" by auto
  have eq: "?a * 262144 + ?b * 4096 + ?c * 64 + ?d = r" by (rule div_mod_64_4)
  have r: "r < 0x110000" using assms by (auto simp: valid_rune_def)
  have a: "?a < 5" using r by auto
  have lo: "?a = 0 \<longrightarrow> 16 \<le> ?b" using eq assms(1) c d by arith
  have hi: "?a = 4 \<longrightarrow> ?b < 16" using eq r by arith
  have "encode_rune r @ s = char_of (0xF0 + ?a) # char_of (0x80 + ?b) # char_of (0x80 + ?c)
      # char_of (0x80 + ?d) # s"
    using assms by (simp add: encode_rune_def)
  with decode_4_bytes [OF a b c d lo hi, of s] eq show ?thesis by (simp only:)
qed

lemma decode_encode:
  assumes "valid_rune r"
  shows "decode_rune (encode_rune r @ s) = (r, length (encode_rune r))"
proof -
  consider "r < 0x80" | "0x80 \<le> r" "r < 0x800" | "0x800 \<le> r" "r < 0x10000" | "0x10000 \<le> r"
    by linarith
  then show ?thesis
  proof cases
    case 1
    then show ?thesis by (simp add: decode_encode_1) (simp add: encode_rune_def)
  next
    case 2
    then show ?thesis by (simp add: decode_encode_2) (simp add: encode_rune_def)
  next
    case 3
    with assms show ?thesis by (simp add: decode_encode_3) (simp add: encode_rune_def)
  next
    case 4
    with assms show ?thesis by (simp add: decode_encode_4) (simp add: encode_rune_def)
  qed
qed

lemma runes_encode_append:
  assumes "valid_rune r"
  shows "runes (encode_rune r @ s) = r # runes s"
proof -
  obtain c t where ct: "encode_rune r @ s = c # t" by (cases "encode_rune r @ s") auto
  have "runes (c # t) = fst (decode_rune (c # t)) # runes (drop (snd (decode_rune (c # t))) (c # t))"
    by (rule runes.simps(2))
  then show ?thesis unfolding ct [symmetric] decode_encode [OF assms] by simp
qed

lemma runes_encode_runes:
  "(\<And>r. r \<in> set rs \<Longrightarrow> valid_rune r) \<Longrightarrow> runes (encode_runes rs) = rs"
  by (induction rs) (simp_all add: encode_runes_def runes_encode_append)

subsection \<open>The runes of a string are valid\<close>

lemma of_char_less [simp]: "(of_char c :: nat) < 256"
  by (metis of_char_mod_256 mod_less_divisor zero_less_numeral)

lemma byte_in_low6: "byte_in lo hi c \<Longrightarrow> 0x80 \<le> lo \<Longrightarrow> hi \<le> 0xBF \<Longrightarrow>
    lo - 0x80 \<le> low6 c \<and> low6 c \<le> hi - 0x80"
  by (auto simp: byte_in_def low6_def)

lemma decode2_valid: "x \<le> 0xDF \<Longrightarrow> valid_rune (fst (decode2 x s))"
  by (cases s) (auto simp: valid_rune_def rune_error_def dest!: byte_in_low6)

lemma decode3_valid:
  assumes "0xE0 \<le> x" and "x \<le> 0xEF"
  shows "valid_rune (fst (decode3 x s))"
proof (cases "(x, s)" rule: decode3.cases)
  case (1 y c1 c2 u)
  let ?lo = "if x = 0xE0 then 0xA0 else 0x80" and ?hi = "if x = 0xED then 0x9F else (0xBF :: nat)"
  show ?thesis
  proof (cases "byte_in ?lo ?hi c1 \<and> byte_in 0x80 0xBF c2")
    case True
    then have b: "low6 c1 \<le> ?hi - 0x80" "low6 c2 \<le> 63"
      using byte_in_low6 [of ?lo ?hi c1] byte_in_low6 [of 128 191 c2] by auto
    have f: "fst (decode3 x s) = (x - 0xE0) * 4096 + low6 c1 * 64 + low6 c2" using 1 True by auto
    consider "x < 0xED" | "x = 0xED" | "0xEE \<le> x" by linarith
    then show ?thesis
    proof cases
      case 1
      then have "(x - 0xE0) * 4096 \<le> 12 * 4096" by (intro mult_right_mono) auto
      with b 1 show ?thesis unfolding f valid_rune_def by auto
    next
      case 2
      with b show ?thesis unfolding f valid_rune_def by auto
    next
      case 3
      then have "14 * 4096 \<le> (x - 0xE0) * 4096" and "(x - 0xE0) * 4096 \<le> 15 * 4096"
        using assms by auto
      with b 3 show ?thesis unfolding f valid_rune_def by auto
    qed
  next
    case False
    then show ?thesis using 1 by (auto simp: valid_rune_def rune_error_def)
  qed
qed (simp_all add: valid_rune_def rune_error_def)

lemma decode4_valid:
  assumes "0xF0 \<le> x" and "x \<le> 0xF4"
  shows "valid_rune (fst (decode4 x s))"
proof (cases "(x, s)" rule: decode4.cases)
  case (1 y c1 c2 c3 u)
  let ?lo = "if x = 0xF0 then 0x90 else 0x80" and ?hi = "if x = 0xF4 then 0x8F else (0xBF :: nat)"
  show ?thesis
  proof (cases "byte_in ?lo ?hi c1 \<and> byte_in 0x80 0xBF c2 \<and> byte_in 0x80 0xBF c3")
    case True
    then have b: "?lo - 0x80 \<le> low6 c1" "low6 c1 \<le> ?hi - 0x80" "low6 c2 \<le> 63" "low6 c3 \<le> 63"
      using byte_in_low6 [of ?lo ?hi c1] byte_in_low6 [of 128 191 c2] byte_in_low6 [of 128 191 c3]
      by auto
    have f: "fst (decode4 x s) = (x - 0xF0) * 262144 + low6 c1 * 4096 + low6 c2 * 64 + low6 c3"
      using 1 True by auto
    have "x = 0xF0 \<or> x = 0xF1 \<or> x = 0xF2 \<or> x = 0xF3 \<or> x = 0xF4" using assms by linarith
    then show ?thesis using b unfolding f valid_rune_def by auto
  next
    case False
    then show ?thesis using 1 by (auto simp: valid_rune_def rune_error_def)
  qed
qed (simp_all add: valid_rune_def rune_error_def)

lemma decode_rune_valid: "valid_rune (fst (decode_rune s))"
proof (cases s)
  case Nil
  then show ?thesis by (simp add: valid_rune_def rune_error_def)
next
  case (Cons c t)
  then show ?thesis
    by (auto simp: Let_def decode2_valid decode3_valid decode4_valid)
      (simp_all add: valid_rune_def rune_error_def)
qed

lemma runes_valid: "r \<in> set (runes s) \<Longrightarrow> valid_rune r"
proof (induction s rule: runes.induct)
  case (2 c s)
  then show ?case using decode_rune_valid [of "c # s"] by (auto simp only: runes.simps set_simps)
qed simp

lemma encode_runes_append: "encode_runes (xs @ ys) = encode_runes xs @ encode_runes ys"
  by (simp add: encode_runes_def)

subsection \<open>ASCII\<close>

definition ascii_text :: "string \<Rightarrow> bool" where
  "ascii_text s \<longleftrightarrow> (\<forall>c \<in> set s. (of_char c :: nat) < 128)"

lemma runes_ascii: "ascii_text s \<Longrightarrow> runes s = map of_char s"
  by (induction s) (simp_all add: ascii_text_def runes.simps(2))

lemma valid_ascii: "ascii_text s \<Longrightarrow> valid_utf8 s"
proof -
  assume a: "ascii_text s"
  then have "concat (map (\<lambda>c. encode_rune (of_char c)) s) = s"
    by (induction s) (simp_all add: ascii_text_def encode_rune_def)
  with a show ?thesis by (simp add: valid_utf8_def encode_runes_def runes_ascii comp_def)
qed

lemma ascii_append [simp]: "ascii_text (s @ t) \<longleftrightarrow> ascii_text s \<and> ascii_text t"
  by (auto simp: ascii_text_def)

end
