(* ===== verification/Go_Time.thy ===== *)
theory Go_Time
  imports Go_Strings "HOL-Library.Monad_Syntax"
begin

text \<open>
  Times as text, as package \<open>time\<close> writes and reads them in UTC: the layout
  \<open>2006-01-02 15:04:05\<close> of the SQLite columns (\<open>sqliteTimeFmt\<close>) and RFC 3339 with nanoseconds (the
  \<open>at\<close> of an error entry). A time is its nanoseconds since 1 January 1970; the calendar is the
  Gregorian one in both directions, with years that start in March as the package has them.
\<close>

subsection \<open>The calendar\<close>

text \<open>Days from 1 January 1970 to 1 March of a year.\<close>

definition march_start :: "int \<Rightarrow> int" where
  "march_start y = y * 365 + y div 4 - y div 100 + y div 400 - 719468"

text \<open>The year that starts in March, and the day of that year: the cycles of 400, 100 and 4 years
  are cut off in turn.\<close>

definition march_year :: "int \<Rightarrow> int \<times> int" where
  "march_year n =
     (let z = n + 719468; era = z div 146097; doe = z mod 146097;
          cent = min 3 (doe div 36524); r1 = doe - cent * 36524;
          quad = r1 div 1461; r2 = r1 mod 1461; yr = min 3 (r2 div 365)
      in (era * 400 + cent * 100 + quad * 4 + yr, r2 - yr * 365))"

definition civil_of_days :: "int \<Rightarrow> int \<times> int \<times> int" where
  "civil_of_days n =
     (case march_year n of (y, doy) \<Rightarrow>
       (let mp = (5 * doy + 2) div 153; d = doy - (153 * mp + 2) div 5 + 1 in
        if mp < 10 then (y, mp + 3, d) else (y + 1, mp - 9, d)))"

definition days_of_civil :: "int \<Rightarrow> int \<Rightarrow> int \<Rightarrow> int" where
  "days_of_civil y m d =
     (if 2 < m then march_start y + (153 * (m - 3) + 2) div 5 + d - 1
      else march_start (y - 1) + (153 * (m + 9) + 2) div 5 + d - 1)"

definition leap_year :: "int \<Rightarrow> bool" where
  "leap_year y \<longleftrightarrow> y mod 4 = 0 \<and> (y mod 100 \<noteq> 0 \<or> y mod 400 = 0)"

definition days_in_month :: "int \<Rightarrow> int \<Rightarrow> int" where
  "days_in_month y m =
     (if m = 2 then (if leap_year y then 29 else 28)
      else if m \<in> {4, 6, 9, 11} then 30 else 31)"

lemma march_year_bounds:
  assumes "march_year n = (y, doy)"
  shows "n = march_start y + doy" and "0 \<le> doy" and "doy \<le> 365"
    and "doy = 365 \<longrightarrow> leap_year (y + 1)"
proof -
  define era where "era = (n + 719468) div 146097"
  define doe where "doe = (n + 719468) mod 146097"
  define cent where "cent = min 3 (doe div 36524)"
  define r1 where "r1 = doe - cent * 36524"
  define quad where "quad = r1 div 1461"
  define r2 where "r2 = r1 mod 1461"
  define yr where "yr = min 3 (r2 div 365)"
  have "march_year n = (era * 400 + cent * 100 + quad * 4 + yr, r2 - yr * 365)"
    by (simp only: march_year_def era_def doe_def cent_def r1_def quad_def r2_def yr_def Let_def)
  with assms have y: "y = era * 400 + cent * 100 + quad * 4 + yr" and doy: "doy = r2 - yr * 365" by auto
  have n: "n + 719468 = era * 146097 + doe" unfolding era_def doe_def by simp
  have d0: "0 \<le> doe" "doe < 146097" unfolding doe_def by simp_all
  have c: "0 \<le> cent" "cent \<le> 3" and r1b: "0 \<le> r1" "r1 \<le> 36524" "cent < 3 \<Longrightarrow> r1 < 36524"
  proof -
    define k where "k = doe div 36524"
    have k: "k * 36524 \<le> doe" "doe < k * 36524 + 36524" "0 \<le> k" "k \<le> 4"
      unfolding k_def using d0 by linarith+
    have "cent = k \<and> k \<le> 3 \<or> cent = 3 \<and> k = 4" unfolding cent_def k_def [symmetric] using k by linarith
    then show "0 \<le> cent" "cent \<le> 3" "0 \<le> r1" "r1 \<le> 36524" "cent < 3 \<Longrightarrow> r1 < 36524"
      unfolding r1_def using k d0 by auto
  qed
  have q: "0 \<le> quad" "quad \<le> 24" and r1: "r1 = quad * 1461 + r2" and r2b: "0 \<le> r2" "r2 < 1461"
    using r1b unfolding quad_def r2_def by auto
  have yrb: "0 \<le> yr" "yr \<le> 3" and doyb: "0 \<le> doy" "doy \<le> 365" "yr < 3 \<Longrightarrow> doy < 365"
  proof -
    define k where "k = r2 div 365"
    have k: "k * 365 \<le> r2" "r2 < k * 365 + 365" "0 \<le> k" "k \<le> 4"
      unfolding k_def using r2b by linarith+
    have "yr = k \<and> k \<le> 3 \<or> yr = 3 \<and> k = 4" unfolding yr_def k_def [symmetric] using k by linarith
    then show "0 \<le> yr" "yr \<le> 3" "0 \<le> doy" "doy \<le> 365" "yr < 3 \<Longrightarrow> doy < 365"
      unfolding doy using k r2b by auto
  qed
  show "0 \<le> doy" "doy \<le> 365" by (fact doyb)+
  have y4: "y div 4 = era * 100 + cent * 25 + quad" and y100: "y div 100 = era * 4 + cent"
    and y400: "y div 400 = era" unfolding y using c q yrb by linarith+
  have "march_start y = n - doy"
    unfolding march_start_def y4 y100 y400 using n r1 doy r1_def unfolding y distrib_right by linarith
  then show "n = march_start y + doy" by simp
  show "doy = 365 \<longrightarrow> leap_year (y + 1)"
  proof
    assume "doy = 365"
    with doyb yrb have yr3: "yr = 3" by linarith
    with \<open>doy = 365\<close> doy have "r2 = 1460" by simp
    with r1 r1b q c have "quad < 24 \<or> cent = 3" by (cases "cent < 3") auto
    have y1: "y + 1 = era * 400 + cent * 100 + (quad + 1) * 4" using y yr3 by simp
    then have "(y + 1) mod 4 = 0" by presburger
    moreover have "(y + 1) mod 100 \<noteq> 0 \<or> (y + 1) mod 400 = 0"
    proof (cases "quad < 24")
      case True
      with q have "0 < (quad + 1) * 4" "(quad + 1) * 4 < 100" by auto
      moreover have "y + 1 = (era * 4 + cent) * 100 + (quad + 1) * 4" unfolding y1 by simp
      ultimately have "(y + 1) mod 100 = (quad + 1) * 4"
        by (simp only: mod_mult_self3 mod_pos_pos_trivial less_imp_le)
      with \<open>0 < (quad + 1) * 4\<close> show ?thesis by simp
    next
      case False
      with q have "quad = 24" by linarith
      with \<open>quad < 24 \<or> cent = 3\<close> show ?thesis unfolding y1 by simp
    qed
    ultimately show "leap_year (y + 1)" by (simp add: leap_year_def)
  qed
qed

lemma days_of_civil_of_days:
  assumes "civil_of_days n = (y, m, d)"
  shows "days_of_civil y m d = n" and "1 \<le> m" and "m \<le> 12" and "1 \<le> d" and "d \<le> days_in_month y m"
proof -
  obtain Y doy where my: "march_year n = (Y, doy)" by (cases "march_year n")
  note b = march_year_bounds [OF my]
  define mp where "mp = (5 * doy + 2) div 153"
  have mp: "0 \<le> mp" "mp \<le> 11" using b unfolding mp_def by linarith+
  have eq: "(y, m, d) = (if mp < 10 then (Y, mp + 3, doy - (153 * mp + 2) div 5 + 1)
      else (Y + 1, mp - 9, doy - (153 * mp + 2) div 5 + 1))"
    using assms unfolding civil_of_days_def my prod.case Let_def mp_def [symmetric] by simp
  show "days_of_civil y m d = n" and "1 \<le> m" and "m \<le> 12"
    using eq mp b(1) by (auto simp: days_of_civil_def split: if_splits)
  have d: "d = doy - (153 * mp + 2) div 5 + 1" using eq by (auto split: if_splits)
  then show "1 \<le> d" unfolding mp_def using b by linarith
  have cases: "mp = 0 \<or> mp = 1 \<or> mp = 2 \<or> mp = 3 \<or> mp = 4 \<or> mp = 5 \<or> mp = 6 \<or> mp = 7 \<or> mp = 8 \<or> mp = 9
      \<or> mp = 10 \<or> mp = 11" using mp by presburger
  have up: "5 * doy + 2 < 153 * (mp + 1)" unfolding mp_def by presburger
  show "d \<le> days_in_month y m"
    using cases eq up d b by (elim disjE) (auto simp: days_in_month_def)
qed

subsection \<open>Writing\<close>

text \<open>\<open>appendInt(b, n, w)\<close>: at least \<open>w\<close> digits, with zeros in front.\<close>

definition zero_pad :: "nat \<Rightarrow> nat \<Rightarrow> string" where
  "zero_pad w n = replicate (w - length (show_nat n)) CHR ''0'' @ show_nat n"

definition year_text :: "int \<Rightarrow> string" where
  "year_text y = (if y < 0 then CHR ''-'' # zero_pad 4 (nat (- y)) else zero_pad 4 (nat y))"

text \<open>A number of seconds as date and time of day, with \<open>sep\<close> between the two.\<close>

definition stamp_text :: "char \<Rightarrow> int \<Rightarrow> string" where
  "stamp_text sep sec =
     (case civil_of_days (sec div 86400) of (y, m, d) \<Rightarrow>
       (let r = sec mod 86400 in
        year_text y @ CHR ''-'' # zero_pad 2 (nat m) @ CHR ''-'' # zero_pad 2 (nat d) @ sep #
        zero_pad 2 (nat (r div 3600)) @ CHR '':'' # zero_pad 2 (nat (r mod 3600 div 60)) @ CHR '':'' #
        zero_pad 2 (nat (r mod 60))))"

text \<open>\<open>t.Format("2006-01-02 15:04:05")\<close> in UTC; the layout has no fraction.\<close>

definition format_sqlite :: "int \<Rightarrow> string" where
  "format_sqlite t = stamp_text CHR '' '' (t div 1000000000)"

text \<open>The fraction of \<open>RFC3339Nano\<close>: nine digits without the zeros at the end.\<close>

definition fraction_text :: "nat \<Rightarrow> string" where
  "fraction_text ns =
     (if ns = 0 then [] else CHR ''.'' # rev (dropWhile (\<lambda>c. c = CHR ''0'') (rev (zero_pad 9 ns))))"

definition format_rfc3339 :: "int \<Rightarrow> string" where
  "format_rfc3339 t =
     stamp_text CHR ''T'' (t div 1000000000) @ fraction_text (nat (t mod 1000000000)) @ ''Z''"

subsection \<open>Reading\<close>

definition digit_char :: "char \<Rightarrow> bool" where
  "digit_char c \<longleftrightarrow> 48 \<le> (of_char c :: nat) \<and> (of_char c :: nat) < 58"

definition take_digits :: "nat \<Rightarrow> string \<Rightarrow> (nat \<times> string) option" where
  "take_digits w s =
     (if w \<le> length s \<and> list_all digit_char (take w s) then Some (read_nat (take w s), drop w s) else None)"

definition expect :: "char \<Rightarrow> string \<Rightarrow> string option" where
  "expect c s = (case s of [] \<Rightarrow> None | x # t \<Rightarrow> if x = c then Some t else None)"

text \<open>\<open>time.Parse\<close> accepts an hour of one digit and a fraction after the seconds, with a period or
  a comma; \<open>UnmarshalJSON\<close> is strict (\<open>strict\<close>).\<close>

definition take_hour :: "bool \<Rightarrow> string \<Rightarrow> (nat \<times> string) option" where
  "take_hour strict s =
     (case take_digits 2 s of Some r \<Rightarrow> Some r | None \<Rightarrow> if strict then None else take_digits 1 s)"

definition take_fraction :: "bool \<Rightarrow> string \<Rightarrow> nat \<times> string" where
  "take_fraction strict s =
     (case s of
        c # d # t \<Rightarrow>
          if (c = CHR ''.'' \<or> (\<not> strict \<and> c = CHR '','')) \<and> digit_char d then
            (let ds = takeWhile digit_char (d # t) in
             (read_nat (take 9 (ds @ replicate 9 CHR ''0'')), dropWhile digit_char (d # t)))
          else (0, s)
      | _ \<Rightarrow> (0, s))"

definition parse_stamp :: "bool \<Rightarrow> char \<Rightarrow> string \<Rightarrow> (int \<times> string) option" where
  "parse_stamp strict sep s =
     do { (y, s) \<leftarrow> take_digits 4 s; s \<leftarrow> expect CHR ''-'' s;
          (m, s) \<leftarrow> take_digits 2 s; s \<leftarrow> expect CHR ''-'' s;
          (d, s) \<leftarrow> take_digits 2 s; s \<leftarrow> expect sep s;
          (h, s) \<leftarrow> take_hour strict s; s \<leftarrow> expect CHR '':'' s;
          (mi, s) \<leftarrow> take_digits 2 s; s \<leftarrow> expect CHR '':'' s;
          (sec, s) \<leftarrow> take_digits 2 s;
          (case take_fraction strict s of (ns, s) \<Rightarrow>
             if 1 \<le> m \<and> m \<le> 12 \<and> 1 \<le> d \<and> int d \<le> days_in_month (int y) (int m)
               \<and> h < 24 \<and> mi < 60 \<and> sec < 60
             then Some ((days_of_civil (int y) (int m) (int d) * 86400
                    + int h * 3600 + int mi * 60 + int sec) * 1000000000 + int ns, s)
             else None) }"

text \<open>\<open>time.ParseInLocation(sqliteTimeFmt, s, time.UTC)\<close>.\<close>

definition parse_sqlite :: "string \<Rightarrow> int option" where
  "parse_sqlite s = (case parse_stamp False CHR '' '' s of Some (t, []) \<Rightarrow> Some t | _ \<Rightarrow> None)"

text \<open>The zone of RFC 3339: \<open>Z\<close>, or an offset in hours and minutes; in nanoseconds east of UTC.\<close>

definition take_zone :: "string \<Rightarrow> (int \<times> string) option" where
  "take_zone s =
     (case s of [] \<Rightarrow> None
      | c # t \<Rightarrow>
        if c = CHR ''Z'' then Some (0, t)
        else if c = CHR ''+'' \<or> c = CHR ''-'' then
          do { (h, u) \<leftarrow> take_digits 2 t; u \<leftarrow> expect CHR '':'' u; (m, u) \<leftarrow> take_digits 2 u;
               if h < 24 \<and> m < 60
               then Some ((if c = CHR ''+'' then 1 else -1) * (int h * 3600 + int m * 60) * 1000000000, u)
               else None }
        else None)"

text \<open>\<open>json.Unmarshal\<close> of a string into a \<open>time.Time\<close>.\<close>

definition parse_rfc3339 :: "string \<Rightarrow> int option" where
  "parse_rfc3339 s =
     do { (t, u) \<leftarrow> parse_stamp True CHR ''T'' s; (off, w) \<leftarrow> take_zone u;
          if w = [] then Some (t - off) else None }"

subsection \<open>Fixed-width numbers\<close>

lemma length_show_nat: "n < 10 ^ Suc w \<Longrightarrow> length (show_nat n) \<le> Suc w"
proof (induction w arbitrary: n)
  case 0
  then show ?case by (subst show_nat.simps) simp
next
  case (Suc w)
  show ?case
  proof (cases "n < 10")
    case False
    have "n div 10 < 10 ^ Suc w" using Suc.prems by (simp add: div_less_iff_less_mult mult.commute)
    with Suc.IH have "length (show_nat (n div 10)) \<le> Suc w" by blast
    with False show ?thesis by (subst show_nat.simps) simp
  qed (subst show_nat.simps, simp)
qed

lemma length_zero_pad: "0 < w \<Longrightarrow> n < 10 ^ w \<Longrightarrow> length (zero_pad w n) = w"
  using length_show_nat [of n "w - 1"] by (cases w) (simp_all add: zero_pad_def)

lemma read_nat_Nil: "read_nat [] = 0"
  by (simp add: read_nat.simps)

lemma read_nat_zeros: "read_nat (replicate k CHR ''0'' @ s) = read_nat s"
proof -
  have "foldl (\<lambda>a c. 10 * a + (of_char c - 48)) (0 :: nat) (replicate k CHR ''0'') = 0"
    by (induction k) simp_all
  then show ?thesis by (simp add: read_nat.simps)
qed

lemma read_zero_pad [simp]: "read_nat (zero_pad w n) = n"
  by (simp add: zero_pad_def read_nat_zeros)

lemma zero_pad_digits: "list_all digit_char (zero_pad w n)"
  using show_nat_digits by (auto simp: zero_pad_def list_all_iff digit_char_def)

lemma take_zero_pad: "0 < w \<Longrightarrow> n < 10 ^ w \<Longrightarrow> take_digits w (zero_pad w n @ s) = Some (n, s)"
  by (simp add: take_digits_def length_zero_pad zero_pad_digits)

lemma take_zero_pad_2: "n < 100 \<Longrightarrow> take_digits 2 (zero_pad 2 n @ s) = Some (n, s)"
  by (rule take_zero_pad) simp_all

lemma expect_Cons [simp]: "expect c (c # s) = Some s"
  by (simp add: expect_def)

text \<open>Seconds as days, hours, minutes and seconds.\<close>

lemma seconds_split:
  "(sec :: int) = sec div 86400 * 86400 + (sec mod 86400 div 3600) * 3600
     + (sec mod 86400 mod 3600 div 60) * 60 + sec mod 86400 mod 60"
proof -
  define r where "r = sec mod 86400"
  have "sec = sec div 86400 * 86400 + r" unfolding r_def by simp
  moreover have "r = r div 3600 * 3600 + r mod 3600" by simp
  moreover have "r mod 3600 = r mod 3600 div 60 * 60 + r mod 3600 mod 60" by simp
  moreover have "r mod 3600 mod 60 = r mod 60" by (rule mod_mod_cancel) simp
  ultimately show ?thesis unfolding r_def by linarith
qed

subsection \<open>Round trips\<close>

text \<open>The times with a year of four digits.\<close>

definition four_digit_year :: "int \<Rightarrow> bool" where
  "four_digit_year sec \<longleftrightarrow> (case civil_of_days (sec div 86400) of (y, m, d) \<Rightarrow> 0 \<le> y \<and> y \<le> 9999)"

lemma days_in_month_le: "days_in_month y m \<le> 31"
  by (simp add: days_in_month_def)

lemma parse_stamp_text:
  assumes "four_digit_year sec" and "take_fraction strict u = (ns, w)"
  shows "parse_stamp strict sep (stamp_text sep sec @ u) = Some (sec * 1000000000 + int ns, w)"
proof -
  obtain y m d where c: "civil_of_days (sec div 86400) = (y, m, d)" by (cases "civil_of_days (sec div 86400)")
  note b = days_of_civil_of_days [OF c]
  define h where "h = sec mod 86400 div 3600"
  define mi where "mi = sec mod 86400 mod 3600 div 60"
  define se where "se = sec mod 86400 mod 60"
  have y: "0 \<le> y" "y \<le> 9999" using assms(1) c by (simp_all add: four_digit_year_def)
  have h: "0 \<le> h" "h < 24" unfolding h_def by simp_all
  have mi: "0 \<le> mi" "mi < 60" unfolding mi_def by simp_all
  have se: "0 \<le> se" "se < 60" unfolding se_def by simp_all
  have d31: "d \<le> 31" using b(5) days_in_month_le order_trans by blast
  have sec: "sec = sec div 86400 * 86400 + h * 3600 + mi * 60 + se"
    unfolding h_def mi_def se_def by (rule seconds_split)
  have shape: "stamp_text sep sec @ u = zero_pad 4 (nat y) @ CHR ''-'' # zero_pad 2 (nat m) @ CHR ''-'' #
      zero_pad 2 (nat d) @ sep # zero_pad 2 (nat h) @ CHR '':'' # zero_pad 2 (nat mi) @ CHR '':'' #
      zero_pad 2 (nat se) @ u"
    using y by (simp add: stamp_text_def c year_text_def h_def mi_def se_def Let_def)
  have y4: "take_digits 4 (zero_pad 4 (nat y) @ s) = Some (nat y, s)" for s
    by (rule take_zero_pad) (use y in simp_all)
  have two: "take_digits 2 (zero_pad 2 (nat m) @ s) = Some (nat m, s)"
    "take_digits 2 (zero_pad 2 (nat d) @ s) = Some (nat d, s)"
    "take_digits 2 (zero_pad 2 (nat mi) @ s) = Some (nat mi, s)"
    "take_digits 2 (zero_pad 2 (nat se) @ s) = Some (nat se, s)"
    "take_hour strict (zero_pad 2 (nat h) @ s) = Some (nat h, s)" for s
    using b d31 h mi se by (simp_all add: take_zero_pad_2 take_hour_def)
  have ok: "1 \<le> nat m \<and> nat m \<le> 12 \<and> 1 \<le> nat d \<and> int (nat d) \<le> days_in_month (int (nat y)) (int (nat m))
      \<and> nat h < 24 \<and> nat mi < 60 \<and> nat se < 60"
    using b y h mi se by auto
  have val: "days_of_civil (int (nat y)) (int (nat m)) (int (nat d)) * 86400
      + int (nat h) * 3600 + int (nat mi) * 60 + int (nat se) = sec"
    using b y h mi se sec by simp
  show ?thesis
    unfolding shape parse_stamp_def y4 two expect_Cons Option.bind.simps prod.case assms(2)
    using ok by (simp only: if_True val simp_thms)
qed

lemma format_sqlite_parse:
  assumes "four_digit_year (t div 1000000000)"
  shows "parse_sqlite (format_sqlite t) = Some (t div 1000000000 * 1000000000)"
proof -
  have "take_fraction False [] = (0, [])" by (simp add: take_fraction_def)
  from parse_stamp_text [OF assms this, of "CHR '' ''"] show ?thesis
    by (simp add: parse_sqlite_def format_sqlite_def)
qed

lemma rev_dropWhile_rev: "\<exists>k. s = rev (dropWhile (\<lambda>c. c = a) (rev s)) @ replicate k a"
proof (induction s rule: rev_induct)
  case (snoc x s)
  define q where "q = rev (dropWhile (\<lambda>c. c = a) (rev s))"
  from snoc obtain k where k: "s = q @ replicate k a" unfolding q_def by blast
  have "s @ [a] = q @ replicate (Suc k) a"
    by (simp only: k append_assoc replicate_append_same [symmetric] replicate_Suc)
  moreover have "rev (dropWhile (\<lambda>c. c = a) (rev (s @ [a]))) = q" by (simp add: q_def)
  ultimately have "s @ [a] = rev (dropWhile (\<lambda>c. c = a) (rev (s @ [a]))) @ replicate (Suc k) a" by simp
  then have "x = a \<Longrightarrow> ?case" by blast
  moreover have "x \<noteq> a \<Longrightarrow> ?case" by (intro exI [of _ 0]) simp
  ultimately show ?case by blast
qed simp

lemma take_fraction_text:
  assumes "ns < 1000000000"
  shows "take_fraction True (fraction_text ns @ ''Z'') = (ns, ''Z'')"
proof (cases "ns = 0")
  case True
  then show ?thesis by (simp add: fraction_text_def take_fraction_def)
next
  case False
  define q where "q = rev (dropWhile (\<lambda>c. c = CHR ''0'') (rev (zero_pad 9 ns)))"
  obtain k where k: "zero_pad 9 ns = q @ replicate k CHR ''0''"
    using rev_dropWhile_rev [of "zero_pad 9 ns" "CHR ''0''"] unfolding q_def [symmetric] by blast
  have "length (zero_pad 9 ns) = 9" using assms by (intro length_zero_pad) simp_all
  then have n: "length q + k = 9" using k by simp
  have digits: "list_all digit_char q" using zero_pad_digits [of 9 ns] k by simp
  have "read_nat (q @ replicate k CHR ''0'') = ns" using k by (metis read_zero_pad)
  then have "q \<noteq> []" using False read_nat_zeros [of k "[]"] by (auto simp: read_nat_Nil)
  then obtain d t where q: "q = d # t" by (cases q) auto
  have z: "\<not> digit_char CHR ''Z''" by (simp add: digit_char_def)
  have tw: "takeWhile digit_char (q @ ''Z'') = q" "dropWhile digit_char (q @ ''Z'') = ''Z''"
    using digits z by (simp_all add: list_all_iff takeWhile_append dropWhile_append)
  have "replicate 9 CHR ''0'' = replicate k CHR ''0'' @ replicate (9 - k) CHR ''0''"
    using n replicate_add [of k "9 - k" "CHR ''0''"] by simp
  then have "take 9 (q @ replicate 9 CHR ''0'') = take 9 ((q @ replicate k CHR ''0'') @ replicate (9 - k) CHR ''0'')"
    by (simp only: append_assoc)
  also have "\<dots> = zero_pad 9 ns" using n k by simp
  finally have t9: "read_nat (take 9 (q @ replicate 9 CHR ''0'')) = ns" by simp
  have "digit_char d" using digits q by simp
  with tw t9 q False show ?thesis
    by (simp add: fraction_text_def take_fraction_def Let_def q_def [symmetric])
qed

lemma format_rfc3339_parse:
  assumes "four_digit_year (t div 1000000000)"
  shows "parse_rfc3339 (format_rfc3339 t) = Some t"
proof -
  let ?ns = "nat (t mod 1000000000)"
  have "take_fraction True (fraction_text ?ns @ ''Z'') = (?ns, ''Z'')"
    by (rule take_fraction_text) (simp add: nat_less_iff)
  from parse_stamp_text [OF assms this, of "CHR ''T''"] show ?thesis
    by (simp add: parse_rfc3339_def format_rfc3339_def take_zone_def)
qed

end
