(* ===== verification/Json.thy ===== *)
theory Json
  imports Utf8 Go_Time
begin

text \<open>
  JSON documents. The \<open>payload\<close>, \<open>metadata\<close>, \<open>result\<close> and \<open>errors\<close> columns (JSONB in
  PostgreSQL, JSON text in SQLite) and the \<open>[]byte\<close> fields that carry them are represented by
  the document's value: the service and the database only ever exchange whole documents and
  look into their top-level fields. A number whose literal is not integral is kept as its
  literal.

  The one place where the Go code writes JSON text by hand, \<open>jsonString\<close> and
  \<open>buildErrorEntry\<close> of \<open>driver_sqlite.go\<close>, is modelled on the text, with a reader of JSON
  string literals (RFC 8259, as \<open>encoding/json\<close> reads them).
\<close>

datatype json =
    JNull
  | JBool bool
  | JInt int
  | JFrac string
  | JStr string
  | JArr "json list"
  | JObj "(string \<times> json) list"

text \<open>\<open>json.Unmarshal(b, &m)\<close> with \<open>m map[string]any\<close>: the fields of an object, with the last
  occurrence of a key winning; the nil map when the document is no object.\<close>

definition json_map :: "json \<Rightarrow> (string \<rightharpoonup> json)" where
  "json_map v = (case v of JObj fs \<Rightarrow> map_of (rev fs) | _ \<Rightarrow> Map.empty)"

definition is_object :: "json \<Rightarrow> bool" where
  "is_object v = (case v of JObj _ \<Rightarrow> True | _ \<Rightarrow> False)"

text \<open>The type assertions \<open>m[k].(string)\<close> and \<open>m[k].(bool)\<close> with the zero value on failure.\<close>

definition as_string :: "json option \<Rightarrow> string" where
  "as_string v = (case v of Some (JStr s) \<Rightarrow> s | _ \<Rightarrow> [])"

definition as_bool :: "json option \<Rightarrow> bool" where
  "as_bool v = (case v of Some (JBool b) \<Rightarrow> b | _ \<Rightarrow> False)"

lemma json_map_JObj [simp]: "json_map (JObj fs) = map_of (rev fs)"
  by (simp add: json_map_def)

subsection \<open>Writing a string literal: \<open>jsonString\<close>\<close>

text \<open>One rune of the switch in \<open>jsonString\<close>.\<close>

definition json_rune :: "nat \<Rightarrow> string" where
  "json_rune r =
     (if r = 34 then [CHR 0x5C, CHR 0x22]
      else if r = 92 then [CHR 0x5C, CHR 0x5C]
      else if r = 10 then [CHR 0x5C, CHR ''n'']
      else if r = 13 then [CHR 0x5C, CHR ''r'']
      else if r = 9 then [CHR 0x5C, CHR ''t'']
      else encode_rune r)"

definition jsonString :: "string \<Rightarrow> string" where
  "jsonString s = [CHR 0x22] @ concat (map json_rune (runes s)) @ [CHR 0x22]"

text \<open>\<open>buildErrorEntry\<close>, with the reading of the clock.\<close>

definition buildErrorEntry :: "int \<Rightarrow> string \<Rightarrow> string" where
  "buildErrorEntry now msg =
     [CHR 0x7B, CHR 0x22] @ ''at'' @ [CHR 0x22, CHR '':'', CHR 0x22] @ format_rfc3339 now @
     [CHR 0x22, CHR '','', CHR 0x22] @ ''message'' @ [CHR 0x22, CHR '':''] @ jsonString msg @
     [CHR 0x7D]"

subsection \<open>Reading a string literal\<close>

fun hex_digit :: "nat \<Rightarrow> nat option" where
  "hex_digit r = (if 48 \<le> r \<and> r \<le> 57 then Some (r - 48)
     else if 97 \<le> r \<and> r \<le> 102 then Some (r - 87)
     else if 65 \<le> r \<and> r \<le> 70 then Some (r - 55) else None)"

fun hex4 :: "nat list \<Rightarrow> (nat \<times> nat list) option" where
  "hex4 (a # b # c # d # rest) =
     (case (hex_digit a, hex_digit b, hex_digit c, hex_digit d) of
        (Some w, Some x, Some y, Some z) \<Rightarrow> Some (w * 4096 + x * 256 + y * 16 + z, rest)
      | _ \<Rightarrow> None)"
| "hex4 _ = None"

text \<open>\<open>\uXXXX\<close>: a surrogate pair is one rune, a lone surrogate is U+FFFD.\<close>

definition read_u :: "nat list \<Rightarrow> (nat \<times> nat list) option" where
  "read_u rs = (case hex4 rs of
      None \<Rightarrow> None
    | Some (u, rest) \<Rightarrow>
        if 0xD800 \<le> u \<and> u < 0xE000 then
          (case rest of
             x # y # rest1 \<Rightarrow>
               (case (if x = 92 \<and> y = 117 then hex4 rest1 else None) of
                  Some (v, rest2) \<Rightarrow>
                    if u < 0xDC00 \<and> 0xDC00 \<le> v \<and> v < 0xE000
                    then Some ((u - 0xD800) * 1024 + (v - 0xDC00) + 0x10000, rest2)
                    else Some (rune_error, rest)
                | None \<Rightarrow> Some (rune_error, rest))
           | _ \<Rightarrow> Some (rune_error, rest))
        else Some (u, rest))"

lemma hex4_length: "hex4 rs = Some (u, rest) \<Longrightarrow> length rest < length rs"
  by (cases rs rule: hex4.cases) (auto split: option.splits simp del: hex_digit.simps)

lemma read_u_length: "read_u rs = Some (u, rest) \<Longrightarrow> length rest < length rs"
  by (auto simp: read_u_def split: option.splits if_splits list.splits prod.splits dest!: hex4_length)

text \<open>The runes of a literal after its opening quote, up to the closing quote, and what
  follows. A control character inside a literal is a syntax error.\<close>

function read_lit :: "nat list \<Rightarrow> (nat list \<times> nat list) option" where
  "read_lit [] = None"
| "read_lit (r # rs) =
     (if r = 34 then Some ([], rs)
      else if r < 32 then None
      else if r = 92 then
        (case rs of
           [] \<Rightarrow> None
         | e # rest \<Rightarrow>
             if e = 117 then
               (case read_u rest of None \<Rightarrow> None
                | Some (u, rest') \<Rightarrow> map_option (\<lambda>(a, b). (u # a, b)) (read_lit rest'))
             else
               (case map_of [(34, 34), (92, 92), (47, 47), (98, 8), (102, 12), (110, 10), (114, 13), (116, 9)] e of
                  None \<Rightarrow> None
                | Some u \<Rightarrow> map_option (\<lambda>(a, b). (u # a, b)) (read_lit rest)))
      else map_option (\<lambda>(a, b). (r # a, b)) (read_lit rs))"
  by pat_completeness auto
termination
  by (relation "measure length") (auto dest: read_u_length)

declare read_lit.simps(2) [simp del]

text \<open>\<open>json.Unmarshal\<close> of a document that is one string literal.\<close>

definition read_json_string :: "string \<Rightarrow> string option" where
  "read_json_string t =
     (case runes t of
        [] \<Rightarrow> None
      | q # rs \<Rightarrow> if q \<noteq> 34 then None
          else (case read_lit rs of
              Some (out, []) \<Rightarrow> Some (encode_runes out)
            | _ \<Rightarrow> None))"

text \<open>The runes that \<open>jsonString\<close> writes so that they can be read back.\<close>

definition json_safe :: "nat \<Rightarrow> bool" where
  "json_safe r \<longleftrightarrow> 32 \<le> r \<or> r = 9 \<or> r = 10 \<or> r = 13"

end
