(* ===== verification/Job_Table.thy ===== *)
theory Job_Table
  imports Json
begin

text \<open>
  The data of the service: the job states, the rows of the tables of
  \<open>internal/db/migrations\<close> that the drivers read and write, and the Go structs of
  \<open>internal/service/driver.go\<close>. \<open>job_row\<close> is \<open>JobRow\<close>; a row of the \<open>jobs\<close> table has two
  more columns, which no query returns. A \<open>DATETIME\<close>/\<open>TIMESTAMPTZ\<close> column is an integer in
  the unit of the dialect (nanoseconds for PostgreSQL, seconds for SQLite); a Go
  \<open>time.Time\<close> is in nanoseconds.
\<close>

datatype status = Pending | Scheduled | Available | Running | Retryable | Cancelled
  | Discarded | Completed

fun status_name :: "status \<Rightarrow> string" where
  "status_name Pending = ''pending''"
| "status_name Scheduled = ''scheduled''"
| "status_name Available = ''available''"
| "status_name Running = ''running''"
| "status_name Retryable = ''retryable''"
| "status_name Cancelled = ''cancelled''"
| "status_name Discarded = ''discarded''"
| "status_name Completed = ''completed''"

definition all_statuses :: "status list" where
  "all_statuses = [Pending, Scheduled, Available, Running, Retryable, Cancelled, Discarded, Completed]"

lemma in_all_statuses [simp]: "s \<in> set all_statuses"
  by (cases s) (simp_all add: all_statuses_def)

lemma distinct_all_statuses [simp]: "distinct all_statuses"
  by (simp add: all_statuses_def)

lemma status_name_inject [simp]: "status_name s = status_name t \<longleftrightarrow> s = t"
  by (cases s; cases t) simp_all

record job_row =
  j_id :: string
  j_queue :: string
  j_kind :: string
  j_status :: status
  j_priority :: int
  j_attempt :: int
  j_max_attempts :: int
  j_progress :: int
  j_payload :: json
  j_metadata :: json
  j_result :: "json option"
  j_errors :: "json list"
  j_created_at :: int
  j_scheduled_at :: int
  j_attempted_at :: "int option"
  j_finalized_at :: "int option"

record job = job_row +
  j_attempted_by :: "string list"
  j_lock_expires_at :: "int option"

record queue_row =
  q_name :: string
  q_paused_at :: "int option"
  q_created_at :: int
  q_updated_at :: int

record worker_row =
  w_id :: string
  w_name :: string
  w_key_hash :: string
  w_key_prefix :: string
  w_created_by :: "string option"
  w_created_at :: int
  w_last_seen_at :: "int option"

record user_row =
  u_id :: string
  u_google_id :: string
  u_email :: string
  u_name :: string
  u_created_at :: int

record api_key_row =
  k_id :: string
  k_user_id :: string
  k_label :: string
  k_key_hash :: string
  k_key_prefix :: string
  k_created_at :: int
  k_last_used_at :: "int option"

record database =
  jobs :: "job list"
  queues :: "queue_row list"
  workers :: "worker_row list"
  users :: "user_row list"
  api_keys :: "api_key_row list"

definition empty_db :: database where
  "empty_db = \<lparr>jobs = [], queues = [], workers = [], users = [], api_keys = []\<rparr>"

abbreviation lookup_job :: "string \<Rightarrow> job list \<Rightarrow> job option" where
  "lookup_job i \<equiv> find_key j_id i"

subsection \<open>The other structs of \<open>driver.go\<close>\<close>

record job_status_row =
  s_id :: string
  s_status :: status
  s_progress :: int
  s_errors :: "json list"

record create_opts =
  o_Queue :: string
  o_Kind :: string
  o_PayloadJSON :: json
  o_Metadata :: "json option"
  o_MaxAttempts :: int
  o_Priority :: int
  o_ScheduledAt :: "int option"
  o_Pending :: bool

record queue_info =
  qi_CountsByStatus :: "string \<rightharpoonup> nat"
  qi_Paused :: bool

record queue_summary =
  qs_Name :: string
  qs_Paused :: bool
  qs_CountsByStatus :: "string \<rightharpoonup> nat"

subsection \<open>Errors and the environment of a call\<close>

text \<open>The error values of the drivers: the two sentinels of \<open>driver_pg.go\<close> and an error of the
  database, with its text.\<close>

datatype go_error = ErrNotFound | ErrWrongState | DBError string

fun error_text :: "go_error \<Rightarrow> string" where
  "error_text ErrNotFound = ''not found''"
| "error_text ErrWrongState = ''wrong state''"
| "error_text (DBError s) = s"

text \<open>
  What a call observes of the outside: the clock of the database when its \<open>i\<close>-th statement
  runs, the \<open>i\<close>-th reading of \<open>time.Now()\<close>, the failure of its \<open>i\<close>-th statement for a reason
  that is not in the model (connection, cancelled context, deadlock, a NUL byte in a text, which
  PostgreSQL refuses), the rows that other
  transactions hold locked (PostgreSQL's \<open>SKIP LOCKED\<close>), the ULID that \<open>ulid.New\<close> returns, the
  text that PostgreSQL writes for the current time in JSON and the next value of \<open>rand\<close>. Times are in nanoseconds.
\<close>

record call_env =
  db_now :: "nat \<Rightarrow> int"
  clock :: "nat \<Rightarrow> int"
  fault :: "nat \<Rightarrow> string option"
  row_locked :: "string \<Rightarrow> bool"
  fresh_ulid :: "string + string"
  now_text :: string
  rand_src :: int

end
