(* ===== verification/Dialect.thy ===== *)
theory Dialect
  imports Go_Strings
begin

text \<open>
  \<open>internal/dialect/dialect.go\<close>: the dialect of a connection URL, and the rewriting of \<open>?\<close>
  placeholders to \<open>$1, $2, ..\<close>. The queries are ASCII constants of \<open>db.go\<close>, so their runes are
  their bytes.
\<close>

datatype dialect = Postgres | SQLite

fun dialect_name :: "dialect \<Rightarrow> string" where
  "dialect_name Postgres = ''postgres''"
| "dialect_name SQLite = ''sqlite''"

definition FromDSN :: "string \<Rightarrow> string + dialect" where
  "FromDSN dsn =
     (if has_prefix dsn ''postgres://'' \<or> has_prefix dsn ''postgresql://'' then Inr Postgres
      else if has_prefix dsn ''sqlite://'' \<or> has_prefix dsn ''sqlite3://'' \<or> has_prefix dsn ''file:''
      then Inr SQLite
      else Inl (''unknown database dialect for DSN: '' @ dsn))"

text \<open>The loop of \<open>Q\<close>, with the counter \<open>n\<close>.\<close>

fun number_placeholders :: "nat \<Rightarrow> string \<Rightarrow> string" where
  "number_placeholders n [] = []"
| "number_placeholders n (r # rs) =
     (if r = CHR ''?'' then CHR ''$'' # show_nat n @ number_placeholders (n + 1) rs
      else r # number_placeholders n rs)"

definition Q :: "dialect \<Rightarrow> string \<Rightarrow> string" where
  "Q d query = (if d \<noteq> Postgres then query else number_placeholders 1 query)"

definition StripSQLitePrefix :: "string \<Rightarrow> string" where
  "StripSQLitePrefix dsn =
     (if has_prefix dsn ''sqlite://'' then trim_prefix dsn ''sqlite://''
      else if has_prefix dsn ''sqlite3://'' then trim_prefix dsn ''sqlite3://''
      else dsn)"

subsection \<open>Placeholders\<close>

text \<open>What the rewriting should be: the pieces between the question marks, with the \<open>i\<close>-th gap
  filled by \<open>$i\<close>.\<close>

fun join_numbered :: "nat \<Rightarrow> string list \<Rightarrow> string" where
  "join_numbered n [] = []"
| "join_numbered n [p] = p"
| "join_numbered n (p # q # ps) = p @ CHR ''$'' # show_nat n @ join_numbered (n + 1) (q # ps)"

lemma join_numbered_Cons:
  "ps \<noteq> [] \<Longrightarrow> join_numbered n (p # ps) = p @ CHR ''$'' # show_nat n @ join_numbered (n + 1) ps"
  by (cases ps) simp_all

lemma join_numbered_prefix: "join_numbered n ((x # p) # ps) = x # join_numbered n (p # ps)"
  by (cases ps) simp_all

lemma number_placeholders_join: "number_placeholders n q = join_numbered n (split_on CHR ''?'' q)"
proof (induction q arbitrary: n)
  case Nil
  show ?case by simp
next
  case (Cons x q)
  obtain p ps where p: "split_on CHR ''?'' q = p # ps" by (cases "split_on CHR ''?'' q") auto
  show ?case
  proof (cases "x = CHR ''?''")
    case True
    with Cons p show ?thesis by (simp add: join_numbered_Cons)
  next
    case False
    with Cons p show ?thesis by (simp add: join_numbered_prefix)
  qed
qed

lemma show_nat_no_mark: "CHR ''?'' \<notin> set (show_nat n)"
proof
  assume "CHR ''?'' \<in> set (show_nat n)"
  then have "(of_char CHR ''?'' :: nat) < 58" using show_nat_digits by blast
  then show False by simp
qed

lemma number_placeholders_no_mark: "CHR ''?'' \<notin> set (number_placeholders n q)"
  by (induction n q rule: number_placeholders.induct) (auto simp: show_nat_no_mark)

text \<open>Reading the rewritten query back: the numbers that follow the dollar signs.\<close>

fun is_digit :: "char \<Rightarrow> bool" where
  "is_digit c = (48 \<le> (of_char c :: nat) \<and> (of_char c :: nat) < 58)"

fun placeholders :: "string \<Rightarrow> nat list" where
  "placeholders [] = []"
| "placeholders (r # rs) =
     (if r = CHR ''$'' then read_nat (takeWhile is_digit rs) # placeholders rs else placeholders rs)"

end
