(* ===== verification/Encoding.thy ===== *)
theory Encoding
  imports Go_Strings
begin

text \<open>
  Bytes as text, as the packages \<open>encoding/base64\<close> and \<open>encoding/hex\<close> write them: the random part of
  keys and of the sign-in state (\<open>RawURLEncoding\<close>), digests and signatures (\<open>hex\<close>). A Go string is
  the list of its bytes.
\<close>

definition b64_alphabet :: string where
  "b64_alphabet = ''ABCDEFGHIJKLMNOPQRSTUVWXYZabcdefghijklmnopqrstuvwxyz0123456789-_''"

text \<open>Three bytes as a number, and its sextet at position \<open>k\<close>; missing bytes count as zero.\<close>

definition byte_group :: "int \<Rightarrow> int \<Rightarrow> int \<Rightarrow> int" where
  "byte_group a b c = a * 65536 + b * 256 + c"

definition sextet :: "int \<Rightarrow> nat \<Rightarrow> char" where
  "sextet v k = b64_alphabet ! nat (v div 64 ^ k mod 64)"

fun base64url :: "string \<Rightarrow> string" where
  "base64url [] = []"
| "base64url [a] = map (sextet (byte_group (of_char a) 0 0)) [3, 2]"
| "base64url [a, b] = map (sextet (byte_group (of_char a) (of_char b) 0)) [3, 2, 1]"
| "base64url (a # b # c # r) =
     map (sextet (byte_group (of_char a) (of_char b) (of_char c))) [3, 2, 1, 0] @ base64url r"

definition hex_char :: "nat \<Rightarrow> char" where
  "hex_char n = ''0123456789abcdef'' ! n"

definition hex_encode :: "string \<Rightarrow> string" where
  "hex_encode s = concat (map (\<lambda>c. [hex_char (of_char c div 16), hex_char (of_char c mod 16)]) s)"

subsection \<open>Length, alphabet and injectivity\<close>

lemma length_base64url: "length (base64url s) = (4 * length s + 2) div 3"
  by (induction s rule: base64url.induct) simp_all

lemma distinct_b64_alphabet: "distinct b64_alphabet" and length_b64_alphabet: "length b64_alphabet = 64"
  by code_simp+

lemma sextet_mem: "sextet v k \<in> set b64_alphabet"
  by (simp add: sextet_def length_b64_alphabet)

lemma set_base64url: "set (base64url s) \<subseteq> set b64_alphabet"
  by (induction s rule: base64url.induct) (simp_all add: sextet_mem)

lemma sextet_eq: "sextet v k = sextet w k \<longleftrightarrow> v div 64 ^ k mod 64 = w div 64 ^ k mod 64"
  by (simp add: sextet_def nth_eq_iff_index_eq [OF distinct_b64_alphabet] length_b64_alphabet eq_nat_nat_iff)

lemma sextet_step:
  assumes "v div 64 ^ Suc k = w div 64 ^ Suc k" and "sextet v k = sextet w k"
  shows "v div 64 ^ k = w div 64 ^ k"
proof -
  have *: "x div 64 ^ Suc k = x div 64 ^ k div 64" for x :: int
    by (simp add: power_Suc2 zdiv_zmult2_eq del: power_Suc)
  have "x = y" if "x div 64 = y div 64" and "x mod 64 = y mod 64" for x y :: int
    by (metis that div_mult_mod_eq)
  with assms show ?thesis unfolding * sextet_eq by blast
qed

lemma sextets_inject:
  assumes "v \<in> {0..<16777216}" and "w \<in> {0..<16777216}"
    and "sextet v 3 = sextet w 3" "sextet v 2 = sextet w 2" "sextet v 1 = sextet w 1" "sextet v 0 = sextet w 0"
  shows "v = w"
proof -
  have n: "Suc 3 = 4" "Suc 2 = 3" "Suc 1 = 2" by simp_all
  have "v div 64 ^ Suc 3 = w div 64 ^ Suc 3" unfolding n using assms(1,2) by simp
  from sextet_step [OF this assms(3)] have "v div 64 ^ Suc 2 = w div 64 ^ Suc 2" unfolding n .
  from sextet_step [OF this assms(4)] have "v div 64 ^ Suc 1 = w div 64 ^ Suc 1" unfolding n .
  from sextet_step [OF this assms(5)] have "v div 64 ^ Suc 0 = w div 64 ^ Suc 0" by simp
  from sextet_step [OF this assms(6)] show ?thesis by simp
qed

lemma int_of_char: "0 \<le> (of_char c :: int)" "of_char c < (256 :: int)"
proof -
  have "(of_char c :: int) = int (of_char c)" by (simp only: of_nat_of_char)
  then show "0 \<le> (of_char c :: int)" "of_char c < (256 :: int)" by simp_all
qed

lemma byte_group_range: "byte_group (of_char a) (of_char b) (of_char c) \<in> {0..<16777216}"
  using int_of_char [of a] int_of_char [of b] int_of_char [of c]
  by (simp add: byte_group_def)

lemma byte_group_parts:
  assumes "b \<in> {0..<256}" and "c \<in> {0..<256}"
  shows "byte_group a b c mod 256 = c" and "byte_group a b c div 256 mod 256 = b"
    and "byte_group a b c div 65536 = a"
proof -
  have g: "byte_group a b c = c + 256 * (a * 256 + b)" by (simp add: byte_group_def)
  show "byte_group a b c mod 256 = c" unfolding g using assms by (simp only: mod_mult_self2) simp
  have d: "byte_group a b c div 256 = a * 256 + b"
    unfolding g using assms by (simp only: div_mult_self2) simp
  then show "byte_group a b c div 256 mod 256 = b" using assms by simp
  have "byte_group a b c div 65536 = byte_group a b c div 256 div 256" by (simp add: zdiv_zmult2_eq [symmetric])
  then show "byte_group a b c div 65536 = a" using d assms by simp
qed

lemma byte_group_eq:
  assumes "b \<in> {0..<256}" "c \<in> {0..<256}" "b' \<in> {0..<256}" "c' \<in> {0..<256}" and "byte_group a b c = byte_group a' b' c'"
  shows "a = a' \<and> b = b' \<and> c = c'"
  using assms byte_group_parts [of b c a] byte_group_parts [of b' c' a'] by metis

lemma sextet_missing: "sextet (byte_group a 0 0) 0 = sextet 0 0" "sextet (byte_group a 0 0) 1 = sextet 0 0"
    "sextet (byte_group a b 0) 0 = sextet 0 0"
proof -
  have "byte_group a 0 0 = 64 * (64 * (16 * a))" by (simp add: byte_group_def)
  then show "sextet (byte_group a 0 0) 0 = sextet 0 0" "sextet (byte_group a 0 0) 1 = sextet 0 0"
    by (simp_all add: sextet_def)
  have "byte_group a b 0 = 64 * (1024 * a + 4 * b)" by (simp add: byte_group_def)
  then show "sextet (byte_group a b 0) 0 = sextet 0 0" by (simp add: sextet_def)
qed

lemma bytes_inject:
  assumes "byte_group (of_char a) (of_char b) (of_char c) = byte_group (of_char a') (of_char b') (of_char c')"
  shows "a = a' \<and> b = b' \<and> c = c'"
  by (rule byte_group_eq [OF _ _ _ _ assms, simplified]) (simp_all add: int_of_char)

text \<open>The same with bytes missing.\<close>

lemma missing_ranges:
  "byte_group (of_char a) 0 0 \<in> {0..<16777216}" "byte_group (of_char a) (of_char b) 0 \<in> {0..<16777216}"
  using byte_group_range [of a "CHR 0x00" "CHR 0x00"] byte_group_range [of a b "CHR 0x00"] by simp_all

lemma missing_inject:
  "byte_group (of_char a) 0 0 = byte_group (of_char a') 0 0 \<Longrightarrow> a = a'"
  "byte_group (of_char a) (of_char b) 0 = byte_group (of_char a') (of_char b') 0 \<Longrightarrow> a = a' \<and> b = b'"
  using bytes_inject [of a "CHR 0x00" "CHR 0x00" a' "CHR 0x00" "CHR 0x00"]
    bytes_inject [of a b "CHR 0x00" a' b' "CHR 0x00"] by simp_all

text \<open>No two byte strings of one length share a text.\<close>

lemma base64url_inject: "length s = length t \<Longrightarrow> base64url s = base64url t \<Longrightarrow> s = t"
proof (induction s arbitrary: t rule: base64url.induct)
  case (2 a)
  then obtain a' where t: "t = [a']" by (cases t) auto
  have "byte_group (of_char a) 0 0 = byte_group (of_char a') 0 0"
    by (rule sextets_inject [OF missing_ranges(1) missing_ranges(1)])
      (use 2(2) t in \<open>simp_all add: sextet_missing [simplified]\<close>)
  with t show ?case using missing_inject(1) by blast
next
  case (3 a b)
  then obtain a' b' where t: "t = [a', b']" by (auto simp: length_Suc_conv Suc_length_conv)
  have "byte_group (of_char a) (of_char b) 0 = byte_group (of_char a') (of_char b') 0"
    by (rule sextets_inject [OF missing_ranges(2) missing_ranges(2)])
      (use 3(2) t in \<open>simp_all add: sextet_missing [simplified]\<close>)
  with t show ?case using missing_inject(2) by blast
next
  case (4 a b c r)
  then obtain a' b' c' r' where t: "t = a' # b' # c' # r'" by (auto simp: length_Suc_conv Suc_length_conv)
  have "byte_group (of_char a) (of_char b) (of_char c) = byte_group (of_char a') (of_char b') (of_char c')"
    by (rule sextets_inject [OF byte_group_range byte_group_range]) (use 4(3) t in simp_all)
  moreover have "r = r'" using 4 t by simp
  ultimately show ?case using t bytes_inject by blast
qed simp

lemma hex_encode_simps [simp]:
  "hex_encode [] = []"
  "hex_encode (c # s) = hex_char (of_char c div 16) # hex_char (of_char c mod 16) # hex_encode s"
  by (simp_all add: hex_encode_def)

lemma length_hex_encode [simp]: "length (hex_encode s) = 2 * length s"
  by (induction s) simp_all

lemma hex_char_mem: "n < 16 \<Longrightarrow> hex_char n \<in> set ''0123456789abcdef''"
  unfolding hex_char_def by (rule nth_mem) simp

lemma set_hex_encode: "set (hex_encode s) \<subseteq> set ''0123456789abcdef''"
proof (induction s)
  case (Cons c s)
  have "(of_char c :: nat) div 16 < 16" by (rule less_mult_imp_div_less) simp
  then have "hex_char (of_char c div 16) \<in> set ''0123456789abcdef''"
    and "hex_char (of_char c mod 16) \<in> set ''0123456789abcdef''"
    by (intro hex_char_mem; simp)+
  with Cons show ?case by (simp only: hex_encode_simps set_simps(2) insert_subset)
qed simp

end
