(* ===== verification/Sha256.thy ===== *)
theory Sha256
  imports Encoding "HOL-Library.Word"
begin

text \<open>
  SHA-256 (\<open>crypto/sha256\<close>) on bytes, with words of 32 bits, and HMAC-SHA256 (\<open>crypto/hmac\<close>): the hash of
  keys and the signature of sessions. A Go string is the list of its bytes.
\<close>

unbundle bit_operations_syntax

type_synonym word32 = "32 word"

definition round_constants :: "word32 list" where
  "round_constants =
     [
     0x428A2F98, 0x71374491, 0xB5C0FBCF, 0xE9B5DBA5, 0x3956C25B, 0x59F111F1, 0x923F82A4, 0xAB1C5ED5,
     0xD807AA98, 0x12835B01, 0x243185BE, 0x550C7DC3, 0x72BE5D74, 0x80DEB1FE, 0x9BDC06A7, 0xC19BF174,
     0xE49B69C1, 0xEFBE4786, 0x0FC19DC6, 0x240CA1CC, 0x2DE92C6F, 0x4A7484AA, 0x5CB0A9DC, 0x76F988DA,
     0x983E5152, 0xA831C66D, 0xB00327C8, 0xBF597FC7, 0xC6E00BF3, 0xD5A79147, 0x06CA6351, 0x14292967,
     0x27B70A85, 0x2E1B2138, 0x4D2C6DFC, 0x53380D13, 0x650A7354, 0x766A0ABB, 0x81C2C92E, 0x92722C85,
     0xA2BFE8A1, 0xA81A664B, 0xC24B8B70, 0xC76C51A3, 0xD192E819, 0xD6990624, 0xF40E3585, 0x106AA070,
     0x19A4C116, 0x1E376C08, 0x2748774C, 0x34B0BCB5, 0x391C0CB3, 0x4ED8AA4A, 0x5B9CCA4F, 0x682E6FF3,
     0x748F82EE, 0x78A5636F, 0x84C87814, 0x8CC70208, 0x90BEFFFA, 0xA4506CEB, 0xBEF9A3F7, 0xC67178F2]"

definition initial_hash :: "word32 list" where
  "initial_hash =
     [
     0x6A09E667, 0xBB67AE85, 0x3C6EF372, 0xA54FF53A, 0x510E527F, 0x9B05688C, 0x1F83D9AB, 0x5BE0CD19]"

definition Ch :: "word32 \<Rightarrow> word32 \<Rightarrow> word32 \<Rightarrow> word32" where
  "Ch x y z = (x AND y) XOR (NOT x AND z)"

definition Maj :: "word32 \<Rightarrow> word32 \<Rightarrow> word32 \<Rightarrow> word32" where
  "Maj x y z = (x AND y) XOR (x AND z) XOR (y AND z)"

definition rotr :: "nat \<Rightarrow> word32 \<Rightarrow> word32" where
  "rotr n x = drop_bit n x OR push_bit (32 - n) x"

definition Sigma0 :: "word32 \<Rightarrow> word32" where
  "Sigma0 x = rotr 2 x XOR rotr 13 x XOR rotr 22 x"

definition Sigma1 :: "word32 \<Rightarrow> word32" where
  "Sigma1 x = rotr 6 x XOR rotr 11 x XOR rotr 25 x"

definition sigma0 :: "word32 \<Rightarrow> word32" where
  "sigma0 x = rotr 7 x XOR rotr 18 x XOR drop_bit 3 x"

definition sigma1 :: "word32 \<Rightarrow> word32" where
  "sigma1 x = rotr 17 x XOR rotr 19 x XOR drop_bit 10 x"

subsection \<open>Bytes and words\<close>

fun words_of_bytes :: "string \<Rightarrow> word32 list" where
  "words_of_bytes (a # b # c # d # s) =
     word_of_int (((of_char a * 256 + of_char b) * 256 + of_char c) * 256 + of_char d) # words_of_bytes s"
| "words_of_bytes _ = []"

text \<open>\<open>n\<close> bytes of a number, the high one first.\<close>

fun bytes_of_int :: "nat \<Rightarrow> int \<Rightarrow> string" where
  "bytes_of_int 0 k = []"
| "bytes_of_int (Suc n) k = bytes_of_int n (k div 256) @ [char_of (k mod 256)]"

definition bytes_of_word :: "word32 \<Rightarrow> string" where
  "bytes_of_word w = bytes_of_int 4 (uint w)"

text \<open>The message with a one bit, zeros, and its length in bits; a whole number of blocks of 64 bytes.\<close>

definition padded :: "string \<Rightarrow> string" where
  "padded s =
     s @ CHR 0x80 # replicate ((119 - length s mod 64) mod 64) CHR 0x00
       @ bytes_of_int 8 (8 * int (length s))"

subsection \<open>One block\<close>

text \<open>The message schedule, from its first words: \<open>n\<close> more, of the last sixteen.\<close>

fun schedule :: "nat \<Rightarrow> word32 list \<Rightarrow> word32 list" where
  "schedule 0 ws = ws"
| "schedule (Suc n) ws =
     (let t = length ws in
      schedule n (ws @ [sigma1 (ws ! (t - 2)) + ws ! (t - 7) + sigma0 (ws ! (t - 15)) + ws ! (t - 16)]))"

text \<open>The eight working variables and one round; \<open>k\<close> and \<open>w\<close> are the round's constant and word.\<close>

type_synonym hash_state = "word32 \<times> word32 \<times> word32 \<times> word32 \<times> word32 \<times> word32 \<times> word32 \<times> word32"

fun sha_round :: "word32 \<times> word32 \<Rightarrow> hash_state \<Rightarrow> hash_state" where
  "sha_round (k, w) (a, b, c, d, e, f, g, h) =
     (let t1 = h + Sigma1 e + Ch e f g + k + w; t2 = Sigma0 a + Maj a b c
      in (t1 + t2, a, b, c, d + t1, e, f, g))"

fun state_of :: "word32 list \<Rightarrow> hash_state" where
  "state_of [a, b, c, d, e, f, g, h] = (a, b, c, d, e, f, g, h)"
| "state_of _ = (0, 0, 0, 0, 0, 0, 0, 0)"

definition compress :: "word32 list \<Rightarrow> word32 list \<Rightarrow> word32 list" where
  "compress hs block =
     (case fold sha_round (zip round_constants (schedule 48 block)) (state_of hs) of
        (a, b, c, d, e, f, g, h) \<Rightarrow> map2 (+) hs [a, b, c, d, e, f, g, h])"

subsection \<open>The digest and the HMAC\<close>

function compress_all :: "word32 list \<Rightarrow> word32 list \<Rightarrow> word32 list" where
  "compress_all hs ws =
     (if length ws < 16 then hs else compress_all (compress hs (take 16 ws)) (drop 16 ws))"
  by pat_completeness auto
termination
  by (relation "measure (\<lambda>(hs, ws). length ws)") auto

declare compress_all.simps [simp del]

definition sha256 :: "string \<Rightarrow> string" where
  "sha256 s = concat (map bytes_of_word (compress_all initial_hash (words_of_bytes (padded s))))"

definition xor_bytes :: "int \<Rightarrow> string \<Rightarrow> string" where
  "xor_bytes k s = map (\<lambda>c. char_of (of_char c XOR k)) s"

text \<open>A key longer than a block is hashed first, a shorter one filled up with zeros.\<close>

definition hmac_key :: "string \<Rightarrow> string" where
  "hmac_key key =
     (let k = (if 64 < length key then sha256 key else key) in k @ replicate (64 - length k) CHR 0x00)"

definition hmac_sha256 :: "string \<Rightarrow> string \<Rightarrow> string" where
  "hmac_sha256 key msg =
     sha256 (xor_bytes 0x5C (hmac_key key) @ sha256 (xor_bytes 0x36 (hmac_key key) @ msg))"

subsection \<open>Lengths\<close>

lemma length_bytes_of_int [simp]: "length (bytes_of_int n k) = n"
  by (induction n arbitrary: k) simp_all

lemma length_compress_all: "length hs = 8 \<Longrightarrow> length (compress_all hs ws) = 8"
proof (induction hs ws rule: compress_all.induct)
  case (1 hs ws)
  have "length (compress hs b) = 8" for b
    using 1(2) by (simp add: compress_def split: prod.split)
  with 1 show ?case by (subst compress_all.simps) simp
qed

lemma length_sha256: "length (sha256 s) = 32"
proof -
  have eight: "length (compress_all initial_hash ws) = 8" for ws
    by (rule length_compress_all) (simp add: initial_hash_def)
  have "length (concat (map bytes_of_word ws)) = 4 * length ws" for ws
    by (induction ws) (simp_all add: bytes_of_word_def)
  with eight show ?thesis by (simp add: sha256_def)
qed

lemma length_padded: "length (padded s) mod 64 = 0"
proof -
  define r where "r = length s mod 64"
  have "length (padded s) = length s + 1 + (119 - r) mod 64 + 8"
    by (simp add: padded_def r_def)
  moreover have "(length s + 1 + (119 - r) mod 64 + 8) mod 64 = (r + 1 + (119 - r) mod 64 + 8) mod 64"
    unfolding r_def by (intro mod_add_cong refl) simp
  moreover have "(r + 1 + (119 - r) mod 64 + 8) mod 64 = 0" if "r < 64" for r :: nat
  proof (cases "r \<le> 55")
    case True
    then have "119 - r = 55 - r + 64" by simp
    then have "(119 - r) mod 64 = (55 - r) mod 64" by (simp only: mod_add_self2)
    with True show ?thesis by simp
  next
    case False
    with that have "(119 - r) mod 64 = 119 - r" and "r + 1 + (119 - r) + 8 = 128" by simp_all
    then show ?thesis by simp
  qed
  moreover have "r < 64" by (simp add: r_def)
  ultimately show ?thesis by metis
qed

end
