(* ===== verification/Accounts.thy ===== *)
theory Accounts
  imports Job_Table Dialect Sha256
begin

text \<open>
  \<open>internal/db/db.go\<close>: users, client API keys and worker keys. \<open>sha\<close> stands for \<open>sha256Hex\<close>, \<open>rnd\<close>
  for the 32 random bytes drawn (\<open>None\<close> when the random source fails). A statement sees the
  constraints of the schema: primary keys, \<open>UNIQUE\<close> columns, foreign keys.
\<close>

type_synonym 'a acct_op = "call_env \<Rightarrow> database \<Rightarrow> (database, string, 'a) call_result"

definition db_stamp :: "dialect \<Rightarrow> call_env \<Rightarrow> int" where
  "db_stamp d c = (if d = SQLite then db_now c 0 div 1000000000 else db_now c 0)"

text \<open>A time of the database as a Go time, in nanoseconds.\<close>

definition db_time :: "dialect \<Rightarrow> int \<Rightarrow> int" where
  "db_time d t = (if d = SQLite then t * 1000000000 else t)"

definition sha256Hex :: "string \<Rightarrow> string" where
  "sha256Hex s = hex_encode (sha256 s)"

definition constraint_error :: string where
  "constraint_error = ''constraint failed''"

definition no_rows :: string where
  "no_rows = ''sql: no rows in result set''"

definition newID :: "call_env \<Rightarrow> string + string" where
  "newID c = (case fresh_ulid c of Inl e \<Rightarrow> Inl e | Inr u \<Rightarrow> Inr (to_lower u))"

subsection \<open>Users\<close>

definition UpsertUser :: "dialect \<Rightarrow> string \<Rightarrow> string \<Rightarrow> string \<Rightarrow> user_row acct_op" where
  "UpsertUser d googleID email name c s =
     (case newID c of Inl e \<Rightarrow> (Inl e, s)
      | Inr i \<Rightarrow>
        (case fault c 0 of Some e \<Rightarrow> (Inl e, s)
         | None \<Rightarrow>
           (case find_key u_google_id googleID (users s) of
              Some u \<Rightarrow>
                (Inr (u\<lparr>u_email := email, u_name := name\<rparr>),
                 s\<lparr>users := update_where (\<lambda>x. u_google_id x = googleID)
                     (\<lambda>x. x\<lparr>u_email := email, u_name := name\<rparr>) (users s)\<rparr>)
            | None \<Rightarrow>
                if i \<in> u_id ` set (users s) then (Inl constraint_error, s)
                else (let u = \<lparr>u_id = i, u_google_id = googleID, u_email = email, u_name = name,
                               u_created_at = db_stamp d c\<rparr>
                      in (Inr u, s\<lparr>users := users s @ [u]\<rparr>)))))"

definition GetUserByID :: "string \<Rightarrow> user_row acct_op" where
  "GetUserByID i c s =
     ((case fault c 0 of Some e \<Rightarrow> Inl e
       | None \<Rightarrow> (case find_key u_id i (users s) of None \<Rightarrow> Inl no_rows | Some u \<Rightarrow> Inr u)), s)"

subsection \<open>Client keys\<close>

definition CreateAPIKey ::
  "dialect \<Rightarrow> (string \<Rightarrow> string) \<Rightarrow> string option \<Rightarrow> string \<Rightarrow> string \<Rightarrow> (string \<times> api_key_row) acct_op" where
  "CreateAPIKey d sha rnd userID label c s =
     (case rnd of None \<Rightarrow> (Inl ''rand'', s)
      | Some b \<Rightarrow>
        (let plaintext = ''stv_'' @ base64url b; hash = sha plaintext; pre = take 12 plaintext in
         case newID c of Inl e \<Rightarrow> (Inl e, s)
         | Inr i \<Rightarrow>
           (case fault c 0 of Some e \<Rightarrow> (Inl e, s)
            | None \<Rightarrow>
              if i \<in> k_id ` set (api_keys s) \<or> hash \<in> k_key_hash ` set (api_keys s)
                 \<or> userID \<notin> u_id ` set (users s)
              then (Inl constraint_error, s)
              else (let k = \<lparr>k_id = i, k_user_id = userID, k_label = label, k_key_hash = hash,
                             k_key_prefix = pre, k_created_at = db_stamp d c, k_last_used_at = None\<rparr>
                    in (Inr (plaintext, k), s\<lparr>api_keys := api_keys s @ [k]\<rparr>)))))"

definition ListAPIKeys :: "string \<Rightarrow> (api_key_row list) acct_op" where
  "ListAPIKeys userID c s =
     ((case fault c 0 of Some e \<Rightarrow> Inl e
       | None \<Rightarrow> Inr (rev (sort_key k_created_at (filter (\<lambda>k. k_user_id k = userID) (api_keys s))))), s)"

definition DeleteAPIKey :: "string \<Rightarrow> string \<Rightarrow> unit acct_op" where
  "DeleteAPIKey userID keyID c s =
     (case fault c 0 of Some e \<Rightarrow> (Inl e, s)
      | None \<Rightarrow>
        (let P = (\<lambda>k. k_id k = keyID \<and> k_user_id k = userID) in
         if rows_affected P (api_keys s) = 0 then (Inl ''key not found'', s)
         else (Inr (), s\<lparr>api_keys := filter (\<lambda>k. \<not> P k) (api_keys s)\<rparr>)))"

text \<open>\<open>LookupAPIKey\<close> returns the id and the owner, and stamps the key as used.\<close>

definition LookupAPIKey :: "dialect \<Rightarrow> (string \<Rightarrow> string) \<Rightarrow> string \<Rightarrow> (string \<times> string) acct_op" where
  "LookupAPIKey d sha plaintext c s =
     (case fault c 0 of Some e \<Rightarrow> (Inl e, s)
      | None \<Rightarrow>
        (case find_key k_key_hash (sha plaintext) (api_keys s) of
           None \<Rightarrow> (Inl ''invalid key'', s)
         | Some k \<Rightarrow> (Inr (k_id k, k_user_id k),
             s\<lparr>api_keys := update_where (\<lambda>x. k_key_hash x = sha plaintext)
                 (\<lambda>x. x\<lparr>k_last_used_at := Some (db_stamp d c)\<rparr>) (api_keys s)\<rparr>)))"

subsection \<open>Workers\<close>

definition CreateWorkerKey ::
  "dialect \<Rightarrow> (string \<Rightarrow> string) \<Rightarrow> string option \<Rightarrow> string \<Rightarrow> string \<Rightarrow> (string \<times> string) acct_op" where
  "CreateWorkerKey d sha rnd userID name c s =
     (case rnd of None \<Rightarrow> (Inl ''rand'', s)
      | Some b \<Rightarrow>
        (let plaintext = ''stw_'' @ base64url b; hash = sha plaintext; pre = take 12 plaintext in
         case newID c of Inl e \<Rightarrow> (Inl e, s)
         | Inr i \<Rightarrow>
           (case fault c 0 of Some e \<Rightarrow> (Inl e, s)
            | None \<Rightarrow>
              if i \<in> w_id ` set (workers s) \<or> name \<in> w_name ` set (workers s)
                 \<or> hash \<in> w_key_hash ` set (workers s) \<or> userID \<notin> u_id ` set (users s)
              then (Inl constraint_error, s)
              else (Inr (i, plaintext),
                    s\<lparr>workers := workers s @ [\<lparr>w_id = i, w_name = name, w_key_hash = hash,
                       w_key_prefix = pre, w_created_by = Some userID, w_created_at = db_stamp d c,
                       w_last_seen_at = None\<rparr>]\<rparr>))))"

definition LookupWorkerKey :: "(string \<Rightarrow> string) \<Rightarrow> string \<Rightarrow> string acct_op" where
  "LookupWorkerKey sha plaintext c s =
     ((case fault c 0 of Some e \<Rightarrow> Inl e
       | None \<Rightarrow>
        (case find_key w_key_hash (sha plaintext) (workers s) of
           None \<Rightarrow> Inl ''invalid key'' | Some w \<Rightarrow> Inr (w_id w))), s)"

record worker_summary =
  ws_ID :: string
  ws_Name :: string
  ws_CreatedBy :: string
  ws_CreatedAt :: int
  ws_LastSeenAt :: "int option"

text \<open>One row of the join. A worker without a user joins NULL, which does not scan into the
  string \<open>CreatedBy\<close>.\<close>

definition scan_worker :: "user_row list \<Rightarrow> worker_row \<Rightarrow> string + worker_summary" where
  "scan_worker us w =
     (case (case w_created_by w of None \<Rightarrow> None | Some u \<Rightarrow> find_key u_id u us) of
        None \<Rightarrow> Inl ''converting NULL to string is unsupported''
      | Some u \<Rightarrow> Inr \<lparr>ws_ID = w_id w, ws_Name = w_name w, ws_CreatedBy = u_email u,
                       ws_CreatedAt = w_created_at w, ws_LastSeenAt = w_last_seen_at w\<rparr>)"

fun scan_workers :: "user_row list \<Rightarrow> worker_row list \<Rightarrow> string + worker_summary list" where
  "scan_workers us [] = Inr []"
| "scan_workers us (w # ws) =
     (case scan_worker us w of Inl e \<Rightarrow> Inl e
      | Inr x \<Rightarrow> (case scan_workers us ws of Inl e \<Rightarrow> Inl e | Inr xs \<Rightarrow> Inr (x # xs)))"

definition ListWorkers :: "(worker_summary list) acct_op" where
  "ListWorkers c s =
     ((case fault c 0 of Some e \<Rightarrow> Inl e
       | None \<Rightarrow> scan_workers (users s) (rev (sort_key w_created_at (workers s)))), s)"

definition DeleteWorker :: "string \<Rightarrow> string \<Rightarrow> unit acct_op" where
  "DeleteWorker userID workerID c s =
     (case fault c 0 of Some e \<Rightarrow> (Inl e, s)
      | None \<Rightarrow>
        (let P = (\<lambda>w. w_id w = workerID \<and> w_created_by w = Some userID) in
         if rows_affected P (workers s) = 0 then (Inl ''worker not found'', s)
         else (Inr (), s\<lparr>workers := filter (\<lambda>w. \<not> P w) (workers s)\<rparr>)))"

subsection \<open>Well-formed account tables\<close>

definition accounts_ok :: "(string \<Rightarrow> string) \<Rightarrow> database \<Rightarrow> bool" where
  "accounts_ok sha s \<longleftrightarrow>
     distinct (map u_id (users s)) \<and> distinct (map u_google_id (users s))
     \<and> distinct (map k_id (api_keys s)) \<and> distinct (map k_key_hash (api_keys s))
     \<and> distinct (map w_id (workers s)) \<and> distinct (map w_name (workers s))
     \<and> distinct (map w_key_hash (workers s))
     \<and> (\<forall>k \<in> set (api_keys s). k_user_id k \<in> u_id ` set (users s))
     \<and> (\<forall>w \<in> set (workers s). \<exists>u. w_created_by w = Some u \<and> u \<in> u_id ` set (users s))"

end
