(* ===== verification/Job_Spec.thy ===== *)
theory Job_Spec
  imports Job_Table
begin

text \<open>
  The contract of the jobs table, independent of the dialect: the life cycle of one row
  (\<open>job_trans\<close>, one rule per way the code changes a row, with the event that names it), what a
  well-formed row is (\<open>job_ok\<close>), how one statement changes the table (\<open>table_step\<close>: any number
  of rows take a transition, or one fresh row is inserted) and the tables that can be reached.
  The drivers are proved to refine \<open>table_step\<close>; everything proved here then holds for them.
\<close>

definition terminal :: "status \<Rightarrow> bool" where
  "terminal s \<longleftrightarrow> s = Completed \<or> s = Discarded \<or> s = Cancelled"

definition waiting :: "status \<Rightarrow> bool" where
  "waiting s \<longleftrightarrow> s = Pending \<or> s = Scheduled \<or> s = Available \<or> s = Retryable"

lemma status_partition: "waiting s \<or> s = Running \<or> terminal s"
  by (cases s) (simp_all add: waiting_def terminal_def)

datatype event = Claim | Complete | Fail | Expire | Heartbeat | Cancel | Release | Promote

inductive job_trans :: "event \<Rightarrow> job \<Rightarrow> job \<Rightarrow> bool" where
  claim: "j_status r = Available \<Longrightarrow>
     job_trans Claim r (r\<lparr>j_status := Running, j_attempt := j_attempt r + 1,
       j_attempted_at := Some t, j_attempted_by := j_attempted_by r @ [w], j_lock_expires_at := l\<rparr>)"
| complete: "j_status r = Running \<Longrightarrow>
     job_trans Complete r (r\<lparr>j_status := Completed, j_finalized_at := Some t, j_result := Some v\<rparr>)"
| fail_retry: "j_status r = Running \<Longrightarrow> j_attempt r < j_max_attempts r \<Longrightarrow>
     job_trans Fail r (r\<lparr>j_status := Retryable, j_scheduled_at := t, j_errors := j_errors r @ [e],
       j_finalized_at := None\<rparr>)"
| fail_discard: "j_status r = Running \<Longrightarrow> j_max_attempts r \<le> j_attempt r \<Longrightarrow>
     job_trans Fail r (r\<lparr>j_status := Discarded, j_errors := j_errors r @ [e],
       j_finalized_at := Some t\<rparr>)"
| expire_retry: "j_status r = Running \<Longrightarrow> j_attempt r < j_max_attempts r \<Longrightarrow>
     job_trans Expire r (r\<lparr>j_status := Retryable, j_scheduled_at := t, j_errors := j_errors r @ [e],
       j_finalized_at := None, j_lock_expires_at := None\<rparr>)"
| expire_discard: "j_status r = Running \<Longrightarrow> j_max_attempts r \<le> j_attempt r \<Longrightarrow>
     job_trans Expire r (r\<lparr>j_status := Discarded, j_errors := j_errors r @ [e],
       j_finalized_at := Some t, j_lock_expires_at := None\<rparr>)"
| heartbeat: "j_status r = Running \<Longrightarrow> job_trans Heartbeat r (r\<lparr>j_lock_expires_at := l\<rparr>)"
| heartbeat_progress: "j_status r = Running \<Longrightarrow> 0 \<le> p \<Longrightarrow> p \<le> 100 \<Longrightarrow>
     job_trans Heartbeat r (r\<lparr>j_lock_expires_at := l, j_progress := p\<rparr>)"
| cancel: "\<not> terminal (j_status r) \<Longrightarrow>
     job_trans Cancel r (r\<lparr>j_status := Cancelled,
       j_finalized_at := (case j_finalized_at r of None \<Rightarrow> Some t | Some u \<Rightarrow> Some u)\<rparr>)"
| release: "j_status r = Pending \<Longrightarrow> st = Scheduled \<or> st = Available \<Longrightarrow>
     job_trans Release r (r\<lparr>j_status := st\<rparr>)"
| promote: "j_status r = Scheduled \<or> j_status r = Retryable \<Longrightarrow>
     job_trans Promote r (r\<lparr>j_status := Available\<rparr>)"

inductive_simps job_trans_Claim: "job_trans Claim r r'"
inductive_simps job_trans_Complete: "job_trans Complete r r'"
inductive_simps job_trans_Cancel: "job_trans Cancel r r'"
inductive_cases job_transE: "job_trans e r r'"

text \<open>The life cycle seen on the status alone: the arrows of the diagram in README.md, and
  those it leaves out.\<close>

fun next_statuses :: "status \<Rightarrow> status list" where
  "next_statuses Pending = [Scheduled, Available, Cancelled]"
| "next_statuses Scheduled = [Available, Cancelled]"
| "next_statuses Available = [Running, Cancelled]"
| "next_statuses Running = [Running, Completed, Retryable, Discarded, Cancelled]"
| "next_statuses Retryable = [Available, Cancelled]"
| "next_statuses Cancelled = []"
| "next_statuses Discarded = []"
| "next_statuses Completed = []"

lemma job_trans_status: "job_trans e r r' \<Longrightarrow> j_status r' \<in> set (next_statuses (j_status r))"
  by (cases "j_status r"; erule job_transE) (auto simp: terminal_def)

lemma next_statuses_terminal: "terminal s \<longleftrightarrow> next_statuses s = []"
  by (cases s) (simp_all add: terminal_def)

lemma job_trans_not_terminal: "job_trans e r r' \<Longrightarrow> \<not> terminal (j_status r)"
  using job_trans_status next_statuses_terminal by fastforce

text \<open>What no transition touches.\<close>

definition same_job :: "job \<Rightarrow> job \<Rightarrow> bool" where
  "same_job r r' \<longleftrightarrow> j_id r' = j_id r \<and> j_queue r' = j_queue r \<and> j_kind r' = j_kind r
     \<and> j_priority r' = j_priority r \<and> j_max_attempts r' = j_max_attempts r
     \<and> j_payload r' = j_payload r \<and> j_metadata r' = j_metadata r \<and> j_created_at r' = j_created_at r
     \<and> j_attempt r \<le> j_attempt r' \<and> (\<exists>es. j_errors r' = j_errors r @ es)
     \<and> (\<exists>ws. j_attempted_by r' = j_attempted_by r @ ws)"

lemma same_job_refl [simp]: "same_job r r"
  by (simp add: same_job_def)

lemma same_job_trans: "same_job a b \<Longrightarrow> same_job b c \<Longrightarrow> same_job a c"
  by (auto simp: same_job_def)

lemma job_trans_same_job: "job_trans e r r' \<Longrightarrow> same_job r r'"
  by (erule job_transE) (simp_all add: same_job_def)

subsection \<open>Well-formed rows\<close>

text \<open>
  A row is finalized exactly when its status is terminal; it was claimed \<open>attempt\<close> times, and
  every attempt but a running, completed or cancelled one has left one entry in the error log;
  a job that can still be claimed has an attempt left.
\<close>

definition job_ok :: "job \<Rightarrow> bool" where
  "job_ok r \<longleftrightarrow>
     1 \<le> j_max_attempts r \<and> 0 \<le> j_attempt r \<and> j_attempt r \<le> j_max_attempts r
     \<and> 0 \<le> j_progress r \<and> j_progress r \<le> 100
     \<and> int (length (j_attempted_by r)) = j_attempt r
     \<and> (terminal (j_status r) \<longleftrightarrow> j_finalized_at r \<noteq> None)
     \<and> (waiting (j_status r) \<longrightarrow> j_attempt r < j_max_attempts r)
     \<and> (waiting (j_status r) \<or> j_status r = Discarded \<longrightarrow> int (length (j_errors r)) = j_attempt r)
     \<and> (j_status r = Running \<or> j_status r = Completed \<longrightarrow>
          int (length (j_errors r)) + 1 = j_attempt r)
     \<and> (j_status r = Cancelled \<longrightarrow> int (length (j_errors r)) \<le> j_attempt r
          \<and> j_attempt r \<le> int (length (j_errors r)) + 1)
     \<and> (j_attempted_at r = None \<longleftrightarrow> j_attempt r = 0)
     \<and> (j_status r = Completed \<longleftrightarrow> j_result r \<noteq> None)
     \<and> (j_status r = Discarded \<longrightarrow> j_attempt r = j_max_attempts r)"

definition fresh_job :: "job \<Rightarrow> bool" where
  "fresh_job r \<longleftrightarrow>
     (j_status r = Pending \<or> j_status r = Scheduled \<or> j_status r = Available)
     \<and> j_attempt r = 0 \<and> 1 \<le> j_max_attempts r \<and> j_progress r = 0 \<and> j_errors r = []
     \<and> j_attempted_by r = [] \<and> j_result r = None \<and> j_attempted_at r = None
     \<and> j_finalized_at r = None \<and> j_lock_expires_at r = None"

lemma fresh_job_ok: "fresh_job r \<Longrightarrow> job_ok r"
  by (auto simp: fresh_job_def job_ok_def terminal_def waiting_def)

lemma job_trans_ok: "job_trans e r r' \<Longrightarrow> job_ok r \<Longrightarrow> job_ok r'"
proof (induction rule: job_trans.induct)
  case (cancel r t)
  then show ?case
    by (cases "j_status r") (simp_all add: job_ok_def terminal_def waiting_def split: option.splits)
next
  case (promote r)
  then show ?case
    by (cases "j_status r") (simp_all add: job_ok_def terminal_def waiting_def)
next
  case (release r st)
  then show ?case by (cases st) (simp_all add: job_ok_def terminal_def waiting_def)
qed (simp_all add: job_ok_def terminal_def waiting_def)

subsection \<open>Tables\<close>

definition row_step :: "job \<Rightarrow> job \<Rightarrow> bool" where
  "row_step r r' \<longleftrightarrow> r' = r \<or> (\<exists>e. job_trans e r r')"

inductive table_step :: "job list \<Rightarrow> job list \<Rightarrow> bool" where
  update_rows: "list_all2 row_step xs ys \<Longrightarrow> table_step xs ys"
| insert_row: "fresh_job r \<Longrightarrow> j_id r \<notin> j_id ` set xs \<Longrightarrow> table_step xs (xs @ [r])"

definition table_ok :: "job list \<Rightarrow> bool" where
  "table_ok xs \<longleftrightarrow> distinct (map j_id xs) \<and> (\<forall>r \<in> set xs. job_ok r)"

lemma row_step_refl [simp]: "row_step r r"
  by (simp add: row_step_def)

lemma row_step_same_job: "row_step r r' \<Longrightarrow> same_job r r'"
  by (auto simp: row_step_def dest: job_trans_same_job)

lemma row_step_ok: "row_step r r' \<Longrightarrow> job_ok r \<Longrightarrow> job_ok r'"
  by (auto simp: row_step_def dest: job_trans_ok)

lemma row_step_terminal: "row_step r r' \<Longrightarrow> terminal (j_status r) \<Longrightarrow> r' = r"
  by (auto simp: row_step_def dest: job_trans_not_terminal)

lemma table_step_refl [simp]: "table_step xs xs"
  by (rule update_rows) (simp add: list_all2_refl)

lemma list_all2_row_step_ids: "list_all2 row_step xs ys \<Longrightarrow> map j_id ys = map j_id xs"
  by (induction rule: list_all2_induct) (auto dest!: row_step_same_job simp: same_job_def)

lemma list_all2_row_step_ok:
  "list_all2 row_step xs ys \<Longrightarrow> \<forall>r \<in> set xs. job_ok r \<Longrightarrow> \<forall>r \<in> set ys. job_ok r"
  by (induction rule: list_all2_induct) (auto dest: row_step_ok)

lemma table_step_ok: "table_step xs ys \<Longrightarrow> table_ok xs \<Longrightarrow> table_ok ys"
proof (induction rule: table_step.induct)
  case (update_rows xs ys)
  then show ?case
    using list_all2_row_step_ids list_all2_row_step_ok by (auto simp: table_ok_def)
next
  case (insert_row r xs)
  then show ?case by (auto simp: table_ok_def fresh_job_ok)
qed

definition ids_ok :: "job list \<Rightarrow> bool" where
  "ids_ok xs \<longleftrightarrow> distinct (map j_id xs)"

lemma table_ok_ids: "table_ok xs \<Longrightarrow> ids_ok xs"
  by (simp add: table_ok_def ids_ok_def)

lemma table_step_ids: "table_step xs ys \<Longrightarrow> ids_ok xs \<Longrightarrow> ids_ok ys"
proof (induction rule: table_step.induct)
  case (update_rows xs ys)
  then show ?case using list_all2_row_step_ids [OF update_rows.hyps] by (simp add: ids_ok_def)
next
  case (insert_row r xs)
  then show ?case by (simp add: ids_ok_def)
qed

text \<open>With distinct ids, a row is determined by its id.\<close>

lemma ids_ok_unique: "ids_ok xs \<Longrightarrow> r \<in> set xs \<Longrightarrow> q \<in> set xs \<Longrightarrow> j_id r = j_id q \<Longrightarrow> r = q"
  unfolding ids_ok_def distinct_map by (blast dest: inj_onD)

lemma ids_ok_lookup: "ids_ok xs \<Longrightarrow> r \<in> set xs \<Longrightarrow> lookup_job (j_id r) xs = Some r"
  by (simp add: ids_ok_def find_key_unique)

lemma ids_ok_selected:
  assumes "ids_ok xs" and "r \<in> set xs" and "j_id r \<in> j_id ` set (select_limit P k n xs)"
  shows "r \<in> set (select_limit P k n xs)" and "P r"
proof -
  from assms(3) obtain q where q: "q \<in> set (select_limit P k n xs)" "j_id q = j_id r" by auto
  from select_limitD [OF q(1)] have "q \<in> set xs" and "P q" .
  with q assms have "q = r" by (intro ids_ok_unique [of xs])
  with q \<open>P q\<close> show "r \<in> set (select_limit P k n xs)" and "P r" by simp_all
qed

lemma table_ok_Nil [simp]: "table_ok []"
  by (simp add: table_ok_def)

text \<open>A row that is in the table stays in the table: no statement deletes a job.\<close>

lemma table_step_row:
  assumes "table_step xs ys" and "r \<in> set xs"
  shows "\<exists>r' \<in> set ys. row_step r r'"
  using assms
proof (induction rule: table_step.induct)
  case (update_rows xs ys)
  then obtain i where i: "i < length xs" "xs ! i = r" by (auto simp: in_set_conv_nth)
  with update_rows have "row_step r (ys ! i)" and "i < length ys"
    by (auto simp: list_all2_conv_all_nth)
  then show ?case by (metis nth_mem)
next
  case (insert_row q xs)
  then show ?case by (intro bexI [of _ r]) simp_all
qed

inductive table_reach :: "job list \<Rightarrow> job list \<Rightarrow> bool" where
  reach_refl: "table_reach xs xs"
| reach_step: "table_reach xs ys \<Longrightarrow> table_step ys zs \<Longrightarrow> table_reach xs zs"

lemma table_reach_ok: "table_reach xs ys \<Longrightarrow> table_ok xs \<Longrightarrow> table_ok ys"
  by (induction rule: table_reach.induct) (auto dest: table_step_ok)

lemma table_reach_ids: "table_reach xs ys \<Longrightarrow> ids_ok xs \<Longrightarrow> ids_ok ys"
  by (induction rule: table_reach.induct) (auto dest: table_step_ids)

lemma table_reach_trans: "table_reach ys zs \<Longrightarrow> table_reach xs ys \<Longrightarrow> table_reach xs zs"
  by (induction rule: table_reach.induct) (auto intro: reach_step)

lemma table_step_reach: "table_step xs ys \<Longrightarrow> table_reach xs ys"
  by (rule reach_step [OF reach_refl])

lemma table_reach_same_job:
  "table_reach xs ys \<Longrightarrow> r \<in> set xs \<Longrightarrow> \<exists>r' \<in> set ys. same_job r r'"
proof (induction rule: table_reach.induct)
  case (reach_refl xs)
  then show ?case by force
next
  case (reach_step xs ys zs)
  then obtain r' where r': "r' \<in> set ys" "same_job r r'" by blast
  then obtain r'' where "r'' \<in> set zs" "row_step r' r''"
    using table_step_row [OF reach_step.hyps(2)] by blast
  with r' show ?case by (blast intro: same_job_trans row_step_same_job)
qed

lemma table_reach_terminal:
  "table_reach xs ys \<Longrightarrow> r \<in> set xs \<Longrightarrow> terminal (j_status r) \<Longrightarrow> r \<in> set ys"
proof (induction rule: table_reach.induct)
  case (reach_refl xs)
  then show ?case by simp
next
  case (reach_step xs ys zs)
  then have "r \<in> set ys" by simp
  then obtain r' where "r' \<in> set zs" "row_step r r'"
    using table_step_row [OF reach_step.hyps(2)] by blast
  with reach_step.prems(2) show ?case using row_step_terminal by blast
qed

text \<open>A step with its label: no row is inserted, and every row that changes satisfies \<open>P\<close> and takes
  a transition of one of the events \<open>E\<close>.\<close>

definition rows_step :: "event set \<Rightarrow> (job \<Rightarrow> bool) \<Rightarrow> job list \<Rightarrow> job list \<Rightarrow> bool" where
  "rows_step E P xs ys \<longleftrightarrow> list_all2 (\<lambda>r r'. r' = r \<or> (P r \<and> (\<exists>e \<in> E. job_trans e r r'))) xs ys"

lemma rows_step_refl [simp]: "rows_step E P xs xs"
  by (simp add: rows_step_def list_all2_refl)

lemma rows_step_table: "rows_step E P xs ys \<Longrightarrow> table_step xs ys"
  unfolding rows_step_def
  by (rule update_rows, erule list_all2_mono) (auto simp: row_step_def)

lemma rows_step_mono: "rows_step E P xs ys \<Longrightarrow> E \<subseteq> E' \<Longrightarrow> (\<And>r. P r \<Longrightarrow> P' r) \<Longrightarrow> rows_step E' P' xs ys"
  unfolding rows_step_def by (erule list_all2_mono) blast

text \<open>What creating a job may do: nothing, or append one fresh row under a new id.\<close>

definition appends_fresh :: "job list \<Rightarrow> job list \<Rightarrow> bool" where
  "appends_fresh xs ys \<longleftrightarrow> ys = xs \<or> (\<exists>r. fresh_job r \<and> j_id r \<notin> j_id ` set xs \<and> ys = xs @ [r])"

lemma appends_fresh_table: "appends_fresh xs ys \<Longrightarrow> table_step xs ys"
  by (auto simp: appends_fresh_def intro: insert_row)

text \<open>An update of some rows is a step when each of them takes a transition.\<close>

lemma rows_step_update:
  assumes "\<And>r. r \<in> set xs \<Longrightarrow> Q r \<Longrightarrow> P r \<and> (\<exists>e \<in> E. job_trans e r (f r))"
  shows "rows_step E P xs (update_where Q f xs)"
  unfolding rows_step_def by (rule list_all2_update_where) (auto dest: assms)

end
