(* ===== verification/Driver_Iface.thy ===== *)
theory Driver_Iface
  imports Job_Spec
begin

text \<open>
  The Go interface \<open>Driver\<close> of \<open>internal/service/driver.go\<close>: a value of the interface is a
  record of its methods, over a state type of its own. The contract the services rely on is
  stated as two locales: \<open>job_driver\<close> (whatever the environment does, every method changes the
  jobs table by at most one \<open>table_step\<close>, and the readers change nothing) and
  \<open>job_driver_results\<close> (what the methods answer when the statements run). Both drivers are
  instances.
\<close>

type_synonym ('s, 'a) op = "call_env \<Rightarrow> 's \<Rightarrow> ('s, go_error, 'a) call_result"

record 's driver =
  d_CreateJob :: "create_opts \<Rightarrow> ('s, job_row) op"
  d_ClaimJob :: "string \<Rightarrow> string \<Rightarrow> ('s, job_row option) op"
  d_CompleteJob :: "string \<Rightarrow> json \<Rightarrow> ('s, unit) op"
  d_FailJob :: "string \<Rightarrow> string \<Rightarrow> int \<Rightarrow> ('s, unit) op"
  d_HeartbeatJob :: "string \<Rightarrow> int option \<Rightarrow> ('s, unit) op"
  d_CancelJob :: "string \<Rightarrow> ('s, unit) op"
  d_PromoteJob :: "string \<Rightarrow> ('s, unit) op"
  d_GetJob :: "string \<Rightarrow> ('s, job_row) op"
  d_GetJobStatus :: "string \<Rightarrow> ('s, job_status_row) op"
  d_QueueInfo :: "string \<Rightarrow> ('s, queue_info) op"
  d_ListQueues :: "('s, queue_summary list) op"
  d_PauseQueue :: "string \<Rightarrow> ('s, unit) op"
  d_ResumeQueue :: "string \<Rightarrow> ('s, unit) op"
  d_ListJobs :: "string \<Rightarrow> string \<Rightarrow> int \<Rightarrow> string \<Rightarrow> ('s, job_row list) op"
  d_JobCountsByStatus :: "('s, string \<rightharpoonup> nat) op"
  d_PromoteScheduledJobs :: "int \<Rightarrow> ('s, nat) op"
  d_FailExpiredJobs :: "int \<Rightarrow> ('s, nat) op"

text \<open>A state-changing method with its arguments, and runs of such calls, each in an
  environment of its own: any interleaving of clients, workers and schedulers.\<close>

datatype driver_call =
    CallCreate create_opts
  | CallClaim string string
  | CallComplete string json
  | CallFail string string int
  | CallHeartbeat string "int option"
  | CallCancel string
  | CallPromote string
  | CallPause string
  | CallResume string
  | CallPromoteScheduled int
  | CallFailExpired int

fun apply_call :: "'s driver \<Rightarrow> call_env \<Rightarrow> driver_call \<Rightarrow> 's \<Rightarrow> 's" where
  "apply_call D c (CallCreate opts) s = snd (d_CreateJob D opts c s)"
| "apply_call D c (CallClaim q w) s = snd (d_ClaimJob D q w c s)"
| "apply_call D c (CallComplete i v) s = snd (d_CompleteJob D i v c s)"
| "apply_call D c (CallFail i m b) s = snd (d_FailJob D i m b c s)"
| "apply_call D c (CallHeartbeat i p) s = snd (d_HeartbeatJob D i p c s)"
| "apply_call D c (CallCancel i) s = snd (d_CancelJob D i c s)"
| "apply_call D c (CallPromote i) s = snd (d_PromoteJob D i c s)"
| "apply_call D c (CallPause q) s = snd (d_PauseQueue D q c s)"
| "apply_call D c (CallResume q) s = snd (d_ResumeQueue D q c s)"
| "apply_call D c (CallPromoteScheduled n) s = snd (d_PromoteScheduledJobs D n c s)"
| "apply_call D c (CallFailExpired n) s = snd (d_FailExpiredJobs D n c s)"

fun run_calls :: "'s driver \<Rightarrow> (call_env \<times> driver_call) list \<Rightarrow> 's \<Rightarrow> 's" where
  "run_calls D [] s = s"
| "run_calls D ((c, x) # xs) s = run_calls D xs (apply_call D c x s)"

text \<open>The only precondition: a job is created with a non-negative number of attempts (0 stands
  for the default), which \<open>JobService.CreateJob\<close> guarantees.\<close>

fun call_ok :: "driver_call \<Rightarrow> bool" where
  "call_ok (CallCreate opts) = (0 \<le> o_MaxAttempts opts)"
| "call_ok _ = True"

text \<open>What the conditions of \<open>ListJobs\<close> select.\<close>

definition list_cond :: "string \<Rightarrow> string \<Rightarrow> string \<Rightarrow> job \<Rightarrow> bool" where
  "list_cond queue status afterID r \<longleftrightarrow>
     (queue = [] \<or> j_queue r = queue) \<and> (status = [] \<or> status_name (j_status r) = status)
     \<and> (afterID = [] \<or> j_id r < afterID)"

text \<open>A heartbeat may report no progress, or a percentage.\<close>

definition percentage :: "int option \<Rightarrow> bool" where
  "percentage progress \<longleftrightarrow> (case progress of None \<Rightarrow> True | Some p \<Rightarrow> 0 \<le> p \<and> p \<le> 100)"

definition running_job :: "string \<Rightarrow> job list \<Rightarrow> bool" where
  "running_job i xs \<longleftrightarrow> (\<exists>r \<in> set xs. j_id r = i \<and> j_status r = Running)"

abbreviation this_job :: "string \<Rightarrow> job \<Rightarrow> bool" where
  "this_job i \<equiv> \<lambda>r. j_id r = i"

locale job_driver =
  fixes D :: "'s driver" and table :: "'s \<Rightarrow> job list"
  assumes create_rows: "0 \<le> o_MaxAttempts opts \<Longrightarrow>
      appends_fresh (table s) (table (snd (d_CreateJob D opts c s)))"
    and claim_rows: "ids_ok (table s) \<Longrightarrow>
      rows_step {Claim} (\<lambda>r. j_queue r = q) (table s) (table (snd (d_ClaimJob D q w c s)))"
    and complete_rows: "rows_step {Complete} (this_job i) (table s) (table (snd (d_CompleteJob D i v c s)))"
    and fail_rows: "rows_step {Fail} (this_job i) (table s) (table (snd (d_FailJob D i m b c s)))"
    and heartbeat_rows: "rows_step {Heartbeat} (this_job i) (table s) (table (snd (d_HeartbeatJob D i p c s)))"
    and cancel_rows: "rows_step {Cancel} (this_job i) (table s) (table (snd (d_CancelJob D i c s)))"
    and promote_rows: "rows_step {Release} (this_job i) (table s) (table (snd (d_PromoteJob D i c s)))"
    and pause_step: "table (snd (d_PauseQueue D q c s)) = table s"
    and resume_step: "table (snd (d_ResumeQueue D q c s)) = table s"
    and promote_scheduled_rows: "ids_ok (table s) \<Longrightarrow>
      rows_step {Promote} (\<lambda>_. True) (table s) (table (snd (d_PromoteScheduledJobs D n c s)))"
    and fail_expired_rows: "ids_ok (table s) \<Longrightarrow>
      rows_step {Expire} (\<lambda>_. True) (table s) (table (snd (d_FailExpiredJobs D n c s)))"
    and get_state: "snd (d_GetJob D i c s) = s"
    and status_state: "snd (d_GetJobStatus D i c s) = s"
    and info_state: "snd (d_QueueInfo D q c s) = s"
    and queues_state: "snd (d_ListQueues D c s) = s"
    and list_state: "snd (d_ListJobs D q st n a c s) = s"
    and counts_state: "snd (d_JobCountsByStatus D c s) = s"
begin

lemmas create_step = create_rows [THEN appends_fresh_table]
  and complete_step = complete_rows [THEN rows_step_table]
  and fail_step = fail_rows [THEN rows_step_table]
  and heartbeat_step = heartbeat_rows [THEN rows_step_table]
  and cancel_step = cancel_rows [THEN rows_step_table]
  and promote_step = promote_rows [THEN rows_step_table]
  and claim_step = claim_rows [THEN rows_step_table]
  and promote_scheduled_step = promote_scheduled_rows [THEN rows_step_table]
  and fail_expired_step = fail_expired_rows [THEN rows_step_table]

lemma apply_call_step:
  "call_ok x \<Longrightarrow> ids_ok (table s) \<Longrightarrow> table_step (table s) (table (apply_call D c x s))"
  by (cases x) (simp_all add: create_step claim_step complete_step fail_step heartbeat_step
      cancel_step promote_step pause_step resume_step promote_scheduled_step fail_expired_step)

lemma run_calls_reach:
  "\<forall>x \<in> set xs. call_ok (snd x) \<Longrightarrow> ids_ok (table s) \<Longrightarrow>
     table_reach (table s) (table (run_calls D xs s))"
proof (induction xs arbitrary: s)
  case Nil
  show ?case by (simp add: reach_refl)
next
  case (Cons x xs)
  obtain c y where x: "x = (c, y)" by (cases x)
  with Cons.prems have step: "table_step (table s) (table (apply_call D c y s))"
    by (auto intro: apply_call_step)
  then have "table_reach (table s) (table (apply_call D c y s))"
    by (rule table_step_reach)
  moreover have "table_reach (table (apply_call D c y s))
      (table (run_calls D xs (apply_call D c y s)))"
    using Cons table_step_ids [OF step] by auto
  ultimately show ?case using x by (auto intro: table_reach_trans)
qed

lemma run_calls_ok:
  "\<forall>x \<in> set xs. call_ok (snd x) \<Longrightarrow> table_ok (table s) \<Longrightarrow> table_ok (table (run_calls D xs s))"
  using run_calls_reach table_reach_ok table_ok_ids by blast

lemma run_calls_ids:
  "\<forall>x \<in> set xs. call_ok (snd x) \<Longrightarrow> ids_ok (table s) \<Longrightarrow> ids_ok (table (run_calls D xs s))"
  using run_calls_reach table_reach_ids by blast

lemma run_calls_terminal:
  "\<forall>x \<in> set xs. call_ok (snd x) \<Longrightarrow> ids_ok (table s) \<Longrightarrow> r \<in> set (table s) \<Longrightarrow> terminal (j_status r) \<Longrightarrow>
     r \<in> set (table (run_calls D xs s))"
  using run_calls_reach table_reach_terminal by blast

lemma run_calls_same_job:
  "\<forall>x \<in> set xs. call_ok (snd x) \<Longrightarrow> ids_ok (table s) \<Longrightarrow> r \<in> set (table s) \<Longrightarrow>
     \<exists>r' \<in> set (table (run_calls D xs s)). same_job r r'"
  using run_calls_reach table_reach_same_job by blast

end

locale job_driver_results = job_driver +
  fixes view :: "job \<Rightarrow> job_row"
  assumes view_status: "j_status (view r) = j_status r"
    and view_id: "j_id (view r) = j_id r"
    and view_attempt: "j_attempt (view r) = j_attempt r"
    and view_metadata: "j_metadata (view r) = j_metadata r"
    and complete_result: "fault c 0 = None \<Longrightarrow> fst (d_CompleteJob D i v c s) =
      (if running_job i (table s) then Inr () else Inl ErrWrongState)"
    and heartbeat_result: "fault c 0 = None \<Longrightarrow> percentage p \<Longrightarrow> fst (d_HeartbeatJob D i p c s) =
      (if running_job i (table s) then Inr () else Inl ErrWrongState)"
    and heartbeat_refused: "fault c 0 = None \<Longrightarrow> \<not> percentage p \<Longrightarrow>
      \<exists>e. fst (d_HeartbeatJob D i p c s) = Inl (if running_job i (table s) then DBError e else ErrWrongState)"
    and transition_faults: "fault c 0 = Some e \<Longrightarrow>
      fst (d_CompleteJob D i v c s) = Inl (DBError e) \<and> fst (d_HeartbeatJob D i p c s) = Inl (DBError e)
      \<and> fst (d_CancelJob D i c s) = Inl (DBError e) \<and> fst (d_PromoteJob D i c s) = Inl (DBError e)"
    and cancel_result: "fault c 0 = None \<Longrightarrow> fst (d_CancelJob D i c s) =
      (if \<exists>r \<in> set (table s). j_id r = i \<and> \<not> terminal (j_status r)
       then Inr () else Inl ErrWrongState)"
    and promote_result: "fault c 0 = None \<Longrightarrow> fst (d_PromoteJob D i c s) =
      (if \<exists>r \<in> set (table s). j_id r = i \<and> j_status r = Pending
       then Inr () else Inl ErrWrongState)"
    and get_result: "fault c 0 = None \<Longrightarrow> fst (d_GetJob D i c s) =
      (case lookup_job i (table s) of None \<Rightarrow> Inl ErrNotFound | Some r \<Rightarrow> Inr (view r))"
    and get_fault: "fault c 0 = Some e \<Longrightarrow> fst (d_GetJob D i c s) = Inl (DBError e)"
    and list_result: "fault c 0 = None \<Longrightarrow> fst (d_ListJobs D q st n a c s) =
      Inr (map view (select_desc (list_cond q st a) j_id (if n \<le> 0 then 50 else nat n) (table s)))"

text \<open>What a row that was just created holds: a new ULID in lower case, and the options with the
  defaults of the two numbers.\<close>

definition made_from :: "call_env \<Rightarrow> create_opts \<Rightarrow> job \<Rightarrow> bool" where
  "made_from c opts r \<longleftrightarrow>
     (\<exists>u. fresh_ulid c = Inr u \<and> j_id r = to_lower u)
     \<and> j_queue r = o_Queue opts \<and> j_kind r = o_Kind opts \<and> j_payload r = o_PayloadJSON opts
     \<and> j_priority r = (if o_Priority opts = 0 then 1 else o_Priority opts)
     \<and> j_max_attempts r = (if o_MaxAttempts opts = 0 then 25 else o_MaxAttempts opts)"

text \<open>What the methods that return rows return: views of rows that are in the table.\<close>

locale job_driver_rows = job_driver_results +
  assumes view_queue: "j_queue (view r) = j_queue r"
    and view_kind: "j_kind (view r) = j_kind r"
    and view_progress: "j_progress (view r) = j_progress r"
    and create_made: "table (snd (d_CreateJob D opts c s)) = table s
      \<or> (\<exists>r. made_from c opts r \<and> table (snd (d_CreateJob D opts c s)) = table s @ [r])"
    and create_row: "fst (d_CreateJob D opts c s) = Inr v \<Longrightarrow>
      v \<in> view ` set (table (snd (d_CreateJob D opts c s)))"
    and claim_row: "fst (d_ClaimJob D q w c s) = Inr (Some v) \<Longrightarrow>
      v \<in> view ` set (table (snd (d_ClaimJob D q w c s)))"
    and get_row: "fst (d_GetJob D i c s) = Inr v \<Longrightarrow> v \<in> view ` set (table s)"
    and list_rows: "fst (d_ListJobs D q st n a c s) = Inr vs \<Longrightarrow> set vs \<subseteq> view ` set (table s)"
    and status_row: "fst (d_GetJobStatus D i c s) = Inr sv \<Longrightarrow>
      \<exists>r \<in> set (table s). s_status sv = j_status r \<and> s_progress sv = j_progress r"

end
