(* ===== verification/Session.thy ===== *)
theory Session
  imports Sha256
begin

text \<open>
  \<open>internal/auth/session.go\<close>: the request context that carries the caller's identity to the RPC
  handlers, and the signed session cookie of the dashboard. \<open>mac\<close> stands for the signature of a
  string under the server's secret (\<open>session_sign\<close>).
\<close>

subsection \<open>Context values\<close>

record req_context =
  ctx_user_id :: "string option"
  ctx_worker_id :: "string option"

definition empty_context :: req_context where
  "empty_context = \<lparr>ctx_user_id = None, ctx_worker_id = None\<rparr>"

definition ContextWithUserID :: "req_context \<Rightarrow> string \<Rightarrow> req_context" where
  "ContextWithUserID ctx i = ctx\<lparr>ctx_user_id := Some i\<rparr>"

definition UserIDFromContext :: "req_context \<Rightarrow> string" where
  "UserIDFromContext ctx = (case ctx_user_id ctx of Some v \<Rightarrow> v | None \<Rightarrow> [])"

definition ContextWithWorkerID :: "req_context \<Rightarrow> string \<Rightarrow> req_context" where
  "ContextWithWorkerID ctx i = ctx\<lparr>ctx_worker_id := Some i\<rparr>"

definition WorkerIDFromContext :: "req_context \<Rightarrow> string" where
  "WorkerIDFromContext ctx = (case ctx_worker_id ctx of Some v \<Rightarrow> v | None \<Rightarrow> [])"

lemma context_round_trip [simp]:
  "UserIDFromContext (ContextWithUserID ctx i) = i"
  "WorkerIDFromContext (ContextWithWorkerID ctx i) = i"
  "WorkerIDFromContext (ContextWithUserID ctx i) = WorkerIDFromContext ctx"
  "UserIDFromContext (ContextWithWorkerID ctx i) = UserIDFromContext ctx"
  by (simp_all add: UserIDFromContext_def ContextWithUserID_def WorkerIDFromContext_def
      ContextWithWorkerID_def)

subsection \<open>The session cookie\<close>

record cookie =
  ck_Name :: string
  ck_Value :: string
  ck_Path :: string
  ck_HttpOnly :: bool
  ck_Secure :: bool
  ck_SameSiteLax :: bool
  ck_MaxAge :: int

definition sessionCookie :: string where
  "sessionCookie = ''queue_session''"

text \<open>30 days, in seconds.\<close>

definition sessionMaxAge :: int where
  "sessionMaxAge = 30 * 24 * 3600"

definition session_sign :: "string \<Rightarrow> string \<Rightarrow> string" where
  "session_sign secret v = hex_encode (hmac_sha256 secret v)"

definition session_Set :: "(string \<Rightarrow> string) \<Rightarrow> string \<Rightarrow> cookie" where
  "session_Set mac userID =
     \<lparr>ck_Name = sessionCookie, ck_Value = userID @ ''.'' @ mac userID, ck_Path = ''/'',
      ck_HttpOnly = True, ck_Secure = True, ck_SameSiteLax = True, ck_MaxAge = sessionMaxAge\<rparr>"

definition session_Clear :: cookie where
  "session_Clear =
     \<lparr>ck_Name = sessionCookie, ck_Value = [], ck_Path = ''/'',
      ck_HttpOnly = True, ck_Secure = False, ck_SameSiteLax = False, ck_MaxAge = -1\<rparr>"

text \<open>A request's cookies: the value of the first cookie of a name (\<open>r.Cookie\<close>).\<close>

type_synonym request_cookies = "(string \<times> string) list"

definition session_UserID :: "(string \<Rightarrow> string) \<Rightarrow> request_cookies \<Rightarrow> string" where
  "session_UserID mac cookies =
     (case map_of cookies sessionCookie of None \<Rightarrow> []
      | Some v \<Rightarrow> (case cut v CHR ''.'' of None \<Rightarrow> []
        | Some (ident, sig) \<Rightarrow> if sig = mac ident then ident else []))"

text \<open>What the browser keeps of a \<open>Set-Cookie\<close>: the cookie replaces an older one of its name; a
  negative \<open>MaxAge\<close> deletes it.\<close>

definition store_cookie :: "cookie \<Rightarrow> request_cookies \<Rightarrow> request_cookies" where
  "store_cookie ck cookies =
     (let rest = filter (\<lambda>(n, _). n \<noteq> ck_Name ck) cookies in
      if ck_MaxAge ck < 0 then rest else (ck_Name ck, ck_Value ck) # rest)"

lemma session_UserID_sound:
  assumes "session_UserID mac cookies = u" and "u \<noteq> []"
  shows "map_of cookies sessionCookie = Some (u @ ''.'' @ mac u)"
proof -
  from assms obtain v where v: "map_of cookies sessionCookie = Some v"
    by (cases "map_of cookies sessionCookie") (auto simp: session_UserID_def)
  with assms obtain sig where "cut v CHR ''.'' = Some (u, sig)" and "sig = mac u"
    by (auto simp: session_UserID_def split: option.splits if_splits)
  then show ?thesis using v cut_Some by force
qed

lemma session_Set_UserID:
  assumes "CHR ''.'' \<notin> set u"
  shows "session_UserID mac (store_cookie (session_Set mac u) cookies) = u"
proof -
  have "cut (u @ CHR ''.'' # mac u) CHR ''.'' = Some (u, mac u)"
    using assms by (rule cut_append)
  then show ?thesis
    by (simp add: session_UserID_def store_cookie_def session_Set_def sessionMaxAge_def)
qed

lemma session_Clear_UserID:
  "session_UserID mac (store_cookie session_Clear cookies) = []"
proof -
  have "map_of (filter (\<lambda>(n, _). n \<noteq> k) cookies) k = None" for k
    by (auto simp: map_of_eq_None_iff)
  then show ?thesis
    by (simp add: session_UserID_def store_cookie_def session_Clear_def)
qed

end
