(* ===== verification/Job_Service.thy ===== *)
theory Job_Service
  imports Driver_Iface Session
begin

text \<open>
  \<open>internal/service/job.go\<close>: the RPC handlers of the job service, over any \<open>Driver\<close>. A handler
  ends with a response, with a Connect error, or with a Go panic. The request messages are the
  records of \<open>proto/stevy/v1/job.proto\<close> with unset fields at their defaults.

  The record \<open>go_rt\<close> holds what the handlers take from outside the source: the
  implementation-specific result of a float-to-integer conversion that is out of range, the
  integer part of a fractional literal, and \<open>structpb.NewStruct\<close>.
\<close>

datatype code = CodeInvalidArgument | CodeNotFound | CodeFailedPrecondition | CodeInternal
  | CodeUnauthenticated | CodePermissionDenied

datatype rpc_error = RpcError code string | Panic

type_synonym ('s, 'a) handler = "'s \<Rightarrow> ('s, rpc_error, 'a) call_result"

record go_rt =
  rt_oor :: int
  rt_frac_int :: "string \<Rightarrow> int"
  rt_new_struct :: "(string \<rightharpoonup> json) \<Rightarrow> (string \<rightharpoonup> json) option"

subsection \<open>Messages\<close>

record backoff_options =
  bo_type :: string
  bo_delay :: int
  bo_jitter :: bool

record job_options =
  jo_pending :: bool
  jo_delay :: int
  jo_attempts :: int
  jo_priority :: int
  jo_backoff :: "backoff_options option"

record create_job_request =
  cr_queue :: string
  cr_kind :: string
  cr_payload :: "(string \<times> json) list"
  cr_options :: "job_options option"

record attempt_error =
  ae_at :: int
  ae_message :: string

record proto_job =
  p_id :: string
  p_queue :: string
  p_kind :: string
  p_payload :: "(string \<rightharpoonup> json) option"
  p_status :: status
  p_attempt :: int
  p_progress :: int
  p_errors :: "attempt_error list"
  p_result :: "(string \<rightharpoonup> json) option"
  p_created_at :: int
  p_scheduled_at :: "int option"
  p_attempted_at :: "int option"
  p_finalized_at :: "int option"

record job_state =
  js_status :: status
  js_progress :: int
  js_error :: "string option"

subsection \<open>Helpers\<close>

definition parseJobID :: "string \<Rightarrow> rpc_error + string" where
  "parseJobID s = (if s = [] then Inl (RpcError CodeInvalidArgument ''job id is required'') else Inr s)"

definition internal_error :: "go_error \<Rightarrow> rpc_error" where
  "internal_error e = RpcError CodeInternal (error_text e)"

definition mapErr :: "go_error \<Rightarrow> string \<Rightarrow> string \<Rightarrow> rpc_error" where
  "mapErr e opname ident =
     (case e of
        ErrNotFound \<Rightarrow> RpcError CodeNotFound (''job '' @ ident @ '' not found'')
      | ErrWrongState \<Rightarrow>
          RpcError CodeFailedPrecondition (''job '' @ ident @ '' cannot '' @ opname @ '' in current state'')
      | DBError _ \<Rightarrow> internal_error e)"

definition clampPriority :: "int \<Rightarrow> int" where
  "clampPriority p = (if 75 \<le> p then 1 else if 50 \<le> p then 2 else if 25 \<le> p then 3 else 4)"

text \<open>The zero \<open>time.Time\<close>, 1 January of year 1.\<close>

definition zero_time :: int where
  "zero_time = - 62135596800 * 1000000000"

text \<open>Decoding one element into \<open>struct { At time.Time; Message string }\<close>: field by field, keys
  compared without case, \<open>null\<close> leaving a field as it is, any other kind of value an error.\<close>

fun decode_attempt_fields ::
  "(string \<Rightarrow> int option) \<Rightarrow> attempt_error \<Rightarrow> (string \<times> json) list \<Rightarrow> attempt_error option" where
  "decode_attempt_fields pt acc [] = Some acc"
| "decode_attempt_fields pt acc ((k, v) # fs) =
     (if to_lower k = ''at'' then
        (case v of
           JNull \<Rightarrow> decode_attempt_fields pt acc fs
         | JStr t \<Rightarrow> (case pt t of None \<Rightarrow> None
             | Some n \<Rightarrow> decode_attempt_fields pt (acc\<lparr>ae_at := n\<rparr>) fs)
         | _ \<Rightarrow> None)
      else if to_lower k = ''message'' then
        (case v of
           JNull \<Rightarrow> decode_attempt_fields pt acc fs
         | JStr t \<Rightarrow> decode_attempt_fields pt (acc\<lparr>ae_message := t\<rparr>) fs
         | _ \<Rightarrow> None)
      else decode_attempt_fields pt acc fs)"

definition decode_attempt :: "(string \<Rightarrow> int option) \<Rightarrow> json \<Rightarrow> attempt_error option" where
  "decode_attempt pt e =
     (let z = \<lparr>ae_at = zero_time, ae_message = []\<rparr> in
      case e of JNull \<Rightarrow> Some z | JObj fs \<Rightarrow> decode_attempt_fields pt z fs | _ \<Rightarrow> None)"

text \<open>A list of which every element decodes, else nothing: \<open>json.Unmarshal\<close> reports the first
  mismatch and the caller then drops the whole result.\<close>

fun decode_all :: "('a \<Rightarrow> 'b option) \<Rightarrow> 'a list \<Rightarrow> 'b list option" where
  "decode_all f [] = Some []"
| "decode_all f (x # xs) =
     (case f x of None \<Rightarrow> None
      | Some y \<Rightarrow> (case decode_all f xs of None \<Rightarrow> None | Some ys \<Rightarrow> Some (y # ys)))"

definition parseAttemptErrors :: "(string \<Rightarrow> int option) \<Rightarrow> json list \<Rightarrow> attempt_error list" where
  "parseAttemptErrors pt errs =
     (case decode_all (decode_attempt pt) errs of None \<Rightarrow> [] | Some es \<Rightarrow> es)"

definition lastError :: "json list \<Rightarrow> string" where
  "lastError errs =
     (if \<forall>e \<in> set errs. is_object e \<or> e = JNull
      then (if errs = [] then [] else as_string (json_map (last errs) ''message''))
      else [])"

definition rowToProto :: "go_rt \<Rightarrow> job_row \<Rightarrow> proto_job" where
  "rowToProto rt row =
     \<lparr>p_id = j_id row, p_queue = j_queue row, p_kind = j_kind row,
      p_payload = rt_new_struct rt (json_map (j_payload row)),
      p_status = j_status row,
      p_attempt = wrap32 (j_attempt row),
      p_progress = wrap32 (j_progress row),
      p_errors = parseAttemptErrors parse_rfc3339 (j_errors row),
      p_result = (case j_result row of None \<Rightarrow> None
        | Some v \<Rightarrow> if is_object v \<or> v = JNull then rt_new_struct rt (json_map v) else None),
      p_created_at = j_created_at row,
      p_scheduled_at = (if j_scheduled_at row = zero_time then None else Some (j_scheduled_at row)),
      p_attempted_at = j_attempted_at row,
      p_finalized_at = j_finalized_at row\<rparr>"

subsection \<open>Listing and creating\<close>

definition svc_ListJobs ::
  "'s driver \<Rightarrow> go_rt \<Rightarrow> string \<Rightarrow> string \<Rightarrow> int \<Rightarrow> string \<Rightarrow> call_env \<Rightarrow> ('s, proto_job list) handler" where
  "svc_ListJobs D rt queue status lim after c s =
     (let limit = (if lim = 0 then 50 else lim) in
      case d_ListJobs D queue status (limit + 1) after c s of
        (Inl e, s') \<Rightarrow> (Inl (internal_error e), s')
      | (Inr rows, s') \<Rightarrow>
          if limit < int (length rows) then
            (if limit < 0 then (Inl Panic, s')
             else (Inr (map (rowToProto rt) (take (nat limit) rows)), s'))
          else (Inr (map (rowToProto rt) rows), s'))"

definition backoff_meta :: "backoff_options \<Rightarrow> (string \<times> json) list" where
  "backoff_meta bo =
     [(''backoff_delay'', JInt (bo_delay bo)), (''backoff_jitter'', JBool (bo_jitter bo)),
      (''backoff_type'', JStr (bo_type bo))]"

text \<open>The options of a new job; \<open>now\<close> is the handler's own reading of the clock. The delay in
  milliseconds becomes a 64-bit duration in nanoseconds.\<close>

definition create_opts_of :: "create_job_request \<Rightarrow> int \<Rightarrow> create_opts" where
  "create_opts_of m now =
     (let o0 = \<lparr>o_Queue = cr_queue m, o_Kind = cr_kind m, o_PayloadJSON = JObj (cr_payload m),
                o_Metadata = Some (JObj []), o_MaxAttempts = 0, o_Priority = 0,
                o_ScheduledAt = None, o_Pending = False\<rparr> in
      case cr_options m of None \<Rightarrow> o0
      | Some jo \<Rightarrow>
          o0\<lparr>o_Pending := jo_pending jo,
             o_ScheduledAt := (if 0 < jo_delay jo then Some (now + wrap64 (jo_delay jo * 1000000)) else None),
             o_MaxAttempts := (if 0 < jo_attempts jo then jo_attempts jo else 0),
             o_Priority := (if 0 < jo_priority jo then clampPriority (jo_priority jo) else 0),
             o_Metadata := Some (JObj (case jo_backoff jo of None \<Rightarrow> [] | Some bo \<Rightarrow> backoff_meta bo))\<rparr>)"

definition svc_CreateJob ::
  "'s driver \<Rightarrow> go_rt \<Rightarrow> create_job_request \<Rightarrow> int \<Rightarrow> call_env \<Rightarrow> ('s, proto_job) handler" where
  "svc_CreateJob D rt m now c s =
     (case d_CreateJob D (create_opts_of m now) c s of
        (Inl e, s') \<Rightarrow> (Inl (internal_error e), s')
      | (Inr row, s') \<Rightarrow> (Inr (rowToProto rt row), s'))"

subsection \<open>The worker's calls\<close>

definition workerIDFromCtx :: "req_context \<Rightarrow> string" where
  "workerIDFromCtx ctx = WorkerIDFromContext ctx"

definition svc_ClaimJob ::
  "'s driver \<Rightarrow> go_rt \<Rightarrow> req_context \<Rightarrow> string \<Rightarrow> call_env \<Rightarrow> ('s, proto_job option) handler" where
  "svc_ClaimJob D rt ctx queue c s =
     (case d_ClaimJob D queue (workerIDFromCtx ctx) c s of
        (Inl e, s') \<Rightarrow> (Inl (internal_error e), s')
      | (Inr None, s') \<Rightarrow> (Inr None, s')
      | (Inr (Some row), s') \<Rightarrow> (Inr (Some (rowToProto rt row)), s'))"

definition svc_CompleteJob ::
  "'s driver \<Rightarrow> string \<Rightarrow> (string \<times> json) list \<Rightarrow> call_env \<Rightarrow> ('s, unit) handler" where
  "svc_CompleteJob D ident result c s =
     (case parseJobID ident of Inl e \<Rightarrow> (Inl e, s)
      | Inr i \<Rightarrow>
        (case d_CompleteJob D i (JObj result) c s of
           (Inl e, s') \<Rightarrow> (Inl (mapErr e ''complete'' i), s')
         | (Inr _, s') \<Rightarrow> (Inr (), s')))"

text \<open>\<open>computeBackoffMs\<close>: the delay before jitter, then the jitter. \<open>rand.Intn\<close> panics on a bound
  that is not positive and otherwise returns some value below it, here \<open>rnd mod n\<close>.\<close>

definition base_delay :: "go_rt \<Rightarrow> (string \<rightharpoonup> json) \<Rightarrow> int" where
  "base_delay rt meta =
     (case meta ''backoff_delay'' of
        Some (JInt n) \<Rightarrow> int64_of_float (rt_oor rt) (float64_of_int n)
      | Some (JFrac l) \<Rightarrow> rt_frac_int rt l
      | _ \<Rightarrow> 1000)"

definition raw_backoff :: "go_rt \<Rightarrow> (string \<rightharpoonup> json) \<Rightarrow> int \<Rightarrow> int" where
  "raw_backoff rt meta attempt =
     (if as_string (meta ''backoff_type'') = ''exponential''
      then wrap64 (base_delay rt meta * int64_pow2 (rt_oor rt) (attempt - 1))
      else base_delay rt meta)"

definition add_jitter :: "int \<Rightarrow> int \<Rightarrow> rpc_error + int" where
  "add_jitter rnd ms =
     (let n = go_div ms 2 + 1 in if n \<le> 0 then Inl Panic else Inr (go_div ms 2 + rnd mod n))"

definition backoff_ms :: "go_rt \<Rightarrow> int \<Rightarrow> job_row \<Rightarrow> rpc_error + int" where
  "backoff_ms rt rnd row =
     (let meta = json_map (j_metadata row); ms = raw_backoff rt meta (j_attempt row) in
      if as_bool (meta ''backoff_jitter'') then add_jitter rnd ms else Inr ms)"

text \<open>\<open>FailJob\<close> is two calls of the driver: the row is read (environment \<open>c0\<close>) to compute the
  backoff and then updated (environment \<open>c\<close>); \<open>mid\<close> is what the rest of the system does to the
  database in between.\<close>

definition svc_FailJob ::
  "'s driver \<Rightarrow> go_rt \<Rightarrow> string \<Rightarrow> string \<Rightarrow> call_env \<Rightarrow> ('s \<Rightarrow> 's) \<Rightarrow> call_env \<Rightarrow> ('s, unit) handler" where
  "svc_FailJob D rt ident msg c0 mid c s =
     (case parseJobID ident of Inl e \<Rightarrow> (Inl e, s)
      | Inr i \<Rightarrow>
        (case d_GetJob D i c0 s of
           (Inl e, s1) \<Rightarrow> (Inl (internal_error e), s1)
         | (Inr row, s1) \<Rightarrow>
           (case backoff_ms rt (rand_src c0) row of
              Inl p \<Rightarrow> (Inl p, s1)
            | Inr ms \<Rightarrow>
              (case d_FailJob D i msg ms c (mid s1) of
                 (Inl e, s2) \<Rightarrow> (Inl (mapErr e ''fail'' i), s2)
               | (Inr _, s2) \<Rightarrow> (Inr (), s2)))))"

definition svc_HeartbeatJob ::
  "'s driver \<Rightarrow> string \<Rightarrow> int option \<Rightarrow> call_env \<Rightarrow> ('s, unit) handler" where
  "svc_HeartbeatJob D ident progress c s =
     (case parseJobID ident of Inl e \<Rightarrow> (Inl e, s)
      | Inr i \<Rightarrow>
        (case d_HeartbeatJob D i progress c s of
           (Inl e, s') \<Rightarrow> (Inl (mapErr e ''heartbeat'' i), s')
         | (Inr _, s') \<Rightarrow> (Inr (), s')))"

subsection \<open>Cancelling, promoting, reading\<close>

definition svc_CancelJob :: "'s driver \<Rightarrow> string \<Rightarrow> call_env \<Rightarrow> ('s, unit) handler" where
  "svc_CancelJob D ident c s =
     (case parseJobID ident of Inl e \<Rightarrow> (Inl e, s)
      | Inr i \<Rightarrow>
        (case d_CancelJob D i c s of
           (Inl e, s') \<Rightarrow> (Inl (mapErr e ''cancel'' i), s')
         | (Inr _, s') \<Rightarrow> (Inr (), s')))"

definition svc_PromoteJob :: "'s driver \<Rightarrow> string \<Rightarrow> call_env \<Rightarrow> ('s, unit) handler" where
  "svc_PromoteJob D ident c s =
     (case parseJobID ident of Inl e \<Rightarrow> (Inl e, s)
      | Inr i \<Rightarrow>
        (case d_PromoteJob D i c s of
           (Inl e, s') \<Rightarrow> (Inl (mapErr e ''promote'' i), s')
         | (Inr _, s') \<Rightarrow> (Inr (), s')))"

definition svc_GetJob :: "'s driver \<Rightarrow> go_rt \<Rightarrow> string \<Rightarrow> call_env \<Rightarrow> ('s, proto_job) handler" where
  "svc_GetJob D rt ident c s =
     (case parseJobID ident of Inl e \<Rightarrow> (Inl e, s)
      | Inr i \<Rightarrow>
        (case d_GetJob D i c s of
           (Inl e, s') \<Rightarrow> (Inl (mapErr e ''get'' i), s')
         | (Inr row, s') \<Rightarrow> (Inr (rowToProto rt row), s')))"

definition svc_GetJobState :: "'s driver \<Rightarrow> string \<Rightarrow> call_env \<Rightarrow> ('s, job_state) handler" where
  "svc_GetJobState D ident c s =
     (case parseJobID ident of Inl e \<Rightarrow> (Inl e, s)
      | Inr i \<Rightarrow>
        (case d_GetJobStatus D i c s of
           (Inl e, s') \<Rightarrow> (Inl (mapErr e ''get-state'' i), s')
         | (Inr row, s') \<Rightarrow>
           (Inr \<lparr>js_status = s_status row, js_progress = wrap32 (s_progress row),
                 js_error = (let m = lastError (s_errors row) in if m = [] then None else Some m)\<rparr>, s')))"

end
