(* ===== verification/Json_Text.thy ===== *)
theory Json_Text
  imports Json
begin

text \<open>
  JSON documents as text, as \<open>encoding/json\<close> reads and writes them: a reader of RFC 8259 with the
  package's limit of 10000 levels, and a printer whose layout is a parameter: \<open>json.Encoder\<close> writes
  no white space, \<open>json.MarshalIndent\<close> a line per element. Texts are sequences of runes here; what is
  not ASCII only occurs inside string literals. A number with a fraction or an exponent is kept
  as its literal, like \<open>-0\<close>, which is no integer for Go.
\<close>

subsection \<open>Reading\<close>

definition is_ws :: "nat \<Rightarrow> bool" where
  "is_ws r \<longleftrightarrow> r = 32 \<or> r = 9 \<or> r = 10 \<or> r = 13"

definition skip_ws :: "nat list \<Rightarrow> nat list" where
  "skip_ws rs = dropWhile is_ws rs"

definition digit_rune :: "nat \<Rightarrow> bool" where
  "digit_rune r \<longleftrightarrow> 48 \<le> r \<and> r \<le> 57"

definition span_digits :: "nat list \<Rightarrow> nat list \<times> nat list" where
  "span_digits rs = (takeWhile digit_rune rs, dropWhile digit_rune rs)"

definition read_minus :: "nat list \<Rightarrow> bool \<times> nat list" where
  "read_minus rs = (case rs of [] \<Rightarrow> (False, []) | r # t \<Rightarrow> if r = 45 then (True, t) else (False, r # t))"

text \<open>The optional fraction and exponent: what was read, and the rest.\<close>

definition read_frac :: "nat list \<Rightarrow> (nat list \<times> nat list) option" where
  "read_frac rs = (case rs of [] \<Rightarrow> Some ([], []) | r # t \<Rightarrow>
     if r = 46 then (case span_digits t of (ds, u) \<Rightarrow> if ds = [] then None else Some (46 # ds, u))
     else Some ([], r # t))"

definition read_sign :: "nat list \<Rightarrow> nat list \<times> nat list" where
  "read_sign rs = (case rs of [] \<Rightarrow> ([], []) | r # t \<Rightarrow> if r = 43 \<or> r = 45 then ([r], t) else ([], r # t))"

definition read_exp :: "nat list \<Rightarrow> (nat list \<times> nat list) option" where
  "read_exp rs = (case rs of [] \<Rightarrow> Some ([], []) | r # t \<Rightarrow>
     if r = 101 \<or> r = 69 then
       (case read_sign t of (sg, u) \<Rightarrow> case span_digits u of (ds, w) \<Rightarrow>
          if ds = [] then None else Some (r # sg @ ds, w))
     else Some ([], r # t))"

definition ascii :: "nat list \<Rightarrow> string" where
  "ascii rs = map char_of rs"

definition read_number :: "nat list \<Rightarrow> (json \<times> nat list) option" where
  "read_number rs =
     (case read_minus rs of (neg, r1) \<Rightarrow>
      case span_digits r1 of (ip, r2) \<Rightarrow>
        if ip = [] \<or> (hd ip = 48 \<and> tl ip \<noteq> []) then None
        else (case read_frac r2 of None \<Rightarrow> None
          | Some (fp, r3) \<Rightarrow>
            (case read_exp r3 of None \<Rightarrow> None
             | Some (ep, r4) \<Rightarrow>
               Some (if fp = [] \<and> ep = [] \<and> \<not> (neg \<and> ip = [48])
                     then JInt (if neg then - int (read_nat (ascii ip)) else int (read_nat (ascii ip)))
                     else JFrac (ascii ((if neg then [45] else []) @ ip @ fp @ ep)), r4))))"

text \<open>A word of the grammar.\<close>

definition read_word :: "nat list \<Rightarrow> json \<Rightarrow> nat list \<Rightarrow> (json \<times> nat list) option" where
  "read_word w v rs = (if take (length w) rs = w then Some (v, drop (length w) rs) else None)"

text \<open>One value, and the elements of an array or the members of an object up to the closing
  bracket. \<open>n\<close> is fuel (the length of the text is enough), \<open>d\<close> the levels still allowed.\<close>

fun read_value :: "nat \<Rightarrow> nat \<Rightarrow> nat list \<Rightarrow> (json \<times> nat list) option"
  and read_elems :: "nat \<Rightarrow> nat \<Rightarrow> nat list \<Rightarrow> (json list \<times> nat list) option"
  and read_members :: "nat \<Rightarrow> nat \<Rightarrow> nat list \<Rightarrow> ((string \<times> json) list \<times> nat list) option" where
  "read_value 0 d rs = None"
| "read_value (Suc n) d rs =
     (case skip_ws rs of [] \<Rightarrow> None
      | r # t \<Rightarrow>
        if r = 34 then map_option (\<lambda>(s, u). (JStr (encode_runes s), u)) (read_lit t)
        else if r = 123 then
          (if d = 0 then None
           else case skip_ws t of [] \<Rightarrow> None
             | q # u \<Rightarrow> if q = 125 then Some (JObj [], u)
                 else map_option (\<lambda>(fs, w). (JObj fs, w)) (read_members n (d - 1) t))
        else if r = 91 then
          (if d = 0 then None
           else case skip_ws t of [] \<Rightarrow> None
             | q # u \<Rightarrow> if q = 93 then Some (JArr [], u)
                 else map_option (\<lambda>(vs, w). (JArr vs, w)) (read_elems n (d - 1) t))
        else if r = 116 then read_word [116, 114, 117, 101] (JBool True) (r # t)
        else if r = 102 then read_word [102, 97, 108, 115, 101] (JBool False) (r # t)
        else if r = 110 then read_word [110, 117, 108, 108] JNull (r # t)
        else read_number (r # t))"
| "read_elems 0 d rs = None"
| "read_elems (Suc n) d rs =
     (case read_value n d rs of None \<Rightarrow> None
      | Some (v, t) \<Rightarrow>
        (case skip_ws t of [] \<Rightarrow> None
         | q # u \<Rightarrow>
           if q = 93 then Some ([v], u)
           else if q = 44 then map_option (\<lambda>(vs, w). (v # vs, w)) (read_elems n d u)
           else None))"
| "read_members 0 d rs = None"
| "read_members (Suc n) d rs =
     (case skip_ws rs of [] \<Rightarrow> None
      | r # t \<Rightarrow>
        if r \<noteq> 34 then None
        else (case read_lit t of None \<Rightarrow> None
          | Some (k, u) \<Rightarrow>
            (case skip_ws u of [] \<Rightarrow> None
             | c # w \<Rightarrow>
               if c \<noteq> 58 then None
               else (case read_value n d w of None \<Rightarrow> None
                 | Some (v, x) \<Rightarrow>
                   (case skip_ws x of [] \<Rightarrow> None
                    | q # y \<Rightarrow>
                      if q = 125 then Some ([(encode_runes k, v)], y)
                      else if q = 44 then
                        map_option (\<lambda>(fs, z). ((encode_runes k, v) # fs, z)) (read_members n d y)
                      else None)))))"

text \<open>\<open>json.Decoder.Decode\<close> reads the first value of a text, \<open>json.Unmarshal\<close> the only one.\<close>

definition read_first :: "string \<Rightarrow> json option" where
  "read_first t = map_option fst (read_value (Suc (length (runes t))) 10000 (runes t))"

definition read_json :: "string \<Rightarrow> json option" where
  "read_json t =
     (case read_value (Suc (length (runes t))) 10000 (runes t) of None \<Rightarrow> None
      | Some (v, rest) \<Rightarrow> if skip_ws rest = [] then Some v else None)"

subsection \<open>Writing\<close>

definition int_runes :: "int \<Rightarrow> nat list" where
  "int_runes k = (if k < 0 then 45 # map of_char (show_nat (nat (- k))) else map of_char (show_nat (nat k)))"

definition hex_rune :: "nat \<Rightarrow> nat" where
  "hex_rune n = (if n < 10 then 48 + n else 87 + n)"

text \<open>One rune of a literal, with the escapes that keep it safe inside HTML.\<close>

definition go_esc :: "nat \<Rightarrow> nat list" where
  "go_esc r =
     (if r = 34 then [92, 34] else if r = 92 then [92, 92] else if r = 8 then [92, 98]
      else if r = 12 then [92, 102] else if r = 10 then [92, 110] else if r = 13 then [92, 114]
      else if r = 9 then [92, 116]
      else if r < 32 \<or> r = 60 \<or> r = 62 \<or> r = 38 then [92, 117, 48, 48, hex_rune (r div 16), hex_rune (r mod 16)]
      else if r = 0x2028 then [92, 117, 50, 48, 50, 56]
      else if r = 0x2029 then [92, 117, 50, 48, 50, 57]
      else [r])"

text \<open>A string, byte by byte where it is not UTF-8: such a byte is written as an escaped U+FFFD.\<close>

function esc_string :: "string \<Rightarrow> nat list" where
  "esc_string [] = []"
| "esc_string (c # s) =
     (if decode_rune (c # s) = (rune_error, 1) then [92, 117, 102, 102, 102, 100]
      else go_esc (fst (decode_rune (c # s))))
     @ esc_string (drop (snd (decode_rune (c # s))) (c # s))"
  by pat_completeness auto
termination
  by (relation "measure length") (use decode_width_pos in \<open>simp_all del: decode_rune.simps\<close>)

declare esc_string.simps(2) [simp del]

definition quoted :: "string \<Rightarrow> nat list" where
  "quoted s = 34 # esc_string s @ [34]"

text \<open>The layout: the white space that starts a line at a level, and what follows a colon.\<close>

record layout =
  line_start :: "nat \<Rightarrow> nat list"
  after_colon :: "nat list"

definition compact :: layout where
  "compact = \<lparr>line_start = (\<lambda>_. []), after_colon = []\<rparr>"

text \<open>\<open>MarshalIndent(v, "", "  ")\<close>.\<close>

definition indented :: layout where
  "indented = \<lparr>line_start = (\<lambda>i. 10 # replicate (2 * i) 32), after_colon = [32]\<rparr>"

fun print_value :: "layout \<Rightarrow> nat \<Rightarrow> json \<Rightarrow> nat list"
  and print_elems :: "layout \<Rightarrow> nat \<Rightarrow> json list \<Rightarrow> nat list"
  and print_members :: "layout \<Rightarrow> nat \<Rightarrow> (string \<times> json) list \<Rightarrow> nat list" where
  "print_value L i JNull = [110, 117, 108, 108]"
| "print_value L i (JBool b) = (if b then [116, 114, 117, 101] else [102, 97, 108, 115, 101])"
| "print_value L i (JInt k) = int_runes k"
| "print_value L i (JFrac l) = map of_char l"
| "print_value L i (JStr s) = quoted s"
| "print_value L i (JArr vs) =
     (if vs = [] then [91, 93] else 91 # print_elems L (Suc i) vs @ line_start L i @ [93])"
| "print_value L i (JObj fs) =
     (if fs = [] then [123, 125] else 123 # print_members L (Suc i) fs @ line_start L i @ [125])"
| "print_elems L i [] = []"
| "print_elems L i (v # vs) =
     line_start L i @ print_value L i v @ (if vs = [] then [] else 44 # print_elems L i vs)"
| "print_members L i [] = []"
| "print_members L i ((k, v) # fs) =
     line_start L i @ quoted k @ 58 # after_colon L @ print_value L i v
       @ (if fs = [] then [] else 44 # print_members L i fs)"

definition json_text :: "layout \<Rightarrow> json \<Rightarrow> string" where
  "json_text L v = encode_runes (print_value L 0 v)"

subsection \<open>Documents as \<open>any\<close>\<close>

text \<open>\<open>json.Unmarshal\<close> into an \<open>any\<close>: objects become maps (the last member of a name wins, and they
  are written in the order of their names), numbers become \<open>float64\<close>. Integers of at most 53 bits are exact; \<open>ft\<close>
  gives the text that Go writes for the nearest float of any other literal, \<open>None\<close> when it is out
  of range, which is an error.\<close>

fun put_member :: "string \<Rightarrow> json \<Rightarrow> (string \<times> json) list \<Rightarrow> (string \<times> json) list" where
  "put_member k v [] = [(k, v)]"
| "put_member k v ((k', v') # fs) =
     (if k = k' then (k, v) # fs else if k < k' then (k, v) # (k', v') # fs
      else (k', v') # put_member k v fs)"

definition sort_members :: "(string \<times> json) list \<Rightarrow> (string \<times> json) list" where
  "sort_members fs = foldl (\<lambda>acc f. put_member (fst f) (snd f) acc) [] fs"

definition number_of_text :: "string \<Rightarrow> json" where
  "number_of_text t = (case read_number (map of_char t) of Some (v, _) \<Rightarrow> v | None \<Rightarrow> JFrac t)"

fun all_some :: "'a option list \<Rightarrow> 'a list option" where
  "all_some [] = Some []"
| "all_some (x # xs) = (case x of None \<Rightarrow> None | Some y \<Rightarrow> map_option ((#) y) (all_some xs))"

fun as_any :: "(string \<Rightarrow> string option) \<Rightarrow> json \<Rightarrow> json option" where
  "as_any ft (JInt k) =
     (if \<bar>k\<bar> \<le> 2 ^ 53 then Some (JInt k) else map_option number_of_text (ft (ascii (int_runes k))))"
| "as_any ft (JFrac l) = map_option number_of_text (ft l)"
| "as_any ft (JArr vs) = map_option JArr (all_some (map (as_any ft) vs))"
| "as_any ft (JObj fs) =
     map_option (\<lambda>gs. JObj (sort_members gs))
       (all_some (map (\<lambda>f. map_option (Pair (fst f)) (as_any ft (snd f))) fs))"
| "as_any ft v = Some v"

subsection \<open>The body of a request\<close>

text \<open>\<open>json.NewDecoder(r.Body).Decode(&req)\<close> into a struct with the one string field \<open>name\<close>: the first
  value of the body counts; names are compared without case, a null leaves the field as it is,
  any other type is an error.\<close>

fun decode_string_field :: "string \<Rightarrow> string \<Rightarrow> (string \<times> json) list \<Rightarrow> string option" where
  "decode_string_field name acc [] = Some acc"
| "decode_string_field name acc ((k, v) # fs) =
     (if to_lower k = name then
        (case v of JNull \<Rightarrow> decode_string_field name acc fs
         | JStr t \<Rightarrow> decode_string_field name t fs | _ \<Rightarrow> None)
      else decode_string_field name acc fs)"

definition decode_string_body :: "string \<Rightarrow> string \<Rightarrow> string option" where
  "decode_string_body name body =
     (case read_first body of None \<Rightarrow> None
      | Some v \<Rightarrow> (case v of JNull \<Rightarrow> Some [] | JObj fs \<Rightarrow> decode_string_field name [] fs | _ \<Rightarrow> None))"

end
