(* ===== verification/Auth.thy ===== *)
theory Auth
  imports Accounts Job_Service Json_Text
begin

text \<open>
  \<open>internal/auth\<close>: the API-key interceptor in front of every RPC (\<open>middleware.go\<close>), the session
  gate and the HTTP handlers of the API keys (\<open>apikey.go\<close>), and the Google sign-in
  (\<open>oauth.go\<close>). \<open>mac\<close> signs sessions, \<open>sha\<close> hashes keys; the token exchange, the user-info
  request and the authorisation URL of the OAuth client are arguments.
\<close>

subsection \<open>The RPC interceptor\<close>

definition workerMethods :: "string list" where
  "workerMethods =
     [''/stevy.v1.JobService/ClaimJob'', ''/stevy.v1.JobService/CompleteJob'',
      ''/stevy.v1.JobService/FailJob'', ''/stevy.v1.JobService/HeartbeatJob'']"

definition APIKeyInterceptor ::
  "dialect \<Rightarrow> (string \<Rightarrow> string) \<Rightarrow> (req_context \<Rightarrow> (database, 'a) handler) \<Rightarrow>
     req_context \<Rightarrow> string \<Rightarrow> string \<Rightarrow> call_env \<Rightarrow> (database, 'a) handler" where
  "APIKeyInterceptor d sha next_fn ctx authHdr procedure c s =
     (if \<not> has_prefix authHdr ''Bearer '' then (Inl (RpcError CodeUnauthenticated []), s)
      else
        (let token = trim_prefix authHdr ''Bearer '' in
         if has_prefix token ''stw_'' then
           (if procedure \<notin> set workerMethods then (Inl (RpcError CodePermissionDenied []), s)
            else (case LookupWorkerKey sha token c s of
                    (Inl e, s1) \<Rightarrow> (Inl (RpcError CodeUnauthenticated e), s1)
                  | (Inr workerID, s1) \<Rightarrow> next_fn (ContextWithWorkerID ctx workerID) s1))
         else if has_prefix token ''stv_'' then
           (case LookupAPIKey d sha token c s of
              (Inl e, s1) \<Rightarrow> (Inl (RpcError CodeUnauthenticated e), s1)
            | (Inr (keyID, userID), s1) \<Rightarrow> next_fn (ContextWithUserID ctx userID) s1)
         else (Inl (RpcError CodeUnauthenticated []), s)))"

subsection \<open>HTTP handlers\<close>

datatype 'b http_response =
    HttpError nat string
  | HttpBody nat 'b
  | HttpNoContent
  | HttpRedirect nat string

text \<open>\<open>None\<close> stands for a request passed on to the wrapped handler.\<close>

definition RequireSession :: "(string \<Rightarrow> string) \<Rightarrow> request_cookies \<Rightarrow> string \<Rightarrow> 'b http_response option" where
  "RequireSession mac cookies path =
     (if session_UserID mac cookies \<noteq> [] then None
      else if has_prefix path ''/_/api/'' then Some (HttpError 401 ''unauthorized'')
      else Some (HttpRedirect 302 ''/''))"

text \<open>\<open>writeJSON\<close>: the encoder writes nothing when the value does not marshal (\<open>None\<close>); its error is
  ignored.\<close>

definition writeJSON :: "nat \<Rightarrow> json option \<Rightarrow> string http_response" where
  "writeJSON status v =
     HttpBody status (case v of None \<Rightarrow> [] | Some x \<Rightarrow> json_text compact x @ [CHR 0x0A])"

definition createKeyResponse :: "string \<times> api_key_row \<Rightarrow> json" where
  "createKeyResponse pk =
     (case pk of (plaintext, k) \<Rightarrow>
       JObj [(''id'', JStr (k_id k)), (''label'', JStr (k_label k)), (''key'', JStr plaintext),
             (''key_prefix'', JStr (k_key_prefix k))])"

definition keys_create ::
  "(string \<Rightarrow> string) \<Rightarrow> dialect \<Rightarrow> (string \<Rightarrow> string) \<Rightarrow> string option \<Rightarrow> request_cookies \<Rightarrow>
     string \<Rightarrow> call_env \<Rightarrow> database \<Rightarrow> string http_response \<times> database" where
  "keys_create mac d sha rnd cookies body c s =
     (let userID = session_UserID mac cookies in
      if userID = [] then (HttpError 401 ''unauthorized'', s)
      else (case decode_string_body ''label'' body of None \<Rightarrow> (HttpError 400 ''invalid body'', s)
        | Some raw \<Rightarrow>
            (let label = trim_space raw in
             if label = [] then (HttpError 400 ''label required'', s)
             else (case CreateAPIKey d sha rnd userID label c s of
                     (Inl e, s1) \<Rightarrow> (HttpError 500 e, s1)
                   | (Inr pk, s1) \<Rightarrow> (writeJSON 201 (Some (createKeyResponse pk)), s1)))))"

text \<open>The keys as JSON: the fields have no tags, a list without rows is a nil slice. \<open>tt\<close> is the JSON
  text of a time in the zone that the database gives it (\<open>None\<close> outside of the years 0 to 9999).\<close>

definition api_key_json :: "dialect \<Rightarrow> (int \<Rightarrow> string option) \<Rightarrow> api_key_row \<Rightarrow> json option" where
  "api_key_json d tt k =
     do { created \<leftarrow> tt (db_time d (k_created_at k));
          used \<leftarrow> (case k_last_used_at k of None \<Rightarrow> Some JNull
                  | Some t \<Rightarrow> map_option JStr (tt (db_time d t)));
          Some (JObj [(''ID'', JStr (k_id k)), (''UserID'', JStr (k_user_id k)), (''Label'', JStr (k_label k)),
            (''KeyPrefix'', JStr (k_key_prefix k)), (''CreatedAt'', JStr created), (''LastUsedAt'', used)]) }"

definition keys_list ::
  "(string \<Rightarrow> string) \<Rightarrow> dialect \<Rightarrow> (int \<Rightarrow> string option) \<Rightarrow> request_cookies \<Rightarrow> call_env \<Rightarrow> database \<Rightarrow>
     string http_response \<times> database" where
  "keys_list mac d tt cookies c s =
     (let userID = session_UserID mac cookies in
      if userID = [] then (HttpError 401 ''unauthorized'', s)
      else (case ListAPIKeys userID c s of
              (Inl e, s1) \<Rightarrow> (HttpError 500 e, s1)
            | (Inr ks, s1) \<Rightarrow>
                (writeJSON 200 (if ks = [] then Some JNull
                   else map_option JArr (all_some (map (api_key_json d tt) ks))), s1)))"

definition keys_delete ::
  "(string \<Rightarrow> string) \<Rightarrow> request_cookies \<Rightarrow> string \<Rightarrow> call_env \<Rightarrow> database \<Rightarrow>
     string http_response \<times> database" where
  "keys_delete mac cookies ident c s =
     (let userID = session_UserID mac cookies in
      if userID = [] then (HttpError 401 ''unauthorized'', s)
      else if ident = [] then (HttpError 400 ''invalid id'', s)
      else (case DeleteAPIKey userID ident c s of
              (Inl e, s1) \<Rightarrow> (HttpError 404 e, s1) | (Inr _, s1) \<Rightarrow> (HttpNoContent, s1)))"

subsection \<open>Signing in\<close>

record google_user =
  g_ID :: string
  g_Email :: string
  g_Name :: string

text \<open>Decoding the answer of the user-info endpoint into \<open>googleUserInfo\<close>, as \<open>json.Decoder\<close> does:
  absent fields stay empty, and the status of the answer is not looked at. \<open>get\<close> is the request:
  a transport error, or the body of the answer, of which the first JSON value counts.\<close>

fun decode_google_fields :: "google_user \<Rightarrow> (string \<times> json) list \<Rightarrow> google_user option" where
  "decode_google_fields acc [] = Some acc"
| "decode_google_fields acc ((k, v) # fs) =
     (if to_lower k = ''id'' then
        (case v of JNull \<Rightarrow> decode_google_fields acc fs
         | JStr t \<Rightarrow> decode_google_fields (acc\<lparr>g_ID := t\<rparr>) fs | _ \<Rightarrow> None)
      else if to_lower k = ''email'' then
        (case v of JNull \<Rightarrow> decode_google_fields acc fs
         | JStr t \<Rightarrow> decode_google_fields (acc\<lparr>g_Email := t\<rparr>) fs | _ \<Rightarrow> None)
      else if to_lower k = ''name'' then
        (case v of JNull \<Rightarrow> decode_google_fields acc fs
         | JStr t \<Rightarrow> decode_google_fields (acc\<lparr>g_Name := t\<rparr>) fs | _ \<Rightarrow> None)
      else decode_google_fields acc fs)"

definition decode_google_user :: "json \<Rightarrow> google_user option" where
  "decode_google_user v =
     (let z = \<lparr>g_ID = [], g_Email = [], g_Name = []\<rparr> in
      case v of JNull \<Rightarrow> Some z | JObj fs \<Rightarrow> decode_google_fields z fs | _ \<Rightarrow> None)"

definition fetchUserInfo :: "('tok \<Rightarrow> string + string) \<Rightarrow> 'tok \<Rightarrow> string + google_user" where
  "fetchUserInfo get tok =
     (case get tok of Inl e \<Rightarrow> Inl e
      | Inr body \<Rightarrow>
          (case (case read_first body of None \<Rightarrow> None | Some v \<Rightarrow> decode_google_user v) of
             None \<Rightarrow> Inl ''json: cannot decode'' | Some info \<Rightarrow> Inr info))"

definition emailAllowed :: "string list \<Rightarrow> string \<Rightarrow> bool" where
  "emailAllowed domains email \<longleftrightarrow>
     domains = [] \<or>
     (\<exists>domain \<in> set domains. length domain + 1 < length email
        \<and> drop (length email - length domain - 1) email = ''@'' @ domain)"

definition oauth_state :: string where
  "oauth_state = ''oauth_state''"

text \<open>\<open>rnd\<close> are the 24 random bytes.\<close>

definition randomState :: "string option \<Rightarrow> string option" where
  "randomState rnd = map_option base64url rnd"

definition oauth_Login ::
  "(string \<Rightarrow> string) \<Rightarrow> string option \<Rightarrow> unit http_response \<times> cookie option" where
  "oauth_Login auth_url rnd =
     (case randomState rnd of None \<Rightarrow> (HttpError 500 ''rand'', None)
      | Some st \<Rightarrow>
          (HttpRedirect 302 (auth_url st),
           Some \<lparr>ck_Name = oauth_state, ck_Value = st, ck_Path = ''/'', ck_HttpOnly = True,
                 ck_Secure = True, ck_SameSiteLax = True, ck_MaxAge = 600\<rparr>))"

definition oauth_Callback ::
  "(string \<Rightarrow> string) \<Rightarrow> dialect \<Rightarrow> string list \<Rightarrow> (string \<Rightarrow> string + 'tok) \<Rightarrow>
     ('tok \<Rightarrow> string + google_user) \<Rightarrow> request_cookies \<Rightarrow> string \<Rightarrow> string \<Rightarrow> call_env \<Rightarrow> database \<Rightarrow>
     (unit http_response \<times> cookie option) \<times> database" where
  "oauth_Callback mac d domains exchange fetch cookies q_state q_code c s =
     (case map_of cookies oauth_state of
        None \<Rightarrow> ((HttpError 400 ''missing state cookie'', None), s)
      | Some want \<Rightarrow>
          if want = [] then ((HttpError 400 ''missing state cookie'', None), s)
          else if q_state \<noteq> want then ((HttpError 400 ''state mismatch'', None), s)
          else
            (case exchange q_code of
               Inl e \<Rightarrow> ((HttpError 401 (''exchange failed: '' @ e), None), s)
             | Inr tok \<Rightarrow>
                 (case fetch tok of
                    Inl e \<Rightarrow> ((HttpError 500 e, None), s)
                  | Inr info \<Rightarrow>
                      if \<not> emailAllowed domains (g_Email info)
                      then ((HttpError 403 ''email not allowed'', None), s)
                      else
                        (case UpsertUser d (g_ID info) (g_Email info) (g_Name info) c s of
                           (Inl e, s1) \<Rightarrow> ((HttpError 500 (''user upsert failed: '' @ e), None), s1)
                         | (Inr user, s1) \<Rightarrow>
                             ((HttpRedirect 302 ''/'', Some (session_Set mac (u_id user))), s1)))))"

definition oauth_Logout :: "unit http_response \<times> cookie option" where
  "oauth_Logout = (HttpRedirect 302 ''/'', Some session_Clear)"

end
