(* ===== verification/Queue_Service.thy ===== *)
theory Queue_Service
  imports Job_Service
begin

text \<open>
  \<open>internal/service/queue.go\<close>: the RPC handlers of the queue service.
\<close>

record queue_stats =
  st_pending :: nat
  st_scheduled :: nat
  st_available :: nat
  st_running :: nat
  st_retryable :: nat
  st_cancelled :: nat
  st_discarded :: nat
  st_completed :: nat

record proto_queue =
  pq_name :: string
  pq_paused :: bool
  pq_stats :: queue_stats

text \<open>Reading a Go map: the zero value for an absent key.\<close>

definition count_of :: "(string \<rightharpoonup> nat) \<Rightarrow> string \<Rightarrow> nat" where
  "count_of m k = (case m k of Some n \<Rightarrow> n | None \<Rightarrow> 0)"

definition countsToStats :: "(string \<rightharpoonup> nat) \<Rightarrow> queue_stats" where
  "countsToStats m =
     \<lparr>st_pending = count_of m ''pending'', st_scheduled = count_of m ''scheduled'',
      st_available = count_of m ''available'', st_running = count_of m ''running'',
      st_retryable = count_of m ''retryable'', st_cancelled = count_of m ''cancelled'',
      st_discarded = count_of m ''discarded'', st_completed = count_of m ''completed''\<rparr>"

definition summary_to_queue :: "queue_summary \<Rightarrow> proto_queue" where
  "summary_to_queue q =
     \<lparr>pq_name = qs_Name q, pq_paused = qs_Paused q, pq_stats = countsToStats (qs_CountsByStatus q)\<rparr>"

definition svc_ListQueues :: "'s driver \<Rightarrow> call_env \<Rightarrow> ('s, proto_queue list) handler" where
  "svc_ListQueues D c s =
     (case d_ListQueues D c s of
        (Inl e, s') \<Rightarrow> (Inl (internal_error e), s')
      | (Inr qs, s') \<Rightarrow> (Inr (map summary_to_queue qs), s'))"

definition svc_GetQueue :: "'s driver \<Rightarrow> string \<Rightarrow> call_env \<Rightarrow> ('s, proto_queue) handler" where
  "svc_GetQueue D name c s =
     (case d_QueueInfo D name c s of
        (Inl e, s') \<Rightarrow> (Inl (internal_error e), s')
      | (Inr info, s') \<Rightarrow>
          (Inr \<lparr>pq_name = name, pq_paused = qi_Paused info,
                pq_stats = countsToStats (qi_CountsByStatus info)\<rparr>, s'))"

definition svc_PauseQueue :: "'s driver \<Rightarrow> string \<Rightarrow> call_env \<Rightarrow> ('s, unit) handler" where
  "svc_PauseQueue D name c s =
     (case d_PauseQueue D name c s of
        (Inl e, s') \<Rightarrow> (Inl (internal_error e), s') | (Inr _, s') \<Rightarrow> (Inr (), s'))"

definition svc_ResumeQueue :: "'s driver \<Rightarrow> string \<Rightarrow> call_env \<Rightarrow> ('s, unit) handler" where
  "svc_ResumeQueue D name c s =
     (case d_ResumeQueue D name c s of
        (Inl e, s') \<Rightarrow> (Inl (internal_error e), s') | (Inr _, s') \<Rightarrow> (Inr (), s'))"

definition stats_total :: "queue_stats \<Rightarrow> nat" where
  "stats_total st = st_pending st + st_scheduled st + st_available st + st_running st
     + st_retryable st + st_cancelled st + st_discarded st + st_completed st"

lemma count_of_group:
  "count_of (group_count k xs) v = length (filter (\<lambda>r. k r = v) xs)"
  by (simp add: count_of_def group_count_default)

text \<open>The eight counters of a queue cover its jobs.\<close>

lemma stats_total_group:
  "stats_total (countsToStats (group_count (\<lambda>r. status_name (j_status r)) xs)) = length (xs :: job list)"
proof -
  have "(\<Sum>v\<leftarrow>map status_name all_statuses. length (filter (\<lambda>r. status_name (j_status r) = v) xs))
      = length xs"
    by (rule length_filter_partition)
      (auto simp: distinct_map inj_on_def simp del: status_name.simps)
  then show ?thesis
    by (simp add: stats_total_def countsToStats_def count_of_group all_statuses_def)
qed

end
