(* ===== verification/Web.thy ===== *)
theory Web
  imports Auth Queue_Service
begin

text \<open>
  \<open>internal/web/web.go\<close>: the handlers of the dashboard, up to the data they hand to the HTML
  templates. Instants are shown through \<open>fmt\<close>, the local date-time format.
\<close>

definition jobsPageSize :: nat where
  "jobsPageSize = 50"

definition allStatuses :: "string list" where
  "allStatuses = map status_name all_statuses"

definition validStatus :: "string \<Rightarrow> bool" where
  "validStatus s \<longleftrightarrow> s \<in> set allStatuses"

record job_list_row =
  jl_ID :: string
  jl_Queue :: string
  jl_Kind :: string
  jl_Status :: status
  jl_CreatedAt :: string

record page_data =
  pd_User :: user_row
  pd_Jobs :: "job_list_row list"
  pd_StatusFilter :: string
  pd_StatusCounts :: "(string \<rightharpoonup> nat) option"
  pd_StatusTotal :: int
  pd_Paged :: bool
  pd_NextCursor :: string

datatype index_page = PageNotFound | LoginPage | JobsPage page_data

definition currentUser ::
  "(string \<Rightarrow> string) \<Rightarrow> request_cookies \<Rightarrow> call_env \<Rightarrow> database \<Rightarrow> user_row option" where
  "currentUser mac cookies c s =
     (let userID = session_UserID mac cookies in
      if userID = [] then None
      else (case fst (GetUserByID userID c s) of Inl _ \<Rightarrow> None | Inr u \<Rightarrow> Some u))"

definition to_list_row :: "(int \<Rightarrow> string) \<Rightarrow> job_row \<Rightarrow> job_list_row" where
  "to_list_row fmt j =
     \<lparr>jl_ID = j_id j, jl_Queue = j_queue j, jl_Kind = j_kind j, jl_Status = j_status j,
      jl_CreatedAt = fmt (j_created_at j)\<rparr>"

text \<open>The sum over the status map (its keys are statuses), in an \<open>int32\<close>.\<close>

definition status_total :: "(string \<rightharpoonup> nat) \<Rightarrow> int" where
  "status_total counts = wrap32 (\<Sum>k\<leftarrow>allStatuses. int (count_of counts k))"

text \<open>\<open>cu\<close>, \<open>cl\<close>, \<open>cc\<close> are the environments of the three database calls of the handler.\<close>

definition web_Index ::
  "database driver \<Rightarrow> (string \<Rightarrow> string) \<Rightarrow> (int \<Rightarrow> string) \<Rightarrow> string \<Rightarrow> request_cookies \<Rightarrow> string \<Rightarrow>
     string \<Rightarrow> call_env \<Rightarrow> call_env \<Rightarrow> call_env \<Rightarrow> database \<Rightarrow> index_page" where
  "web_Index D mac fmt path cookies q_status q_after cu cl cc s =
     (if path \<noteq> ''/'' then PageNotFound
      else (case currentUser mac cookies cu s of None \<Rightarrow> LoginPage
        | Some user \<Rightarrow>
          (let status = (if validStatus q_status then q_status else []);
               data = \<lparr>pd_User = user, pd_Jobs = [], pd_StatusFilter = status,
                       pd_StatusCounts = None, pd_StatusTotal = 0,
                       pd_Paged = (q_after \<noteq> []), pd_NextCursor = []\<rparr>;
               data1 = (case fst (d_ListJobs D [] status (int jobsPageSize + 1) q_after cl s) of
                   Inl _ \<Rightarrow> data
                 | Inr rows \<Rightarrow>
                     if jobsPageSize < length rows then
                       (let page = take jobsPageSize rows in
                        data\<lparr>pd_NextCursor := j_id (last page), pd_Jobs := map (to_list_row fmt) page\<rparr>)
                     else data\<lparr>pd_Jobs := map (to_list_row fmt) rows\<rparr>)
           in JobsPage
                (case fst (d_JobCountsByStatus D cc s) of
                   Inl _ \<Rightarrow> data1
                 | Inr counts \<Rightarrow>
                     data1\<lparr>pd_StatusCounts := Some counts, pd_StatusTotal := status_total counts\<rparr>))))"

subsection \<open>Queues and workers\<close>

definition web_QueuesPage ::
  "database driver \<Rightarrow> (string \<Rightarrow> string) \<Rightarrow> request_cookies \<Rightarrow> call_env \<Rightarrow> call_env \<Rightarrow> database \<Rightarrow>
     (proto_queue list) http_response" where
  "web_QueuesPage D mac cookies cu c s =
     (case currentUser mac cookies cu s of None \<Rightarrow> HttpRedirect 303 ''/''
      | Some _ \<Rightarrow> HttpBody 200
          (case fst (d_ListQueues D c s) of Inl _ \<Rightarrow> [] | Inr qs \<Rightarrow> map summary_to_queue qs))"

text \<open>The pages that only need a signed-in user: their lists are filled in by scripts.\<close>

definition requireUser ::
  "(string \<Rightarrow> string) \<Rightarrow> request_cookies \<Rightarrow> call_env \<Rightarrow> database \<Rightarrow> 'b http_response + user_row" where
  "requireUser mac cookies cu s =
     (case currentUser mac cookies cu s of None \<Rightarrow> Inl (HttpRedirect 303 ''/'') | Some u \<Rightarrow> Inr u)"

definition web_WorkersPage ::
  "(string \<Rightarrow> string) \<Rightarrow> request_cookies \<Rightarrow> call_env \<Rightarrow> database \<Rightarrow> user_row http_response" where
  "web_WorkersPage mac cookies cu s =
     (case requireUser mac cookies cu s of Inl r \<Rightarrow> r | Inr u \<Rightarrow> HttpBody 200 u)"

definition web_KeysPage ::
  "(string \<Rightarrow> string) \<Rightarrow> request_cookies \<Rightarrow> call_env \<Rightarrow> database \<Rightarrow> user_row http_response" where
  "web_KeysPage mac cookies cu s =
     (case requireUser mac cookies cu s of Inl r \<Rightarrow> r | Inr u \<Rightarrow> HttpBody 200 u)"

record worker_json =
  wj_ID :: string
  wj_Name :: string
  wj_CreatedBy :: string
  wj_CreatedAt :: string
  wj_LastSeenAt :: string
  wj_Active :: bool

text \<open>The row of one worker; \<open>now\<close> is the handler's clock.\<close>

definition worker_to_json :: "dialect \<Rightarrow> (int \<Rightarrow> string) \<Rightarrow> int \<Rightarrow> worker_summary \<Rightarrow> worker_json" where
  "worker_to_json d fmt now w =
     (let r = \<lparr>wj_ID = ws_ID w, wj_Name = ws_Name w, wj_CreatedBy = ws_CreatedBy w,
               wj_CreatedAt = fmt (db_time d (ws_CreatedAt w)), wj_LastSeenAt = [], wj_Active = False\<rparr> in
      case ws_LastSeenAt w of None \<Rightarrow> r
      | Some t \<Rightarrow> r\<lparr>wj_LastSeenAt := fmt (db_time d t),
                   wj_Active := (now - db_time d t < 90 * 1000000000)\<rparr>)"

definition worker_row_json :: "worker_json \<Rightarrow> json" where
  "worker_row_json w =
     JObj [(''id'', JStr (wj_ID w)), (''name'', JStr (wj_Name w)), (''created_by'', JStr (wj_CreatedBy w)),
       (''created_at'', JStr (wj_CreatedAt w)), (''last_seen_at'', JStr (wj_LastSeenAt w)),
       (''active'', JBool (wj_Active w))]"

definition web_WorkersJSON ::
  "dialect \<Rightarrow> (string \<Rightarrow> string) \<Rightarrow> (int \<Rightarrow> string) \<Rightarrow> int \<Rightarrow> request_cookies \<Rightarrow> call_env \<Rightarrow> database \<Rightarrow>
     string http_response" where
  "web_WorkersJSON d mac fmt now cookies c s =
     (if session_UserID mac cookies = [] then HttpError 401 ''unauthorized''
      else (case fst (ListWorkers c s) of Inl e \<Rightarrow> HttpError 500 e
        | Inr ws \<Rightarrow>
            writeJSON 200 (Some (JArr (map (\<lambda>w. worker_row_json (worker_to_json d fmt now w)) ws)))))"

text \<open>The answer is a map, so its members are written in the order of their names.\<close>

definition worker_key_json :: "string \<Rightarrow> string \<Rightarrow> string \<Rightarrow> json" where
  "worker_key_json workerID name plaintext =
     JObj [(''id'', JStr workerID), (''key'', JStr plaintext), (''name'', JStr name)]"

definition web_CreateWorker ::
  "dialect \<Rightarrow> (string \<Rightarrow> string) \<Rightarrow> (string \<Rightarrow> string) \<Rightarrow> string option \<Rightarrow> request_cookies \<Rightarrow>
     string \<Rightarrow> call_env \<Rightarrow> database \<Rightarrow> string http_response \<times> database" where
  "web_CreateWorker d mac sha rnd cookies body c s =
     (let userID = session_UserID mac cookies in
      if userID = [] then (HttpError 401 ''unauthorized'', s)
      else (case decode_string_body ''name'' body of None \<Rightarrow> (HttpError 400 ''invalid body'', s)
        | Some raw \<Rightarrow>
            (let name = trim_space raw in
             if name = [] then (HttpError 400 ''name required'', s)
             else (case CreateWorkerKey d sha rnd userID name c s of
                     (Inl e, s1) \<Rightarrow> (HttpError 500 e, s1)
                   | (Inr (workerID, plaintext), s1) \<Rightarrow>
                       (writeJSON 201 (Some (worker_key_json workerID name plaintext)), s1)))))"

definition web_DeleteWorker ::
  "(string \<Rightarrow> string) \<Rightarrow> request_cookies \<Rightarrow> string \<Rightarrow> call_env \<Rightarrow> database \<Rightarrow>
     string http_response \<times> database" where
  "web_DeleteWorker mac cookies workerID c s =
     (let userID = session_UserID mac cookies in
      if userID = [] then (HttpError 401 ''unauthorized'', s)
      else if workerID = [] then (HttpError 400 ''invalid id'', s)
      else (case DeleteWorker userID workerID c s of
              (Inl e, s1) \<Rightarrow> (HttpError 404 e, s1) | (Inr _, s1) \<Rightarrow> (HttpNoContent, s1)))"

subsection \<open>The page of one job\<close>

record job_error_entry =
  je_At :: int
  je_Attempt :: int
  je_Error :: string

text \<open>Decoding into \<open>struct { At time.Time; Attempt int; Error string }\<close>, as \<open>JobPage\<close> does.\<close>

fun decode_page_fields ::
  "(string \<Rightarrow> int option) \<Rightarrow> job_error_entry \<Rightarrow> (string \<times> json) list \<Rightarrow> job_error_entry option" where
  "decode_page_fields pt acc [] = Some acc"
| "decode_page_fields pt acc ((k, v) # fs) =
     (if to_lower k = ''at'' then
        (case v of JNull \<Rightarrow> decode_page_fields pt acc fs
         | JStr t \<Rightarrow> (case pt t of None \<Rightarrow> None
             | Some n \<Rightarrow> decode_page_fields pt (acc\<lparr>je_At := n\<rparr>) fs)
         | _ \<Rightarrow> None)
      else if to_lower k = ''attempt'' then
        (case v of JNull \<Rightarrow> decode_page_fields pt acc fs
         | JInt n \<Rightarrow> if in_int64 n then decode_page_fields pt (acc\<lparr>je_Attempt := n\<rparr>) fs else None
         | _ \<Rightarrow> None)
      else if to_lower k = ''error'' then
        (case v of JNull \<Rightarrow> decode_page_fields pt acc fs
         | JStr t \<Rightarrow> decode_page_fields pt (acc\<lparr>je_Error := t\<rparr>) fs
         | _ \<Rightarrow> None)
      else decode_page_fields pt acc fs)"

definition decode_page_error :: "(string \<Rightarrow> int option) \<Rightarrow> json \<Rightarrow> job_error_entry option" where
  "decode_page_error pt e =
     (let z = \<lparr>je_At = zero_time, je_Attempt = 0, je_Error = []\<rparr> in
      case e of JNull \<Rightarrow> Some z | JObj fs \<Rightarrow> decode_page_fields pt z fs | _ \<Rightarrow> None)"

record job_page_data =
  jp_ID :: string
  jp_Status :: status
  jp_Kind :: string
  jp_Queue :: string
  jp_Progress :: int
  jp_Attempt :: int
  jp_CreatedAt :: string
  jp_AttemptedAt :: string
  jp_FinalizedAt :: string
  jp_Result :: string
  jp_Payload :: string
  jp_Errors :: "(string \<times> int \<times> string) list"

definition page_errors :: "(string \<Rightarrow> int option) \<Rightarrow> (int \<Rightarrow> string) \<Rightarrow> json list \<Rightarrow> (string \<times> int \<times> string) list" where
  "page_errors pt fmt errs =
     (case decode_all (decode_page_error pt) errs of None \<Rightarrow> []
      | Some es \<Rightarrow> map (\<lambda>e. (fmt (je_At e), wrap32 (je_Attempt e), je_Error e)) es)"

text \<open>\<open>prettyJSON\<close> of the bytes of a column: what does not decode is shown as it is. \<open>ft\<close> is the text of
  a float (\<open>as_any\<close>); what was decoded always marshals again.\<close>

definition prettyJSON :: "(string \<Rightarrow> string option) \<Rightarrow> string \<Rightarrow> string" where
  "prettyJSON ft b =
     (case read_json b of None \<Rightarrow> b
      | Some v \<Rightarrow> (case as_any ft v of None \<Rightarrow> b | Some w \<Rightarrow> json_text indented w))"

text \<open>\<open>raw\<close> gives the bytes that the database returns for a stored document; a NULL gives none.\<close>

definition page_document :: "(string \<Rightarrow> string option) \<Rightarrow> string \<Rightarrow> string" where
  "page_document ft b = (if b \<noteq> [] then prettyJSON ft b else [])"

definition web_JobPage ::
  "database driver \<Rightarrow> (string \<Rightarrow> string) \<Rightarrow> (string \<Rightarrow> int option) \<Rightarrow> (int \<Rightarrow> string) \<Rightarrow>
     (string \<Rightarrow> string option) \<Rightarrow> (json \<Rightarrow> string) \<Rightarrow> request_cookies \<Rightarrow>
     string \<Rightarrow> call_env \<Rightarrow> call_env \<Rightarrow> database \<Rightarrow> job_page_data http_response" where
  "web_JobPage D mac pt fmt ft raw cookies ident cu c s =
     (case currentUser mac cookies cu s of None \<Rightarrow> HttpRedirect 303 ''/''
      | Some _ \<Rightarrow>
        (case fst (d_GetJob D ident c s) of
           Inl _ \<Rightarrow> HttpError 404 ''404 page not found''
         | Inr row \<Rightarrow> HttpBody 200
             \<lparr>jp_ID = j_id row, jp_Status = j_status row, jp_Kind = j_kind row,
              jp_Queue = j_queue row, jp_Progress = wrap32 (j_progress row),
              jp_Attempt = wrap32 (j_attempt row), jp_CreatedAt = fmt (j_created_at row),
              jp_AttemptedAt = (case j_attempted_at row of None \<Rightarrow> [] | Some t \<Rightarrow> fmt t),
              jp_FinalizedAt = (case j_finalized_at row of None \<Rightarrow> [] | Some t \<Rightarrow> fmt t),
              jp_Result = page_document ft (case j_result row of None \<Rightarrow> [] | Some v \<Rightarrow> raw v),
              jp_Payload = page_document ft (raw (j_payload row)),
              jp_Errors = page_errors pt fmt (j_errors row)\<rparr>))"

subsection \<open>Scheduler and queue control\<close>

definition web_RunScheduler :: "'s driver \<Rightarrow> call_env \<Rightarrow> 's \<Rightarrow> string http_response \<times> 's" where
  "web_RunScheduler D c s =
     (case d_PromoteScheduledJobs D 1000 c s of
        (Inl e, s1) \<Rightarrow> (HttpError 500 (error_text e), s1)
      | (Inr n, s1) \<Rightarrow>
          (HttpBody 200 ([CHR 0x7B, CHR 0x22] @ ''promoted'' @ [CHR 0x22, CHR '':''] @ show_nat n @ [CHR 0x7D]), s1))"

definition web_PauseQueue ::
  "'s driver \<Rightarrow> (string \<Rightarrow> string) \<Rightarrow> request_cookies \<Rightarrow> string \<Rightarrow> call_env \<Rightarrow> 's \<Rightarrow>
     string http_response \<times> 's" where
  "web_PauseQueue D mac cookies name c s =
     (if session_UserID mac cookies = [] then (HttpError 401 ''unauthorized'', s)
      else (case d_PauseQueue D name c s of
              (Inl e, s1) \<Rightarrow> (HttpError 500 (error_text e), s1)
            | (Inr _, s1) \<Rightarrow> (HttpRedirect 303 ''/queues'', s1)))"

definition web_ResumeQueue ::
  "'s driver \<Rightarrow> (string \<Rightarrow> string) \<Rightarrow> request_cookies \<Rightarrow> string \<Rightarrow> call_env \<Rightarrow> 's \<Rightarrow>
     string http_response \<times> 's" where
  "web_ResumeQueue D mac cookies name c s =
     (if session_UserID mac cookies = [] then (HttpError 401 ''unauthorized'', s)
      else (case d_ResumeQueue D name c s of
              (Inl e, s1) \<Rightarrow> (HttpError 500 (error_text e), s1)
            | (Inr _, s1) \<Rightarrow> (HttpRedirect 303 ''/queues'', s1)))"

subsection \<open>Rendering\<close>

text \<open>The pages that \<open>NewHandler\<close> composes with the layout, as the files that each is parsed from.
  \<open>ex\<close> is the template engine: for files and data, what it writes and the error that ends it.\<close>

definition page_names :: "string list" where
  "page_names = [''jobs'', ''queues'', ''workers'', ''keys'', ''job'']"

definition NewHandler_pages :: "string \<Rightarrow> string list option" where
  "NewHandler_pages name =
     (if name \<in> set page_names
      then Some [''templates/layout.html'', ''templates/'' @ name @ ''.html''] else None)"

text \<open>An error after the first byte cannot change the status any more: its text follows.\<close>

definition executed :: "string \<times> string option \<Rightarrow> string http_response" where
  "executed x =
     (case x of (out, None) \<Rightarrow> HttpBody 200 out
      | (out, Some e) \<Rightarrow> if out = [] then HttpError 500 e else HttpBody 200 (out @ e @ [CHR 0x0A]))"

definition renderPage ::
  "(string list \<Rightarrow> 'd \<Rightarrow> string \<times> string option) \<Rightarrow> string \<Rightarrow> 'd \<Rightarrow> string http_response" where
  "renderPage ex name data =
     (case NewHandler_pages name of None \<Rightarrow> HttpError 500 ''unknown page''
      | Some files \<Rightarrow> executed (ex files data))"

definition renderStandalone ::
  "(string list \<Rightarrow> 'd \<Rightarrow> string \<times> string option) \<Rightarrow> string \<Rightarrow> 'd \<Rightarrow> string http_response" where
  "renderStandalone ex name data = executed (ex [''templates/'' @ name] data)"

end
