(* ===== verification/Driver_Pg.thy ===== *)
theory Driver_Pg
  imports Driver_Iface
begin

text \<open>
  The PostgreSQL driver, \<open>internal/service/driver_pg.go\<close>: one definition per method, its SQL
  written with the table operations of the prelude. Instants are in nanoseconds. What belongs to
  pgx and the server is a parameter: \<open>pg_ts\<close>, the \<open>timestamptz\<close> that a Go time is stored as,
  and \<open>pg_int4\<close>, whether an integer is accepted as an \<open>::int\<close> argument.
\<close>

record pg_cfg =
  pg_lockDuration :: int
  pg_ts :: "int \<Rightarrow> int"
  pg_int4 :: "int \<Rightarrow> bool"

abbreviation db_fail :: "string \<Rightarrow> 's \<Rightarrow> ('s, go_error, 'a) call_result" where
  "db_fail e s \<equiv> (Inl (DBError e), s)"

definition int4_error :: string where
  "int4_error = ''value is out of range for int4''"

definition unique_error :: string where
  "unique_error = ''duplicate key value violates unique constraint''"

definition check_error :: string where
  "check_error = ''violates check constraint''"

text \<open>\<open>d.Milliseconds()\<close> of the lock duration, as an interval.\<close>

definition pg_lock_interval :: "pg_cfg \<Rightarrow> int" where
  "pg_lock_interval cfg = go_div (pg_lockDuration cfg) 1000000 * 1000000"

subsection \<open>Creating a job\<close>

definition pg_upsert_queue :: "int \<Rightarrow> string \<Rightarrow> queue_row list \<Rightarrow> queue_row list" where
  "pg_upsert_queue now name qs =
     (if name \<in> q_name ` set qs
      then update_where (\<lambda>q. q_name q = name) (\<lambda>q. q\<lparr>q_updated_at := now\<rparr>) qs
      else qs @ [\<lparr>q_name = name, q_paused_at = None, q_created_at = now, q_updated_at = now\<rparr>])"

definition pg_create_status :: "call_env \<Rightarrow> create_opts \<Rightarrow> int \<Rightarrow> status" where
  "pg_create_status c opts scheduled =
     (if o_Pending opts then Pending else if clock c 1 < scheduled then Scheduled else Available)"

definition pg_new_job :: "pg_cfg \<Rightarrow> call_env \<Rightarrow> create_opts \<Rightarrow> string \<Rightarrow> job" where
  "pg_new_job cfg c opts ident =
     (let scheduled = (case o_ScheduledAt opts of Some t \<Rightarrow> t | None \<Rightarrow> clock c 0) in
      \<lparr>j_id = ident, j_queue = o_Queue opts, j_kind = o_Kind opts,
       j_status = pg_create_status c opts scheduled,
       j_priority = (if o_Priority opts = 0 then 1 else o_Priority opts),
       j_attempt = 0,
       j_max_attempts = (if o_MaxAttempts opts = 0 then 25 else o_MaxAttempts opts),
       j_progress = 0,
       j_payload = o_PayloadJSON opts,
       j_metadata = (case o_Metadata opts of None \<Rightarrow> JObj [] | Some m \<Rightarrow> m),
       j_result = None, j_errors = [],
       j_created_at = db_now c 1, j_scheduled_at = pg_ts cfg scheduled,
       j_attempted_at = None, j_finalized_at = None,
       j_attempted_by = [], j_lock_expires_at = None\<rparr>)"

definition pg_CreateJob :: "pg_cfg \<Rightarrow> create_opts \<Rightarrow> (database, job_row) op" where
  "pg_CreateJob cfg opts c s =
     (case fault c 0 of Some e \<Rightarrow> db_fail e s
      | None \<Rightarrow>
        (let s1 = s\<lparr>queues := pg_upsert_queue (db_now c 0) (o_Queue opts) (queues s)\<rparr> in
         case fresh_ulid c of Inl e \<Rightarrow> db_fail e s1
         | Inr u \<Rightarrow>
           (case fault c 1 of Some e \<Rightarrow> db_fail e s1
            | None \<Rightarrow>
              (let r = pg_new_job cfg c opts (to_lower u) in
               if j_id r \<in> j_id ` set (jobs s1) then db_fail unique_error s1
               else (Inr (job_row.truncate r), s1\<lparr>jobs := jobs s1 @ [r]\<rparr>)))))"

subsection \<open>Claiming\<close>

definition pg_paused :: "string \<Rightarrow> queue_row list \<Rightarrow> bool" where
  "pg_paused queue qs \<longleftrightarrow> (\<exists>q \<in> set qs. q_name q = queue \<and> q_paused_at q \<noteq> None)"

definition claim_key :: "job \<Rightarrow> int \<times> int \<times> string" where
  "claim_key r = (j_priority r, j_scheduled_at r, j_id r)"

definition pg_claimable :: "call_env \<Rightarrow> string \<Rightarrow> job \<Rightarrow> bool" where
  "pg_claimable c queue r \<longleftrightarrow> j_queue r = queue \<and> j_status r = Available
     \<and> j_scheduled_at r \<le> db_now c 1 \<and> \<not> row_locked c (j_id r)"

definition pg_claim_set :: "pg_cfg \<Rightarrow> int \<Rightarrow> string \<Rightarrow> job \<Rightarrow> job" where
  "pg_claim_set cfg now worker r =
     r\<lparr>j_status := Running,
       j_attempt := j_attempt r + 1,
       j_attempted_at := Some now,
       j_attempted_by := j_attempted_by r @ [worker],
       j_lock_expires_at := Some (now + pg_lock_interval cfg)\<rparr>"

definition pg_touch_worker :: "int \<Rightarrow> string \<Rightarrow> worker_row list \<Rightarrow> worker_row list" where
  "pg_touch_worker now worker ws =
     update_where (\<lambda>w. w_id w = worker) (\<lambda>w. w\<lparr>w_last_seen_at := Some now\<rparr>) ws"

definition pg_ClaimJob :: "pg_cfg \<Rightarrow> string \<Rightarrow> string \<Rightarrow> (database, job_row option) op" where
  "pg_ClaimJob cfg queue worker c s =
     (case fault c 0 of Some e \<Rightarrow> db_fail e s
      | None \<Rightarrow>
        (let s1 = s\<lparr>workers := pg_touch_worker (db_now c 0) worker (workers s)\<rparr> in
         case fault c 1 of Some e \<Rightarrow> db_fail e s1
         | None \<Rightarrow>
           if pg_paused queue (queues s1) then (Inr None, s1)
           else
             (case select_limit (pg_claimable c queue) claim_key 1 (jobs s1) of
                [] \<Rightarrow> (Inr None, s1)
              | r # _ \<Rightarrow>
                (Inr (Some (job_row.truncate (pg_claim_set cfg (db_now c 1) worker r))),
                 s1\<lparr>jobs := update_where (\<lambda>x. j_id x = j_id r)
                      (pg_claim_set cfg (db_now c 1) worker) (jobs s1)\<rparr>))))"

subsection \<open>Ending an attempt\<close>

text \<open>\<open>UPDATE jobs SET f WHERE P\<close>, with \<open>ErrWrongState\<close> when no row matched.\<close>

definition pg_exec_update :: "(job \<Rightarrow> bool) \<Rightarrow> (job \<Rightarrow> job) \<Rightarrow> (database, unit) op" where
  "pg_exec_update P f c s =
     (case fault c 0 of Some e \<Rightarrow> db_fail e s
      | None \<Rightarrow>
        (if rows_affected P (jobs s) = 0 then (Inl ErrWrongState, s)
         else (Inr (), s\<lparr>jobs := update_where P f (jobs s)\<rparr>)))"

definition is_running :: "string \<Rightarrow> job \<Rightarrow> bool" where
  "is_running i r \<longleftrightarrow> j_id r = i \<and> j_status r = Running"

definition pg_CompleteJob :: "string \<Rightarrow> json \<Rightarrow> (database, unit) op" where
  "pg_CompleteJob i resultJSON c s =
     pg_exec_update (is_running i)
       (\<lambda>r. r\<lparr>j_status := Completed, j_finalized_at := Some (db_now c 0), j_result := Some resultJSON\<rparr>)
       c s"

text \<open>\<open>jsonb_build_object('at', NOW(), 'message', m)\<close>.\<close>

definition pg_error_entry :: "call_env \<Rightarrow> string \<Rightarrow> json" where
  "pg_error_entry c m = JObj [(''at'', JStr (now_text c)), (''message'', JStr m)]"

definition pg_fail_set :: "call_env \<Rightarrow> string \<Rightarrow> int \<Rightarrow> job \<Rightarrow> job" where
  "pg_fail_set c m backoffMs r =
     (if j_max_attempts r \<le> j_attempt r
      then r\<lparr>j_status := Discarded, j_errors := j_errors r @ [pg_error_entry c m],
             j_finalized_at := Some (db_now c 0)\<rparr>
      else r\<lparr>j_status := Retryable, j_scheduled_at := db_now c 0 + backoffMs * 1000000,
             j_errors := j_errors r @ [pg_error_entry c m], j_finalized_at := None\<rparr>)"

definition pg_FailJob :: "pg_cfg \<Rightarrow> string \<Rightarrow> string \<Rightarrow> int \<Rightarrow> (database, unit) op" where
  "pg_FailJob cfg i errMsg backoffMs c s =
     (if \<not> pg_int4 cfg backoffMs then db_fail int4_error s
      else pg_exec_update (is_running i) (pg_fail_set c errMsg backoffMs) c s)"

definition pg_heartbeat_set :: "pg_cfg \<Rightarrow> call_env \<Rightarrow> int option \<Rightarrow> job \<Rightarrow> job" where
  "pg_heartbeat_set cfg c progress r =
     (let r1 = r\<lparr>j_lock_expires_at := Some (db_now c 0 + pg_lock_interval cfg)\<rparr> in
      case progress of None \<Rightarrow> r1 | Some p \<Rightarrow> r1\<lparr>j_progress := p\<rparr>)"

text \<open>The table's \<open>CHECK (progress >= 0 AND progress <= 100)\<close> refuses the update of a matching
  row.\<close>

definition progress_ok :: "int option \<Rightarrow> bool" where
  "progress_ok progress = (case progress of None \<Rightarrow> True | Some p \<Rightarrow> 0 \<le> p \<and> p \<le> 100)"

definition pg_HeartbeatJob :: "pg_cfg \<Rightarrow> string \<Rightarrow> int option \<Rightarrow> (database, unit) op" where
  "pg_HeartbeatJob cfg i progress c s =
     (if fault c 0 = None \<and> \<not> progress_ok progress \<and> rows_affected (is_running i) (jobs s) \<noteq> 0
      then db_fail check_error s
      else pg_exec_update (is_running i) (pg_heartbeat_set cfg c progress) c s)"

subsection \<open>Expired locks, manual and scheduled promotion, cancelling\<close>

definition pg_expired :: "call_env \<Rightarrow> job \<Rightarrow> bool" where
  "pg_expired c r \<longleftrightarrow> j_status r = Running
     \<and> (case j_lock_expires_at r of None \<Rightarrow> False | Some l \<Rightarrow> l < db_now c 0)
     \<and> \<not> row_locked c (j_id r)"

definition lock_key :: "job \<Rightarrow> int" where
  "lock_key r = (case j_lock_expires_at r of None \<Rightarrow> 0 | Some l \<Rightarrow> l)"

definition pg_expire_set :: "call_env \<Rightarrow> job \<Rightarrow> job" where
  "pg_expire_set c r =
     (if j_max_attempts r \<le> j_attempt r
      then r\<lparr>j_status := Discarded, j_errors := j_errors r @ [pg_error_entry c ''job lock expired''],
             j_finalized_at := Some (db_now c 0), j_lock_expires_at := None\<rparr>
      else r\<lparr>j_status := Retryable, j_scheduled_at := db_now c 0,
             j_errors := j_errors r @ [pg_error_entry c ''job lock expired''],
             j_finalized_at := None, j_lock_expires_at := None\<rparr>)"

definition default_limit :: "int \<Rightarrow> int \<Rightarrow> nat" where
  "default_limit dflt limit = nat (if limit \<le> 0 then dflt else limit)"

text \<open>\<open>UPDATE jobs SET f WHERE id IN (SELECT id .. WHERE P ORDER BY k LIMIT n)\<close>, with the
  number of rows updated.\<close>

definition pg_update_selected ::
  "(job \<Rightarrow> bool) \<Rightarrow> (job \<Rightarrow> int) \<Rightarrow> nat \<Rightarrow> (job \<Rightarrow> job) \<Rightarrow> (database, nat) op" where
  "pg_update_selected P k n f c s =
     (case fault c 0 of Some e \<Rightarrow> db_fail e s
      | None \<Rightarrow>
        (let ids = j_id ` set (select_limit P k n (jobs s)) in
         (Inr (rows_affected (\<lambda>r. j_id r \<in> ids) (jobs s)),
          s\<lparr>jobs := update_where (\<lambda>r. j_id r \<in> ids) f (jobs s)\<rparr>)))"

definition pg_FailExpiredJobs :: "int \<Rightarrow> (database, nat) op" where
  "pg_FailExpiredJobs limit c s =
     pg_update_selected (pg_expired c) lock_key (default_limit 1000 limit) (pg_expire_set c) c s"

definition pg_PromoteJob :: "string \<Rightarrow> (database, unit) op" where
  "pg_PromoteJob i c s =
     pg_exec_update (\<lambda>r. j_id r = i \<and> j_status r = Pending)
       (\<lambda>r. r\<lparr>j_status := (if db_now c 0 < j_scheduled_at r then Scheduled else Available)\<rparr>) c s"

definition pg_CancelJob :: "string \<Rightarrow> (database, unit) op" where
  "pg_CancelJob i c s =
     pg_exec_update (\<lambda>r. j_id r = i \<and> j_status r \<notin> {Completed, Discarded, Cancelled})
       (\<lambda>r. r\<lparr>j_status := Cancelled,
              j_finalized_at := (case j_finalized_at r of None \<Rightarrow> Some (db_now c 0) | Some u \<Rightarrow> Some u)\<rparr>)
       c s"

definition pg_due :: "call_env \<Rightarrow> job \<Rightarrow> bool" where
  "pg_due c r \<longleftrightarrow> (j_status r = Scheduled \<or> j_status r = Retryable)
     \<and> j_scheduled_at r \<le> db_now c 0 \<and> \<not> row_locked c (j_id r)"

definition pg_PromoteScheduledJobs :: "int \<Rightarrow> (database, nat) op" where
  "pg_PromoteScheduledJobs limit c s =
     pg_update_selected (pg_due c) j_scheduled_at (default_limit 1000 limit)
       (\<lambda>r. r\<lparr>j_status := Available\<rparr>) c s"

subsection \<open>Reading\<close>

definition pg_GetJob :: "string \<Rightarrow> (database, job_row) op" where
  "pg_GetJob i c s =
     ((case fault c 0 of Some e \<Rightarrow> Inl (DBError e)
       | None \<Rightarrow> (case lookup_job i (jobs s) of None \<Rightarrow> Inl ErrNotFound
                  | Some r \<Rightarrow> Inr (job_row.truncate r))), s)"

definition pg_GetJobStatus :: "string \<Rightarrow> (database, job_status_row) op" where
  "pg_GetJobStatus i c s =
     ((case fault c 0 of Some e \<Rightarrow> Inl (DBError e)
       | None \<Rightarrow> (case lookup_job i (jobs s) of None \<Rightarrow> Inl ErrNotFound
                  | Some r \<Rightarrow> Inr \<lparr>s_id = j_id r, s_status = j_status r, s_progress = j_progress r,
                                   s_errors = j_errors r\<rparr>)), s)"

definition queue_counts :: "string \<Rightarrow> job list \<Rightarrow> (string \<rightharpoonup> nat)" where
  "queue_counts name xs =
     group_count (\<lambda>r. status_name (j_status r)) (filter (\<lambda>r. j_queue r = name) xs)"

text \<open>The error of the second query is dropped: the queue then counts as not paused.\<close>

definition pg_QueueInfo :: "string \<Rightarrow> (database, queue_info) op" where
  "pg_QueueInfo name c s =
     ((case fault c 0 of Some e \<Rightarrow> Inl (DBError e)
       | None \<Rightarrow>
         Inr \<lparr>qi_CountsByStatus = queue_counts name (jobs s),
              qi_Paused = (case fault c 1 of Some _ \<Rightarrow> False
                | None \<Rightarrow> (case find_key q_name name (queues s) of None \<Rightarrow> False
                          | Some q \<Rightarrow> q_paused_at q \<noteq> None))\<rparr>), s)"

text \<open>The second loop of \<open>ListQueues\<close>: one query per queue, \<open>n\<close> statements so far.\<close>

fun fill_counts :: "call_env \<Rightarrow> nat \<Rightarrow> job list \<Rightarrow> queue_row list \<Rightarrow> go_error + queue_summary list" where
  "fill_counts c n xs [] = Inr []"
| "fill_counts c n xs (q # qs) =
     (case fault c n of Some e \<Rightarrow> Inl (DBError e)
      | None \<Rightarrow> (case fill_counts c (Suc n) xs qs of Inl e \<Rightarrow> Inl e
        | Inr rest \<Rightarrow> Inr (\<lparr>qs_Name = q_name q, qs_Paused = (q_paused_at q \<noteq> None),
            qs_CountsByStatus = queue_counts (q_name q) xs\<rparr> # rest)))"

definition pg_ListQueues :: "(database, queue_summary list) op" where
  "pg_ListQueues c s =
     ((case fault c 0 of Some e \<Rightarrow> Inl (DBError e)
       | None \<Rightarrow> fill_counts c 1 (jobs s) (sort_key q_name (queues s))), s)"

definition pg_PauseQueue :: "string \<Rightarrow> (database, unit) op" where
  "pg_PauseQueue name c s =
     (case fault c 0 of Some e \<Rightarrow> db_fail e s
      | None \<Rightarrow> (Inr (), s\<lparr>queues :=
          (let now = db_now c 0 in
           if name \<in> q_name ` set (queues s)
           then update_where (\<lambda>q. q_name q = name)
                  (\<lambda>q. q\<lparr>q_paused_at := Some now, q_updated_at := now\<rparr>) (queues s)
           else queues s @ [\<lparr>q_name = name, q_paused_at = Some now, q_created_at = now,
                             q_updated_at = now\<rparr>])\<rparr>))"

definition pg_ResumeQueue :: "string \<Rightarrow> (database, unit) op" where
  "pg_ResumeQueue name c s =
     (case fault c 0 of Some e \<Rightarrow> db_fail e s
      | None \<Rightarrow> (Inr (), s\<lparr>queues := update_where (\<lambda>q. q_name q = name)
          (\<lambda>q. q\<lparr>q_paused_at := None, q_updated_at := db_now c 0\<rparr>) (queues s)\<rparr>))"

definition pg_ListJobs :: "string \<Rightarrow> string \<Rightarrow> int \<Rightarrow> string \<Rightarrow> (database, job_row list) op" where
  "pg_ListJobs queue status limit afterID c s =
     ((case fault c 0 of Some e \<Rightarrow> Inl (DBError e)
       | None \<Rightarrow> Inr (map job_row.truncate
           (select_desc (list_cond queue status afterID) j_id (default_limit 50 limit) (jobs s)))), s)"

definition pg_JobCountsByStatus :: "(database, string \<rightharpoonup> nat) op" where
  "pg_JobCountsByStatus c s =
     ((case fault c 0 of Some e \<Rightarrow> Inl (DBError e)
       | None \<Rightarrow> Inr (group_count (\<lambda>r. status_name (j_status r)) (jobs s))), s)"

definition pg_driver :: "pg_cfg \<Rightarrow> database driver" where
  "pg_driver cfg =
     \<lparr>d_CreateJob = pg_CreateJob cfg, d_ClaimJob = pg_ClaimJob cfg, d_CompleteJob = pg_CompleteJob,
      d_FailJob = pg_FailJob cfg, d_HeartbeatJob = pg_HeartbeatJob cfg, d_CancelJob = pg_CancelJob,
      d_PromoteJob = pg_PromoteJob, d_GetJob = pg_GetJob, d_GetJobStatus = pg_GetJobStatus,
      d_QueueInfo = pg_QueueInfo, d_ListQueues = pg_ListQueues, d_PauseQueue = pg_PauseQueue,
      d_ResumeQueue = pg_ResumeQueue, d_ListJobs = pg_ListJobs,
      d_JobCountsByStatus = pg_JobCountsByStatus,
      d_PromoteScheduledJobs = pg_PromoteScheduledJobs, d_FailExpiredJobs = pg_FailExpiredJobs\<rparr>"

subsection \<open>Every method is a step of the job table\<close>

lemma pg_exec_update_rows:
  assumes "\<And>r. P r \<Longrightarrow> Q r \<and> (\<exists>e \<in> E. job_trans e r (f r))"
  shows "rows_step E Q (jobs s) (jobs (snd (pg_exec_update P f c s)))"
  using rows_step_update [of "jobs s" P Q E f] assms
  by (auto simp: pg_exec_update_def split: option.splits)

lemma pg_update_selected_rows:
  assumes "ids_ok (jobs s)" and "\<And>r. P r \<Longrightarrow> Q r \<and> (\<exists>e \<in> E. job_trans e r (f r))"
  shows "rows_step E Q (jobs s) (jobs (snd (pg_update_selected P k n f c s)))"
proof -
  have "rows_step E Q (jobs s)
      (update_where (\<lambda>r. j_id r \<in> j_id ` set (select_limit P k n (jobs s))) f (jobs s))"
  proof (rule rows_step_update)
    fix r assume "r \<in> set (jobs s)" and "j_id r \<in> j_id ` set (select_limit P k n (jobs s))"
    then have "P r" by (rule ids_ok_selected(2) [OF assms(1)])
    then show "Q r \<and> (\<exists>e \<in> E. job_trans e r (f r))" by (rule assms(2))
  qed
  then show ?thesis
    by (auto simp: pg_update_selected_def Let_def split: option.splits)
qed

lemma pg_exec_update_result:
  "fault c 0 = None \<Longrightarrow>
     fst (pg_exec_update P f c s) = (if \<exists>r \<in> set (jobs s). P r then Inr () else Inl ErrWrongState)"
  by (auto simp: pg_exec_update_def)

lemma pg_new_job_fresh:
  "0 \<le> o_MaxAttempts opts \<Longrightarrow> fresh_job (pg_new_job cfg c opts i)"
  by (auto simp: pg_new_job_def fresh_job_def pg_create_status_def Let_def)

lemma pg_create_rows:
  "0 \<le> o_MaxAttempts opts \<Longrightarrow> appends_fresh (jobs s) (jobs (snd (pg_CreateJob cfg opts c s)))"
  using pg_new_job_fresh
  by (auto simp: pg_CreateJob_def Let_def appends_fresh_def split: option.splits sum.splits)

lemma pg_claim_trans:
  "j_status r = Available \<Longrightarrow> job_trans Claim r (pg_claim_set cfg now w r)"
  by (simp add: pg_claim_set_def job_trans.claim)

lemma pg_claim_rows:
  assumes "ids_ok (jobs s)"
  shows "rows_step {Claim} (\<lambda>r. j_queue r = q) (jobs s) (jobs (snd (pg_ClaimJob cfg q w c s)))"
proof -
  have "rows_step {Claim} (\<lambda>r. j_queue r = q) (jobs s) (update_where (\<lambda>x. j_id x = j_id r) (pg_claim_set cfg now w) (jobs s))"
    if "r \<in> set (select_limit (pg_claimable c q) claim_key 1 (jobs s))" for r now
  proof (rule rows_step_update)
    fix x assume "x \<in> set (jobs s)" and "j_id x = j_id r"
    then have "pg_claimable c q x" using ids_ok_selected [OF assms] that by (metis image_eqI)
    then have "j_status x = Available" and "j_queue x = q" by (simp_all add: pg_claimable_def)
    then show "j_queue x = q \<and> (\<exists>e \<in> {Claim}. job_trans e x (pg_claim_set cfg now w x))"
      using pg_claim_trans by blast
  qed
  then show ?thesis
    by (auto simp: pg_ClaimJob_def Let_def split: option.splits list.splits)
qed

lemma pg_fail_trans: "j_status r = Running \<Longrightarrow> job_trans Fail r (pg_fail_set c m b r)"
  by (auto simp: pg_fail_set_def intro: job_trans.fail_retry job_trans.fail_discard)

lemma pg_expire_trans: "j_status r = Running \<Longrightarrow> job_trans Expire r (pg_expire_set c r)"
  by (auto simp: pg_expire_set_def intro: job_trans.expire_retry job_trans.expire_discard)

lemma pg_heartbeat_trans:
  "j_status r = Running \<Longrightarrow> progress_ok p \<Longrightarrow> job_trans Heartbeat r (pg_heartbeat_set cfg c p r)"
  by (auto simp: pg_heartbeat_set_def progress_ok_def Let_def split: option.splits
      intro: job_trans.heartbeat job_trans.heartbeat_progress)

lemma pg_heartbeat_rows: "rows_step {Heartbeat} (this_job i) (jobs s) (jobs (snd (pg_HeartbeatJob cfg i p c s)))"
proof (cases "progress_ok p")
  case True
  then have "rows_step {Heartbeat} (this_job i) (jobs s)
      (jobs (snd (pg_exec_update (is_running i) (pg_heartbeat_set cfg c p) c s)))"
    by (intro pg_exec_update_rows) (auto simp: is_running_def intro: pg_heartbeat_trans)
  with True show ?thesis by (simp add: pg_HeartbeatJob_def)
next
  case False
  then show ?thesis
    by (cases "fault c 0") (auto simp: pg_HeartbeatJob_def pg_exec_update_def)
qed

lemma pg_cancel_trans:
  "j_status r \<notin> {Completed, Discarded, Cancelled} \<Longrightarrow>
     job_trans Cancel r (r\<lparr>j_status := Cancelled,
       j_finalized_at := (case j_finalized_at r of None \<Rightarrow> Some t | Some u \<Rightarrow> Some u)\<rparr>)"
  by (rule job_trans.cancel) (auto simp: terminal_def)

lemmas pg_driver_simps =
  pg_driver_def driver.select_convs

lemma pg_complete_rows: "rows_step {Complete} (this_job i) (jobs s) (jobs (snd (pg_CompleteJob i v c s)))"
  unfolding pg_CompleteJob_def
  by (rule pg_exec_update_rows) (auto simp: is_running_def intro: job_trans.complete)

lemma pg_fail_rows: "rows_step {Fail} (this_job i) (jobs s) (jobs (snd (pg_FailJob cfg i m b c s)))"
proof -
  have "rows_step {Fail} (this_job i) (jobs s) (jobs (snd (pg_exec_update (is_running i) (pg_fail_set c m b) c s)))"
    by (rule pg_exec_update_rows) (use pg_fail_trans is_running_def in blast)
  then show ?thesis by (simp add: pg_FailJob_def)
qed

lemma pg_cancel_rows: "rows_step {Cancel} (this_job i) (jobs s) (jobs (snd (pg_CancelJob i c s)))"
  unfolding pg_CancelJob_def
  by (rule pg_exec_update_rows) (use pg_cancel_trans in blast)

lemma pg_promote_rows: "rows_step {Release} (this_job i) (jobs s) (jobs (snd (pg_PromoteJob i c s)))"
  unfolding pg_PromoteJob_def
  by (rule pg_exec_update_rows) (auto intro: job_trans.release)

lemma pg_promote_scheduled_rows:
  "ids_ok (jobs s) \<Longrightarrow> rows_step {Promote} (\<lambda>_. True) (jobs s) (jobs (snd (pg_PromoteScheduledJobs n c s)))"
  unfolding pg_PromoteScheduledJobs_def
  by (rule pg_update_selected_rows) (auto simp: pg_due_def intro: job_trans.promote)

lemma pg_fail_expired_rows:
  "ids_ok (jobs s) \<Longrightarrow> rows_step {Expire} (\<lambda>_. True) (jobs s) (jobs (snd (pg_FailExpiredJobs n c s)))"
  unfolding pg_FailExpiredJobs_def
  by (rule pg_update_selected_rows) (auto simp: pg_expired_def intro: pg_expire_trans)

lemmas pg_claim_step = pg_claim_rows [THEN rows_step_table]
  and pg_complete_step = pg_complete_rows [THEN rows_step_table]
  and pg_promote_scheduled_step = pg_promote_scheduled_rows [THEN rows_step_table]
  and pg_fail_expired_step = pg_fail_expired_rows [THEN rows_step_table]

interpretation pg: job_driver "pg_driver cfg" jobs for cfg
  by unfold_locales
    (simp_all add: pg_driver_simps pg_create_rows pg_claim_rows pg_complete_rows pg_fail_rows
      pg_heartbeat_rows pg_cancel_rows pg_promote_rows pg_promote_scheduled_rows
      pg_fail_expired_rows pg_PauseQueue_def pg_ResumeQueue_def pg_GetJob_def pg_GetJobStatus_def
      pg_QueueInfo_def pg_ListQueues_def pg_ListJobs_def pg_JobCountsByStatus_def
      split: option.splits)

lemma pg_cancel_result:
  "fault c 0 = None \<Longrightarrow> fst (pg_CancelJob i c s) =
     (if \<exists>r \<in> set (jobs s). j_id r = i \<and> \<not> terminal (j_status r) then Inr () else Inl ErrWrongState)"
  by (auto simp: pg_CancelJob_def pg_exec_update_result terminal_def)

interpretation pgr: job_driver_results "pg_driver cfg" jobs job_row.truncate for cfg
proof unfold_locales
  fix c :: call_env and i :: string and s :: database and p v e
  show "fault c 0 = None \<Longrightarrow> percentage p \<Longrightarrow> fst (d_HeartbeatJob (pg_driver cfg) i p c s) =
      (if running_job i (jobs s) then Inr () else Inl ErrWrongState)"
    by (auto simp: pg_driver_simps pg_HeartbeatJob_def pg_exec_update_result progress_ok_def percentage_def
        running_job_def is_running_def)
  show "fault c 0 = None \<Longrightarrow> \<not> percentage p \<Longrightarrow> \<exists>e. fst (d_HeartbeatJob (pg_driver cfg) i p c s) =
      Inl (if running_job i (jobs s) then DBError e else ErrWrongState)"
    by (auto simp: pg_driver_simps pg_HeartbeatJob_def pg_exec_update_result progress_ok_def percentage_def
        running_job_def is_running_def)
  show "fault c 0 = Some e \<Longrightarrow>
      fst (d_CompleteJob (pg_driver cfg) i v c s) = Inl (DBError e) \<and> fst (d_HeartbeatJob (pg_driver cfg) i p c s) = Inl (DBError e)
      \<and> fst (d_CancelJob (pg_driver cfg) i c s) = Inl (DBError e) \<and> fst (d_PromoteJob (pg_driver cfg) i c s) = Inl (DBError e)"
    by (simp add: pg_driver_simps pg_CompleteJob_def pg_HeartbeatJob_def pg_CancelJob_def pg_PromoteJob_def pg_exec_update_def)
qed (auto simp: pg_driver_simps job_row.defs pg_CompleteJob_def pg_exec_update_result
      running_job_def is_running_def pg_cancel_result pg_PromoteJob_def pg_GetJob_def
      pg_ListJobs_def default_limit_def split: option.splits)

subsection \<open>The rows that are returned\<close>

lemma pg_view:
  "j_queue (job_row.truncate r) = j_queue r" "j_kind (job_row.truncate r) = j_kind r" "j_progress (job_row.truncate r) = j_progress r"
  by (simp_all add: job_row.defs)

lemma pg_new_job_made: "fresh_ulid c = Inr u \<Longrightarrow> made_from c opts (pg_new_job cfg c opts (to_lower u))"
  by (simp add: made_from_def pg_new_job_def Let_def)

lemma pg_create_made:
  "jobs (snd (pg_CreateJob cfg opts c s)) = jobs s
   \<or> (\<exists>r. made_from c opts r \<and> jobs (snd (pg_CreateJob cfg opts c s)) = jobs s @ [r])"
  using pg_new_job_made
  by (simp add: pg_CreateJob_def Let_def split: option.split sum.split)

lemma pg_create_row:
  "fst (pg_CreateJob cfg opts c s) = Inr v \<Longrightarrow>
     v \<in> job_row.truncate ` set (jobs (snd (pg_CreateJob cfg opts c s)))"
  by (auto simp: pg_CreateJob_def Let_def split: option.splits sum.splits if_splits)

lemma pg_claim_row:
  assumes "fst (pg_ClaimJob cfg q w c s) = Inr (Some v)"
  shows "v \<in> job_row.truncate ` set (jobs (snd (pg_ClaimJob cfg q w c s)))"
proof -
  from assms obtain r rs where
    r: "select_limit (pg_claimable c q) claim_key 1 (jobs s) = r # rs"
    and v: "v = job_row.truncate (pg_claim_set cfg (db_now c 1) w r)"
    and s1: "jobs (snd (pg_ClaimJob cfg q w c s)) =
      update_where (\<lambda>x. j_id x = j_id r) (pg_claim_set cfg (db_now c 1) w) (jobs s)"
    by (auto simp: pg_ClaimJob_def Let_def split: option.splits if_splits list.splits)
  have "r \<in> set (jobs s)"
    using select_limitD [of r "pg_claimable c q" claim_key 1 "jobs s"] r by simp
  then have "pg_claim_set cfg (db_now c 1) w r
      \<in> set (update_where (\<lambda>x. j_id x = j_id r) (pg_claim_set cfg (db_now c 1) w) (jobs s))"
    by (force simp: update_where_def)
  with v s1 show ?thesis by simp
qed

lemma pg_list_rows:
  "fst (pg_ListJobs q st n a c s) = Inr vs \<Longrightarrow> set vs \<subseteq> job_row.truncate ` set (jobs s)"
  by (auto simp: pg_ListJobs_def split: option.splits intro!: imageI dest!: subsetD [OF set_select_desc_subset])

interpretation pgv: job_driver_rows "pg_driver cfg" jobs job_row.truncate for cfg
proof unfold_locales
  fix i c s v
  assume "fst (d_GetJob (pg_driver cfg) i c s) = Inr v"
  then show "v \<in> job_row.truncate ` set (jobs s)"
    by (auto simp: pg_driver_simps pg_GetJob_def split: option.splits dest: find_key_Some)
next
  fix i c s sv
  assume "fst (d_GetJobStatus (pg_driver cfg) i c s) = Inr sv"
  then show "\<exists>r \<in> set (jobs s). s_status sv = j_status r \<and> s_progress sv = j_progress r"
    by (auto simp: pg_driver_simps pg_GetJobStatus_def split: option.splits dest: find_key_Some)
qed (simp_all add: pg_driver_simps pg_view pg_create_made pg_create_row pg_claim_row pg_list_rows)

end
