(* ===== verification/Driver_Sqlite.thy ===== *)
theory Driver_Sqlite
  imports Driver_Iface
begin

text \<open>
  The SQLite driver, \<open>internal/service/driver_sqlite.go\<close>. The columns hold whole seconds
  (\<open>CURRENT_TIMESTAMP\<close>, \<open>datetime\<close> and the driver's own format have no fraction), while a Go
  time is in nanoseconds. What belongs to the engine is a parameter: \<open>sq_plus\<close> is
  \<open>datetime(t, '+' || k || ' seconds')\<close> (\<open>None\<close> is NULL, the answer to a modifier or a date that is
  not valid), \<open>sq_json\<close> the function \<open>json\<close> (\<open>None\<close>: malformed), \<open>sq_hoists\<close> whether that constant
  call is evaluated even when no row matches, and \<open>sq_cte_update\<close> whether an \<open>UPDATE\<close> is accepted
  inside a \<open>WITH\<close> clause, which the published grammar of SQLite does not allow. Rows are
  never skipped: writers are serialised.
\<close>

record sqlite_cfg =
  sq_lockDuration :: int
  sq_plus :: "int \<Rightarrow> int \<Rightarrow> int option"
  sq_json :: "string \<Rightarrow> json option"
  sq_hoists :: bool
  sq_cte_update :: bool

abbreviation nanos :: int where
  "nanos \<equiv> 1000000000"

definition sq_now :: "call_env \<Rightarrow> nat \<Rightarrow> int" where
  "sq_now c n = db_now c n div nanos"

text \<open>\<open>time.Format\<close> with a format of whole seconds, and \<open>parseTime\<close> of such a text.\<close>

definition sq_format :: "int \<Rightarrow> int" where
  "sq_format t = t div nanos"

definition parseTime :: "int \<Rightarrow> int" where
  "parseTime sec = sec * nanos"

definition parseTimePtr :: "int option \<Rightarrow> int option" where
  "parseTimePtr t = (case t of None \<Rightarrow> None | Some sec \<Rightarrow> Some (sec * nanos))"

definition scanJobRowSqlite :: "job \<Rightarrow> job_row" where
  "scanJobRowSqlite r =
     (job_row.truncate r)
       \<lparr>j_created_at := parseTime (j_created_at r),
        j_scheduled_at := parseTime (j_scheduled_at r),
        j_attempted_at := parseTimePtr (j_attempted_at r),
        j_finalized_at := parseTimePtr (j_finalized_at r)\<rparr>"

text \<open>\<open>int64(d.Seconds())\<close>: the quotient, cut; \<open>Seconds\<close> is a float, which is precise enough for that
  below \<open>2^24\<close> seconds, over half a year.\<close>

definition sq_lockSec :: "sqlite_cfg \<Rightarrow> int" where
  "sq_lockSec cfg = go_div (sq_lockDuration cfg) nanos"

abbreviation sq_fail :: "string \<Rightarrow> 's \<Rightarrow> ('s, go_error, 'a) call_result" where
  "sq_fail e s \<equiv> (Inl (DBError e), s)"

definition sq_unique_error :: string where
  "sq_unique_error = ''UNIQUE constraint failed: jobs.id''"

definition sq_check_error :: string where
  "sq_check_error = ''CHECK constraint failed''"

definition sq_null_error :: string where
  "sq_null_error = ''NOT NULL constraint failed: jobs.scheduled_at''"

definition sq_json_error :: string where
  "sq_json_error = ''malformed JSON''"

definition sq_syntax_error :: string where
  "sq_syntax_error = ''near UPDATE: syntax error''"

subsection \<open>Creating and claiming\<close>

definition sq_upsert_queue :: "int \<Rightarrow> string \<Rightarrow> queue_row list \<Rightarrow> queue_row list" where
  "sq_upsert_queue now name qs =
     (if name \<in> q_name ` set qs
      then update_where (\<lambda>q. q_name q = name) (\<lambda>q. q\<lparr>q_updated_at := now\<rparr>) qs
      else qs @ [\<lparr>q_name = name, q_paused_at = None, q_created_at = now, q_updated_at = now\<rparr>])"

definition sq_create_status :: "call_env \<Rightarrow> create_opts \<Rightarrow> int \<Rightarrow> status" where
  "sq_create_status c opts scheduled =
     (if o_Pending opts then Pending else if clock c 1 < scheduled then Scheduled else Available)"

definition sq_new_job :: "call_env \<Rightarrow> create_opts \<Rightarrow> string \<Rightarrow> job" where
  "sq_new_job c opts ident =
     (let scheduled = (case o_ScheduledAt opts of Some t \<Rightarrow> t | None \<Rightarrow> clock c 0) in
      \<lparr>j_id = ident, j_queue = o_Queue opts, j_kind = o_Kind opts,
       j_status = sq_create_status c opts scheduled,
       j_priority = (if o_Priority opts = 0 then 1 else o_Priority opts),
       j_attempt = 0,
       j_max_attempts = (if o_MaxAttempts opts = 0 then 25 else o_MaxAttempts opts),
       j_progress = 0,
       j_payload = o_PayloadJSON opts,
       j_metadata = (case o_Metadata opts of None \<Rightarrow> JObj [] | Some m \<Rightarrow> m),
       j_result = None, j_errors = [],
       j_created_at = sq_now c 1, j_scheduled_at = sq_format scheduled,
       j_attempted_at = None, j_finalized_at = None,
       j_attempted_by = [], j_lock_expires_at = None\<rparr>)"

definition sq_CreateJob :: "create_opts \<Rightarrow> (database, job_row) op" where
  "sq_CreateJob opts c s =
     (case fault c 0 of Some e \<Rightarrow> sq_fail e s
      | None \<Rightarrow>
        (let s1 = s\<lparr>queues := sq_upsert_queue (sq_now c 0) (o_Queue opts) (queues s)\<rparr> in
         case fresh_ulid c of Inl e \<Rightarrow> sq_fail e s1
         | Inr u \<Rightarrow>
           (case fault c 1 of Some e \<Rightarrow> sq_fail e s1
            | None \<Rightarrow>
              (let r = sq_new_job c opts (to_lower u) in
               if j_id r \<in> j_id ` set (jobs s1) then sq_fail sq_unique_error s1
               else (Inr (scanJobRowSqlite r), s1\<lparr>jobs := jobs s1 @ [r]\<rparr>)))))"

definition sq_paused :: "string \<Rightarrow> queue_row list \<Rightarrow> bool" where
  "sq_paused queue qs \<longleftrightarrow> (\<exists>q \<in> set qs. q_name q = queue \<and> q_paused_at q \<noteq> None)"

definition sq_claim_key :: "job \<Rightarrow> int \<times> int \<times> string" where
  "sq_claim_key r = (j_priority r, j_scheduled_at r, j_id r)"

definition sq_claimable :: "call_env \<Rightarrow> string \<Rightarrow> job \<Rightarrow> bool" where
  "sq_claimable c queue r \<longleftrightarrow> j_queue r = queue \<and> j_status r = Available
     \<and> j_scheduled_at r \<le> sq_now c 1"

definition sq_claim_set :: "sqlite_cfg \<Rightarrow> int \<Rightarrow> string \<Rightarrow> job \<Rightarrow> job" where
  "sq_claim_set cfg now worker r =
     r\<lparr>j_status := Running,
       j_attempt := j_attempt r + 1,
       j_attempted_at := Some now,
       j_attempted_by := j_attempted_by r @ [worker],
       j_lock_expires_at := sq_plus cfg now (sq_lockSec cfg)\<rparr>"

definition sq_touch_worker :: "int \<Rightarrow> string \<Rightarrow> worker_row list \<Rightarrow> worker_row list" where
  "sq_touch_worker now worker ws =
     update_where (\<lambda>w. w_id w = worker) (\<lambda>w. w\<lparr>w_last_seen_at := Some now\<rparr>) ws"

definition sq_ClaimJob :: "sqlite_cfg \<Rightarrow> string \<Rightarrow> string \<Rightarrow> (database, job_row option) op" where
  "sq_ClaimJob cfg queue worker c s =
     (case fault c 0 of Some e \<Rightarrow> sq_fail e s
      | None \<Rightarrow>
        (let s1 = s\<lparr>workers := sq_touch_worker (sq_now c 0) worker (workers s)\<rparr> in
         case fault c 1 of Some e \<Rightarrow> sq_fail e s1
         | None \<Rightarrow>
           if \<not> sq_cte_update cfg then sq_fail sq_syntax_error s1
           else if sq_paused queue (queues s1) then (Inr None, s1)
           else
             (case select_limit (sq_claimable c queue) sq_claim_key 1 (jobs s1) of
                [] \<Rightarrow> (Inr None, s1)
              | r # _ \<Rightarrow>
                (Inr (Some (scanJobRowSqlite (sq_claim_set cfg (sq_now c 1) worker r))),
                 s1\<lparr>jobs := update_where (\<lambda>x. j_id x = j_id r)
                      (sq_claim_set cfg (sq_now c 1) worker) (jobs s1)\<rparr>))))"

subsection \<open>Ending an attempt\<close>

definition sq_exec_update :: "(job \<Rightarrow> bool) \<Rightarrow> (job \<Rightarrow> job) \<Rightarrow> (database, unit) op" where
  "sq_exec_update P f c s =
     (case fault c 0 of Some e \<Rightarrow> sq_fail e s
      | None \<Rightarrow>
        (if rows_affected P (jobs s) = 0 then (Inl ErrWrongState, s)
         else (Inr (), s\<lparr>jobs := update_where P f (jobs s)\<rparr>)))"

definition sq_is_running :: "string \<Rightarrow> job \<Rightarrow> bool" where
  "sq_is_running i r \<longleftrightarrow> j_id r = i \<and> j_status r = Running"

definition sq_CompleteJob :: "string \<Rightarrow> json \<Rightarrow> (database, unit) op" where
  "sq_CompleteJob i resultJSON c s =
     sq_exec_update (sq_is_running i)
       (\<lambda>r. r\<lparr>j_status := Completed, j_finalized_at := Some (sq_now c 0), j_result := Some resultJSON\<rparr>)
       c s"

definition sq_backoffSec :: "int \<Rightarrow> int" where
  "sq_backoffSec backoffMs = go_div (wrap64 (backoffMs + 999)) 1000"

definition sq_fail_set :: "call_env \<Rightarrow> json \<Rightarrow> int \<Rightarrow> job \<Rightarrow> job" where
  "sq_fail_set c entry at r =
     (if j_max_attempts r \<le> j_attempt r
      then r\<lparr>j_status := Discarded, j_errors := j_errors r @ [entry],
             j_finalized_at := Some (sq_now c 0)\<rparr>
      else r\<lparr>j_status := Retryable, j_scheduled_at := at,
             j_errors := j_errors r @ [entry], j_finalized_at := None\<rparr>)"

text \<open>A NULL date only violates the column's \<open>NOT NULL\<close> where it is stored: when the job has an
  attempt left.\<close>

definition sq_FailJob :: "sqlite_cfg \<Rightarrow> string \<Rightarrow> string \<Rightarrow> int \<Rightarrow> (database, unit) op" where
  "sq_FailJob cfg i errMsg backoffMs c s =
     (case fault c 0 of Some e \<Rightarrow> sq_fail e s
      | None \<Rightarrow>
        (case sq_json cfg (buildErrorEntry (clock c 0) errMsg) of
           None \<Rightarrow>
             if sq_hoists cfg \<or> rows_affected (sq_is_running i) (jobs s) \<noteq> 0
             then sq_fail sq_json_error s else (Inl ErrWrongState, s)
         | Some entry \<Rightarrow>
             (case sq_plus cfg (sq_now c 0) (sq_backoffSec backoffMs) of
                None \<Rightarrow>
                  if rows_affected (\<lambda>r. sq_is_running i r \<and> j_attempt r < j_max_attempts r) (jobs s) \<noteq> 0
                  then sq_fail sq_null_error s
                  else sq_exec_update (sq_is_running i) (sq_fail_set c entry 0) c s
              | Some at \<Rightarrow> sq_exec_update (sq_is_running i) (sq_fail_set c entry at) c s)))"

definition sq_progress_ok :: "int option \<Rightarrow> bool" where
  "sq_progress_ok progress = (case progress of None \<Rightarrow> True | Some p \<Rightarrow> 0 \<le> p \<and> p \<le> 100)"

definition sq_heartbeat_set :: "sqlite_cfg \<Rightarrow> call_env \<Rightarrow> int option \<Rightarrow> job \<Rightarrow> job" where
  "sq_heartbeat_set cfg c progress r =
     (let r1 = r\<lparr>j_lock_expires_at := sq_plus cfg (sq_now c 0) (sq_lockSec cfg)\<rparr> in
      case progress of None \<Rightarrow> r1 | Some p \<Rightarrow> r1\<lparr>j_progress := p\<rparr>)"

definition sq_HeartbeatJob :: "sqlite_cfg \<Rightarrow> string \<Rightarrow> int option \<Rightarrow> (database, unit) op" where
  "sq_HeartbeatJob cfg i progress c s =
     (if fault c 0 = None \<and> \<not> sq_progress_ok progress \<and> rows_affected (sq_is_running i) (jobs s) \<noteq> 0
      then sq_fail sq_check_error s
      else sq_exec_update (sq_is_running i) (sq_heartbeat_set cfg c progress) c s)"

subsection \<open>Expired locks, promotion, cancelling\<close>

definition sq_expired :: "call_env \<Rightarrow> job \<Rightarrow> bool" where
  "sq_expired c r \<longleftrightarrow> j_status r = Running
     \<and> (case j_lock_expires_at r of None \<Rightarrow> False | Some l \<Rightarrow> l < sq_now c 0)"

definition sq_lock_key :: "job \<Rightarrow> int" where
  "sq_lock_key r = (case j_lock_expires_at r of None \<Rightarrow> 0 | Some l \<Rightarrow> l)"

definition sq_expire_set :: "call_env \<Rightarrow> json \<Rightarrow> job \<Rightarrow> job" where
  "sq_expire_set c entry r =
     (if j_max_attempts r \<le> j_attempt r
      then r\<lparr>j_status := Discarded, j_errors := j_errors r @ [entry],
             j_finalized_at := Some (sq_now c 0), j_lock_expires_at := None\<rparr>
      else r\<lparr>j_status := Retryable, j_scheduled_at := sq_now c 0,
             j_errors := j_errors r @ [entry],
             j_finalized_at := None, j_lock_expires_at := None\<rparr>)"

definition sq_default_limit :: "int \<Rightarrow> int \<Rightarrow> nat" where
  "sq_default_limit dflt limit = nat (if limit \<le> 0 then dflt else limit)"

definition sq_update_selected ::
  "(job \<Rightarrow> bool) \<Rightarrow> (job \<Rightarrow> int) \<Rightarrow> nat \<Rightarrow> (job \<Rightarrow> job) \<Rightarrow> (database, nat) op" where
  "sq_update_selected P k n f c s =
     (case fault c 0 of Some e \<Rightarrow> sq_fail e s
      | None \<Rightarrow>
        (let ids = j_id ` set (select_limit P k n (jobs s)) in
         (Inr (rows_affected (\<lambda>r. j_id r \<in> ids) (jobs s)),
          s\<lparr>jobs := update_where (\<lambda>r. j_id r \<in> ids) f (jobs s)\<rparr>)))"

definition sq_FailExpiredJobs :: "sqlite_cfg \<Rightarrow> int \<Rightarrow> (database, nat) op" where
  "sq_FailExpiredJobs cfg limit c s =
     (case fault c 0 of Some e \<Rightarrow> sq_fail e s
      | None \<Rightarrow>
        (case sq_json cfg (buildErrorEntry (clock c 0) ''job lock expired'') of
           None \<Rightarrow>
             if sq_hoists cfg \<or> rows_affected (sq_expired c) (jobs s) \<noteq> 0
             then sq_fail sq_json_error s else (Inr 0, s)
         | Some entry \<Rightarrow>
             sq_update_selected (sq_expired c) sq_lock_key (sq_default_limit 1000 limit)
               (sq_expire_set c entry) c s))"

definition sq_PromoteJob :: "string \<Rightarrow> (database, unit) op" where
  "sq_PromoteJob i c s =
     sq_exec_update (\<lambda>r. j_id r = i \<and> j_status r = Pending)
       (\<lambda>r. r\<lparr>j_status := (if sq_now c 0 < j_scheduled_at r then Scheduled else Available)\<rparr>) c s"

definition sq_CancelJob :: "string \<Rightarrow> (database, unit) op" where
  "sq_CancelJob i c s =
     sq_exec_update (\<lambda>r. j_id r = i \<and> j_status r \<notin> {Completed, Discarded, Cancelled})
       (\<lambda>r. r\<lparr>j_status := Cancelled,
              j_finalized_at := (case j_finalized_at r of None \<Rightarrow> Some (sq_now c 0) | Some u \<Rightarrow> Some u)\<rparr>)
       c s"

definition sq_due :: "call_env \<Rightarrow> job \<Rightarrow> bool" where
  "sq_due c r \<longleftrightarrow> (j_status r = Scheduled \<or> j_status r = Retryable)
     \<and> j_scheduled_at r \<le> sq_now c 0"

definition sq_PromoteScheduledJobs :: "int \<Rightarrow> (database, nat) op" where
  "sq_PromoteScheduledJobs limit c s =
     sq_update_selected (sq_due c) j_scheduled_at (sq_default_limit 1000 limit)
       (\<lambda>r. r\<lparr>j_status := Available\<rparr>) c s"

subsection \<open>Reading\<close>

definition sq_GetJob :: "string \<Rightarrow> (database, job_row) op" where
  "sq_GetJob i c s =
     ((case fault c 0 of Some e \<Rightarrow> Inl (DBError e)
       | None \<Rightarrow> (case lookup_job i (jobs s) of None \<Rightarrow> Inl ErrNotFound
                  | Some r \<Rightarrow> Inr (scanJobRowSqlite r))), s)"

definition sq_GetJobStatus :: "string \<Rightarrow> (database, job_status_row) op" where
  "sq_GetJobStatus i c s =
     ((case fault c 0 of Some e \<Rightarrow> Inl (DBError e)
       | None \<Rightarrow> (case lookup_job i (jobs s) of None \<Rightarrow> Inl ErrNotFound
                  | Some r \<Rightarrow> Inr \<lparr>s_id = j_id r, s_status = j_status r, s_progress = j_progress r,
                                   s_errors = j_errors r\<rparr>)), s)"

definition sq_queue_counts :: "string \<Rightarrow> job list \<Rightarrow> (string \<rightharpoonup> nat)" where
  "sq_queue_counts name xs =
     group_count (\<lambda>r. status_name (j_status r)) (filter (\<lambda>r. j_queue r = name) xs)"

text \<open>The error of the second query is dropped: the queue then counts as not paused.\<close>

definition sq_QueueInfo :: "string \<Rightarrow> (database, queue_info) op" where
  "sq_QueueInfo name c s =
     ((case fault c 0 of Some e \<Rightarrow> Inl (DBError e)
       | None \<Rightarrow>
         Inr \<lparr>qi_CountsByStatus = sq_queue_counts name (jobs s),
              qi_Paused = (case fault c 1 of Some _ \<Rightarrow> False
                | None \<Rightarrow> (case find_key q_name name (queues s) of None \<Rightarrow> False
                          | Some q \<Rightarrow> q_paused_at q \<noteq> None))\<rparr>), s)"

text \<open>The second loop of \<open>ListQueues\<close>: one query per queue, \<open>n\<close> statements so far.\<close>

fun sq_fill_counts :: "call_env \<Rightarrow> nat \<Rightarrow> job list \<Rightarrow> queue_row list \<Rightarrow> go_error + queue_summary list" where
  "sq_fill_counts c n xs [] = Inr []"
| "sq_fill_counts c n xs (q # qs) =
     (case fault c n of Some e \<Rightarrow> Inl (DBError e)
      | None \<Rightarrow> (case sq_fill_counts c (Suc n) xs qs of Inl e \<Rightarrow> Inl e
        | Inr rest \<Rightarrow> Inr (\<lparr>qs_Name = q_name q, qs_Paused = (q_paused_at q \<noteq> None),
            qs_CountsByStatus = sq_queue_counts (q_name q) xs\<rparr> # rest)))"

definition sq_ListQueues :: "(database, queue_summary list) op" where
  "sq_ListQueues c s =
     ((case fault c 0 of Some e \<Rightarrow> Inl (DBError e)
       | None \<Rightarrow> sq_fill_counts c 1 (jobs s) (sort_key q_name (queues s))), s)"

definition sq_PauseQueue :: "string \<Rightarrow> (database, unit) op" where
  "sq_PauseQueue name c s =
     (case fault c 0 of Some e \<Rightarrow> sq_fail e s
      | None \<Rightarrow> (Inr (), s\<lparr>queues :=
          (let now = sq_now c 0 in
           if name \<in> q_name ` set (queues s)
           then update_where (\<lambda>q. q_name q = name)
                  (\<lambda>q. q\<lparr>q_paused_at := Some now, q_updated_at := now\<rparr>) (queues s)
           else queues s @ [\<lparr>q_name = name, q_paused_at = Some now, q_created_at = now,
                             q_updated_at = now\<rparr>])\<rparr>))"

definition sq_ResumeQueue :: "string \<Rightarrow> (database, unit) op" where
  "sq_ResumeQueue name c s =
     (case fault c 0 of Some e \<Rightarrow> sq_fail e s
      | None \<Rightarrow> (Inr (), s\<lparr>queues := update_where (\<lambda>q. q_name q = name)
          (\<lambda>q. q\<lparr>q_paused_at := None, q_updated_at := sq_now c 0\<rparr>) (queues s)\<rparr>))"

definition sq_ListJobs :: "string \<Rightarrow> string \<Rightarrow> int \<Rightarrow> string \<Rightarrow> (database, job_row list) op" where
  "sq_ListJobs queue status limit afterID c s =
     ((case fault c 0 of Some e \<Rightarrow> Inl (DBError e)
       | None \<Rightarrow> Inr (map scanJobRowSqlite
           (select_desc (list_cond queue status afterID) j_id (sq_default_limit 50 limit) (jobs s)))), s)"

definition sq_JobCountsByStatus :: "(database, string \<rightharpoonup> nat) op" where
  "sq_JobCountsByStatus c s =
     ((case fault c 0 of Some e \<Rightarrow> Inl (DBError e)
       | None \<Rightarrow> Inr (group_count (\<lambda>r. status_name (j_status r)) (jobs s))), s)"

definition sqlite_driver :: "sqlite_cfg \<Rightarrow> database driver" where
  "sqlite_driver cfg =
     \<lparr>d_CreateJob = sq_CreateJob, d_ClaimJob = sq_ClaimJob cfg, d_CompleteJob = sq_CompleteJob,
      d_FailJob = sq_FailJob cfg, d_HeartbeatJob = sq_HeartbeatJob cfg, d_CancelJob = sq_CancelJob,
      d_PromoteJob = sq_PromoteJob, d_GetJob = sq_GetJob, d_GetJobStatus = sq_GetJobStatus,
      d_QueueInfo = sq_QueueInfo, d_ListQueues = sq_ListQueues, d_PauseQueue = sq_PauseQueue,
      d_ResumeQueue = sq_ResumeQueue, d_ListJobs = sq_ListJobs,
      d_JobCountsByStatus = sq_JobCountsByStatus,
      d_PromoteScheduledJobs = sq_PromoteScheduledJobs, d_FailExpiredJobs = sq_FailExpiredJobs cfg\<rparr>"

subsection \<open>Every method is a step of the job table\<close>

lemma sq_exec_update_rows:
  assumes "\<And>r. P r \<Longrightarrow> Q r \<and> (\<exists>e \<in> E. job_trans e r (f r))"
  shows "rows_step E Q (jobs s) (jobs (snd (sq_exec_update P f c s)))"
  using rows_step_update [of "jobs s" P Q E f] assms
  by (auto simp: sq_exec_update_def split: option.splits)

lemma sq_update_selected_rows:
  assumes "ids_ok (jobs s)" and "\<And>r. P r \<Longrightarrow> Q r \<and> (\<exists>e \<in> E. job_trans e r (f r))"
  shows "rows_step E Q (jobs s) (jobs (snd (sq_update_selected P k n f c s)))"
proof -
  have "rows_step E Q (jobs s)
      (update_where (\<lambda>r. j_id r \<in> j_id ` set (select_limit P k n (jobs s))) f (jobs s))"
  proof (rule rows_step_update)
    fix r assume "r \<in> set (jobs s)" and "j_id r \<in> j_id ` set (select_limit P k n (jobs s))"
    then have "P r" by (rule ids_ok_selected(2) [OF assms(1)])
    then show "Q r \<and> (\<exists>e \<in> E. job_trans e r (f r))" by (rule assms(2))
  qed
  then show ?thesis
    by (auto simp: sq_update_selected_def Let_def split: option.splits)
qed

lemma sq_exec_update_result:
  "fault c 0 = None \<Longrightarrow>
     fst (sq_exec_update P f c s) = (if \<exists>r \<in> set (jobs s). P r then Inr () else Inl ErrWrongState)"
  by (auto simp: sq_exec_update_def)

lemma sq_new_job_fresh: "0 \<le> o_MaxAttempts opts \<Longrightarrow> fresh_job (sq_new_job c opts i)"
  by (auto simp: sq_new_job_def fresh_job_def sq_create_status_def Let_def)

lemma sq_create_rows:
  "0 \<le> o_MaxAttempts opts \<Longrightarrow> appends_fresh (jobs s) (jobs (snd (sq_CreateJob opts c s)))"
  using sq_new_job_fresh
  by (auto simp: sq_CreateJob_def Let_def appends_fresh_def split: option.splits sum.splits)

lemma sq_claim_trans: "j_status r = Available \<Longrightarrow> job_trans Claim r (sq_claim_set cfg now w r)"
  by (simp add: sq_claim_set_def job_trans.claim)

lemma sq_claim_rows:
  assumes "ids_ok (jobs s)"
  shows "rows_step {Claim} (\<lambda>r. j_queue r = q) (jobs s) (jobs (snd (sq_ClaimJob cfg q w c s)))"
proof -
  have "rows_step {Claim} (\<lambda>r. j_queue r = q) (jobs s) (update_where (\<lambda>x. j_id x = j_id r) (sq_claim_set cfg now w) (jobs s))"
    if "r \<in> set (select_limit (sq_claimable c q) sq_claim_key 1 (jobs s))" for r now
  proof (rule rows_step_update)
    fix x assume "x \<in> set (jobs s)" and "j_id x = j_id r"
    then have "sq_claimable c q x" using ids_ok_selected [OF assms] that by (metis image_eqI)
    then have "j_status x = Available" and "j_queue x = q" by (simp_all add: sq_claimable_def)
    then show "j_queue x = q \<and> (\<exists>e \<in> {Claim}. job_trans e x (sq_claim_set cfg now w x))"
      using sq_claim_trans by blast
  qed
  then show ?thesis
    by (auto simp: sq_ClaimJob_def Let_def split: option.splits list.splits)
qed

lemma sq_fail_trans: "j_status r = Running \<Longrightarrow> job_trans Fail r (sq_fail_set c m b r)"
  by (auto simp: sq_fail_set_def intro: job_trans.fail_retry job_trans.fail_discard)

lemma sq_fail_rows: "rows_step {Fail} (this_job i) (jobs s) (jobs (snd (sq_FailJob cfg i m b c s)))"
proof -
  have "rows_step {Fail} (this_job i) (jobs s) (jobs (snd (sq_exec_update (sq_is_running i) (sq_fail_set c e at) c s)))" for e at
    by (rule sq_exec_update_rows) (use sq_fail_trans sq_is_running_def in blast)
  then show ?thesis by (simp add: sq_FailJob_def split: option.splits)
qed

lemma sq_expire_trans: "j_status r = Running \<Longrightarrow> job_trans Expire r (sq_expire_set c e r)"
  by (auto simp: sq_expire_set_def intro: job_trans.expire_retry job_trans.expire_discard)

lemma sq_fail_expired_rows:
  assumes "ids_ok (jobs s)"
  shows "rows_step {Expire} (\<lambda>_. True) (jobs s) (jobs (snd (sq_FailExpiredJobs cfg n c s)))"
proof -
  have "rows_step {Expire} (\<lambda>_. True) (jobs s)
      (jobs (snd (sq_update_selected (sq_expired c) sq_lock_key k (sq_expire_set c e) c s)))" for k e
    by (rule sq_update_selected_rows [OF assms]) (auto simp: sq_expired_def intro: sq_expire_trans)
  then show ?thesis by (simp add: sq_FailExpiredJobs_def split: option.splits)
qed

lemma sq_heartbeat_trans:
  "j_status r = Running \<Longrightarrow> sq_progress_ok p \<Longrightarrow> job_trans Heartbeat r (sq_heartbeat_set cfg c p r)"
  by (auto simp: sq_heartbeat_set_def sq_progress_ok_def Let_def split: option.splits
      intro: job_trans.heartbeat job_trans.heartbeat_progress)

lemma sq_heartbeat_rows: "rows_step {Heartbeat} (this_job i) (jobs s) (jobs (snd (sq_HeartbeatJob cfg i p c s)))"
proof (cases "sq_progress_ok p")
  case True
  then have "rows_step {Heartbeat} (this_job i) (jobs s)
      (jobs (snd (sq_exec_update (sq_is_running i) (sq_heartbeat_set cfg c p) c s)))"
    by (intro sq_exec_update_rows) (auto simp: sq_is_running_def intro: sq_heartbeat_trans)
  with True show ?thesis by (simp add: sq_HeartbeatJob_def)
next
  case False
  then show ?thesis
    by (cases "fault c 0") (auto simp: sq_HeartbeatJob_def sq_exec_update_def)
qed

lemma sq_complete_rows: "rows_step {Complete} (this_job i) (jobs s) (jobs (snd (sq_CompleteJob i v c s)))"
  unfolding sq_CompleteJob_def
  by (rule sq_exec_update_rows) (auto simp: sq_is_running_def intro: job_trans.complete)

lemma sq_cancel_trans:
  "j_status r \<notin> {Completed, Discarded, Cancelled} \<Longrightarrow>
     job_trans Cancel r (r\<lparr>j_status := Cancelled,
       j_finalized_at := (case j_finalized_at r of None \<Rightarrow> Some t | Some u \<Rightarrow> Some u)\<rparr>)"
  by (rule job_trans.cancel) (auto simp: terminal_def)

lemma sq_cancel_rows: "rows_step {Cancel} (this_job i) (jobs s) (jobs (snd (sq_CancelJob i c s)))"
  unfolding sq_CancelJob_def
  by (rule sq_exec_update_rows) (use sq_cancel_trans in blast)

lemma sq_promote_rows: "rows_step {Release} (this_job i) (jobs s) (jobs (snd (sq_PromoteJob i c s)))"
  unfolding sq_PromoteJob_def
  by (rule sq_exec_update_rows) (auto intro: job_trans.release)

lemma sq_promote_scheduled_rows:
  "ids_ok (jobs s) \<Longrightarrow> rows_step {Promote} (\<lambda>_. True) (jobs s) (jobs (snd (sq_PromoteScheduledJobs n c s)))"
  unfolding sq_PromoteScheduledJobs_def
  by (rule sq_update_selected_rows) (auto simp: sq_due_def intro: job_trans.promote)

lemmas sqlite_driver_simps =
  sqlite_driver_def driver.select_convs

lemmas sq_claim_step = sq_claim_rows [THEN rows_step_table]
  and sq_complete_step = sq_complete_rows [THEN rows_step_table]
  and sq_promote_scheduled_step = sq_promote_scheduled_rows [THEN rows_step_table]
  and sq_fail_expired_step = sq_fail_expired_rows [THEN rows_step_table]

interpretation sqlite: job_driver "sqlite_driver cfg" jobs for cfg
  by unfold_locales
    (simp_all add: sqlite_driver_simps sq_create_rows sq_claim_rows sq_complete_rows sq_fail_rows
      sq_heartbeat_rows sq_cancel_rows sq_promote_rows sq_promote_scheduled_rows
      sq_fail_expired_rows sq_PauseQueue_def sq_ResumeQueue_def sq_GetJob_def sq_GetJobStatus_def
      sq_QueueInfo_def sq_ListQueues_def sq_ListJobs_def sq_JobCountsByStatus_def
      split: option.splits)

lemma sq_cancel_result:
  "fault c 0 = None \<Longrightarrow> fst (sq_CancelJob i c s) =
     (if \<exists>r \<in> set (jobs s). j_id r = i \<and> \<not> terminal (j_status r) then Inr () else Inl ErrWrongState)"
  by (auto simp: sq_CancelJob_def sq_exec_update_result terminal_def)

interpretation sqliter: job_driver_results "sqlite_driver cfg" jobs scanJobRowSqlite for cfg
proof unfold_locales
  fix c :: call_env and i :: string and s :: database and p v e
  show "fault c 0 = None \<Longrightarrow> percentage p \<Longrightarrow> fst (d_HeartbeatJob (sqlite_driver cfg) i p c s) =
      (if running_job i (jobs s) then Inr () else Inl ErrWrongState)"
    by (auto simp: sqlite_driver_simps sq_HeartbeatJob_def sq_exec_update_result sq_progress_ok_def percentage_def
        running_job_def sq_is_running_def)
  show "fault c 0 = None \<Longrightarrow> \<not> percentage p \<Longrightarrow> \<exists>e. fst (d_HeartbeatJob (sqlite_driver cfg) i p c s) =
      Inl (if running_job i (jobs s) then DBError e else ErrWrongState)"
    by (auto simp: sqlite_driver_simps sq_HeartbeatJob_def sq_exec_update_result sq_progress_ok_def percentage_def
        running_job_def sq_is_running_def)
  show "fault c 0 = Some e \<Longrightarrow>
      fst (d_CompleteJob (sqlite_driver cfg) i v c s) = Inl (DBError e) \<and> fst (d_HeartbeatJob (sqlite_driver cfg) i p c s) = Inl (DBError e)
      \<and> fst (d_CancelJob (sqlite_driver cfg) i c s) = Inl (DBError e) \<and> fst (d_PromoteJob (sqlite_driver cfg) i c s) = Inl (DBError e)"
    by (simp add: sqlite_driver_simps sq_CompleteJob_def sq_HeartbeatJob_def sq_CancelJob_def sq_PromoteJob_def sq_exec_update_def)
qed (auto simp: sqlite_driver_simps scanJobRowSqlite_def job_row.defs sq_CompleteJob_def
      sq_exec_update_result running_job_def sq_is_running_def sq_cancel_result sq_PromoteJob_def
      sq_GetJob_def sq_ListJobs_def sq_default_limit_def split: option.splits)

subsection \<open>The rows that are returned\<close>

lemma sq_view:
  "j_queue (scanJobRowSqlite r) = j_queue r" "j_kind (scanJobRowSqlite r) = j_kind r" "j_progress (scanJobRowSqlite r) = j_progress r"
  by (simp_all add: scanJobRowSqlite_def job_row.defs)

lemma sq_new_job_made: "fresh_ulid c = Inr u \<Longrightarrow> made_from c opts (sq_new_job c opts (to_lower u))"
  by (simp add: made_from_def sq_new_job_def Let_def)

lemma sq_create_made:
  "jobs (snd (sq_CreateJob opts c s)) = jobs s
   \<or> (\<exists>r. made_from c opts r \<and> jobs (snd (sq_CreateJob opts c s)) = jobs s @ [r])"
  using sq_new_job_made
  by (simp add: sq_CreateJob_def Let_def split: option.split sum.split)

lemma sq_create_row:
  "fst (sq_CreateJob opts c s) = Inr v \<Longrightarrow>
     v \<in> scanJobRowSqlite ` set (jobs (snd (sq_CreateJob opts c s)))"
  by (auto simp: sq_CreateJob_def Let_def split: option.splits sum.splits if_splits)

lemma sq_claim_row:
  assumes "fst (sq_ClaimJob cfg q w c s) = Inr (Some v)"
  shows "v \<in> scanJobRowSqlite ` set (jobs (snd (sq_ClaimJob cfg q w c s)))"
proof -
  from assms obtain r rs where
    r: "select_limit (sq_claimable c q) sq_claim_key 1 (jobs s) = r # rs"
    and v: "v = scanJobRowSqlite (sq_claim_set cfg (sq_now c 1) w r)"
    and s1: "jobs (snd (sq_ClaimJob cfg q w c s)) =
      update_where (\<lambda>x. j_id x = j_id r) (sq_claim_set cfg (sq_now c 1) w) (jobs s)"
    by (auto simp: sq_ClaimJob_def Let_def split: option.splits if_splits list.splits)
  have "r \<in> set (jobs s)"
    using select_limitD [of r "sq_claimable c q" sq_claim_key 1 "jobs s"] r by simp
  then have "sq_claim_set cfg (sq_now c 1) w r
      \<in> set (update_where (\<lambda>x. j_id x = j_id r) (sq_claim_set cfg (sq_now c 1) w) (jobs s))"
    by (force simp: update_where_def)
  with v s1 show ?thesis by simp
qed

lemma sq_list_rows:
  "fst (sq_ListJobs q st n a c s) = Inr vs \<Longrightarrow> set vs \<subseteq> scanJobRowSqlite ` set (jobs s)"
  by (auto simp: sq_ListJobs_def split: option.splits intro!: imageI dest!: subsetD [OF set_select_desc_subset])

interpretation sqlitev: job_driver_rows "sqlite_driver cfg" jobs scanJobRowSqlite for cfg
proof unfold_locales
  fix i c s v
  assume "fst (d_GetJob (sqlite_driver cfg) i c s) = Inr v"
  then show "v \<in> scanJobRowSqlite ` set (jobs s)"
    by (auto simp: sqlite_driver_simps sq_GetJob_def split: option.splits dest: find_key_Some)
next
  fix i c s sv
  assume "fst (d_GetJobStatus (sqlite_driver cfg) i c s) = Inr sv"
  then show "\<exists>r \<in> set (jobs s). s_status sv = j_status r \<and> s_progress sv = j_progress r"
    by (auto simp: sqlite_driver_simps sq_GetJobStatus_def split: option.splits dest: find_key_Some)
qed (simp_all add: sqlite_driver_simps sq_view sq_create_made sq_create_row sq_claim_row sq_list_rows)

end
