(* ===== verification/Go_Duration.thy ===== *)
theory Go_Duration
  imports Go_Time
begin

text \<open>
  \<open>time.ParseDuration\<close>: a sign, and numbers with a unit each, as nanoseconds in 64 bits. The sums are
  kept as unsigned words. Only the fraction of a number goes through floats: \<open>ff f unit scale\<close> is
  what \<open>float64(f) * (float64(unit) / scale)\<close> comes to.
\<close>

fun leadingInt :: "int \<Rightarrow> string \<Rightarrow> (int \<times> string) option" where
  "leadingInt x [] = Some (x, [])"
| "leadingInt x (c # s) =
     (if \<not> digit_char c then Some (x, c # s)
      else if 2 ^ 63 div 10 < x then None
      else (let y = x * 10 + of_char c - 48 in if 2 ^ 63 < y then None else leadingInt y s))"

text \<open>The digits after the period as far as they fit, with the power of ten they stand over.\<close>

fun leadingFraction :: "int \<Rightarrow> int \<Rightarrow> bool \<Rightarrow> string \<Rightarrow> int \<times> int \<times> string" where
  "leadingFraction x scale overflow [] = (x, scale, [])"
| "leadingFraction x scale overflow (c # s) =
     (if \<not> digit_char c then (x, scale, c # s)
      else if overflow \<or> (2 ^ 63 - 1) div 10 < x then leadingFraction x scale True s
      else (let y = x * 10 + of_char c - 48 in
            if 2 ^ 63 < y then leadingFraction x scale True s else leadingFraction y (scale * 10) False s))"

definition unitMap :: "string \<Rightarrow> int option" where
  "unitMap u =
     (if u = ''ns'' then Some 1
      else if u = ''us'' \<or> u = [CHR 0xC2, CHR 0xB5, CHR ''s''] \<or> u = [CHR 0xCE, CHR 0xBC, CHR ''s'']
        then Some 1000
      else if u = ''ms'' then Some 1000000
      else if u = ''s'' then Some 1000000000
      else if u = ''m'' then Some 60000000000
      else if u = ''h'' then Some 3600000000000
      else None)"

definition unit_char :: "char \<Rightarrow> bool" where
  "unit_char c \<longleftrightarrow> c \<noteq> CHR ''.'' \<and> \<not> digit_char c"

text \<open>The fraction after a number, if a period follows: its digits, and whether there are any.\<close>

definition fraction_part :: "string \<Rightarrow> int \<times> int \<times> bool \<times> string" where
  "fraction_part s =
     (case s of [] \<Rightarrow> (0, 1, False, [])
      | c # t \<Rightarrow>
        if c = CHR ''.'' then
          (case leadingFraction 0 1 False t of (f, scale, r) \<Rightarrow> (f, scale, length r \<noteq> length t, r))
        else (0, 1, False, s))"

text \<open>One number with its unit: its value and the rest.\<close>

definition duration_term :: "(int \<Rightarrow> int \<Rightarrow> int \<Rightarrow> int) \<Rightarrow> string \<Rightarrow> (int \<times> string) option" where
  "duration_term ff s =
     (if s = [] \<or> \<not> (hd s = CHR ''.'' \<or> digit_char (hd s)) then None
      else case leadingInt 0 s of None \<Rightarrow> None
      | Some (v, s1) \<Rightarrow>
        (case fraction_part s1 of (f, scale, post, s2) \<Rightarrow>
           if length s1 = length s \<and> \<not> post then None
           else (let u = takeWhile unit_char s2 in
                 if u = [] then None
                 else case unitMap u of None \<Rightarrow> None
                 | Some unit \<Rightarrow>
                     if 2 ^ 63 div unit < v then None
                     else (let w = (if 0 < f then v * unit + ff f unit scale else v * unit) in
                           if 2 ^ 63 < w then None else Some (w, dropWhile unit_char s2)))))"

lemma leadingInt_length: "leadingInt x s = Some (v, r) \<Longrightarrow> length r \<le> length s"
  by (induction x s rule: leadingInt.induct) (auto simp: Let_def split: if_splits)

lemma leadingFraction_length: "leadingFraction x scale ov s = (f, sc, r) \<Longrightarrow> length r \<le> length s"
  by (induction x scale ov s rule: leadingFraction.induct) (auto simp: Let_def split: if_splits)

lemma fraction_part_length: "fraction_part s = (f, scale, post, r) \<Longrightarrow> length r \<le> length s"
  using leadingFraction_length
  by (fastforce simp: fraction_part_def split: list.splits if_splits prod.splits)

lemma duration_term_length:
  assumes "duration_term ff s = Some (w, r)"
  shows "length r < length s"
proof -
  from assms obtain v s1 where v: "leadingInt 0 s = Some (v, s1)"
    by (auto simp: duration_term_def split: if_splits option.splits)
  obtain f scale post s2 where f: "fraction_part s1 = (f, scale, post, s2)" by (cases "fraction_part s1")
  from assms v f have u: "takeWhile unit_char s2 \<noteq> []" and r: "r = dropWhile unit_char s2"
    by (auto simp: duration_term_def Let_def split: if_splits option.splits)
  have "length s2 = length (takeWhile unit_char s2) + length (dropWhile unit_char s2)"
    by (metis length_append takeWhile_dropWhile_id)
  moreover have "0 < length (takeWhile unit_char s2)" using u by simp
  ultimately show ?thesis unfolding r using leadingInt_length [OF v] fraction_part_length [OF f] by linarith
qed

text \<open>The sum of the terms, as a 64-bit word.\<close>

function duration_sum :: "(int \<Rightarrow> int \<Rightarrow> int \<Rightarrow> int) \<Rightarrow> int \<Rightarrow> string \<Rightarrow> int option" where
  "duration_sum ff d s =
     (if s = [] then Some d
      else case duration_term ff s of None \<Rightarrow> None
      | Some (v, r) \<Rightarrow>
          (let e = (d + v) mod 2 ^ 64 in if 2 ^ 63 < e then None else duration_sum ff e r))"
  by pat_completeness auto
termination
  by (relation "measure (\<lambda>(ff, d, s). length s)") (auto dest: duration_term_length)

declare duration_sum.simps [simp del]

definition ParseDuration :: "(int \<Rightarrow> int \<Rightarrow> int \<Rightarrow> int) \<Rightarrow> string \<Rightarrow> int option" where
  "ParseDuration ff s =
     (let neg = (s \<noteq> [] \<and> hd s = CHR ''-'');
          t = (if s \<noteq> [] \<and> (hd s = CHR ''-'' \<or> hd s = CHR ''+'') then tl s else s)
      in if t = ''0'' then Some 0
         else if t = [] then None
         else case duration_sum ff 0 t of None \<Rightarrow> None
         | Some d \<Rightarrow> if neg then Some (- d) else if 2 ^ 63 - 1 < d then None else Some d)"

subsection \<open>Range, and whole numbers of a unit\<close>

lemma duration_sum_range: "0 \<le> d \<Longrightarrow> d \<le> 2 ^ 63 \<Longrightarrow> duration_sum ff d s = Some e \<Longrightarrow> 0 \<le> e \<and> e \<le> 2 ^ 63"
proof (induction ff d s rule: duration_sum.induct)
  case (1 ff d s)
  then show ?case
    using duration_sum.simps [of ff d s] by (auto simp: Let_def split: if_splits option.splits)
qed

lemma ParseDuration_int64:
  assumes "ParseDuration ff s = Some d"
  shows "- (2 ^ 63) \<le> d \<and> d < 2 ^ 63"
  using assms duration_sum_range [of 0 ff _ _]
  by (auto simp: ParseDuration_def Let_def split: if_splits option.splits) force+

definition digits_value :: "int \<Rightarrow> string \<Rightarrow> int" where
  "digits_value x ds = foldl (\<lambda>a c. a * 10 + of_char c - 48) x ds"

lemma digits_value_simps [simp]:
  "digits_value x [] = x" "digits_value x (c # ds) = digits_value (x * 10 + of_char c - 48) ds"
  by (simp_all add: digits_value_def)

lemma digit_int: "digit_char c \<Longrightarrow> (of_char c :: int) - 48 = int (of_char c - 48) \<and> 48 \<le> (of_char c :: int)"
proof -
  have "(of_char c :: int) = int (of_char c)" by (simp only: of_nat_of_char)
  then show "digit_char c \<Longrightarrow> (of_char c :: int) - 48 = int (of_char c - 48) \<and> 48 \<le> (of_char c :: int)"
    by (simp add: digit_char_def of_nat_diff)
qed

lemma digits_value_nat: "list_all digit_char ds \<Longrightarrow> digits_value (int n) ds
    = int (foldl (\<lambda>a c. 10 * a + (of_char c - 48)) n ds)"
proof (induction ds arbitrary: n)
  case (Cons c ds)
  have "int n * 10 + of_char c - 48 = int (10 * n + (of_char c - 48))"
    using digit_int [of c] Cons.prems by simp
  then have "digits_value (int n) (c # ds) = digits_value (int (10 * n + (of_char c - 48))) ds"
    by (simp only: digits_value_simps)
  also have "\<dots> = int (foldl (\<lambda>a c. 10 * a + (of_char c - 48)) (10 * n + (of_char c - 48)) ds)"
    by (rule Cons.IH) (use Cons.prems in simp)
  finally show ?case by simp
qed simp

lemma digits_value_show: "digits_value 0 (show_nat n) = int n"
proof -
  have "list_all digit_char (show_nat n)"
    using show_nat_digits by (auto simp: list_all_iff digit_char_def)
  from digits_value_nat [OF this, of 0] have "digits_value 0 (show_nat n) = int (read_nat (show_nat n))"
    by (simp only: read_nat.simps) simp
  then show ?thesis by simp
qed

lemma digits_value_ge: "list_all digit_char ds \<Longrightarrow> 0 \<le> x \<Longrightarrow> x \<le> digits_value x ds"
proof (induction ds arbitrary: x)
  case (Cons c ds)
  then have "x \<le> x * 10 + of_char c - 48" using digit_int [of c] by simp
  also have "\<dots> \<le> digits_value (x * 10 + of_char c - 48) ds"
    using Cons calculation by simp
  finally show ?case by simp
qed simp

lemma leadingInt_digits:
  "list_all digit_char ds \<Longrightarrow> rest = [] \<or> \<not> digit_char (hd rest) \<Longrightarrow> 0 \<le> x \<Longrightarrow> x \<le> 2 ^ 63 \<Longrightarrow>
     leadingInt x (ds @ rest) =
       (if digits_value x ds \<le> 2 ^ 63 then Some (digits_value x ds, rest) else None)"
proof (induction ds arbitrary: x)
  case Nil
  then show ?case by (cases rest) auto
next
  case (Cons c ds)
  let ?y = "x * 10 + of_char c - 48"
  have y: "10 * x \<le> ?y" "0 \<le> ?y" using digit_int [of c] Cons.prems by simp_all
  have ge: "?y \<le> digits_value ?y ds" using digits_value_ge y Cons.prems by simp
  show ?case
  proof (cases "2 ^ 63 < ?y")
    case True
    with ge Cons.prems show ?thesis by (simp add: Let_def)
  next
    case False
    with y have "\<not> 2 ^ 63 div 10 < x" by simp
    with False y Cons show ?thesis by (simp add: Let_def)
  qed
qed

text \<open>A whole number with a unit: its value, unless that does not fit 64 bits.\<close>

lemma unitMap_chars: "unitMap u = Some m \<Longrightarrow> u \<noteq> [] \<and> list_all unit_char u \<and> 0 < m \<and> m < 2 ^ 63"
  by (auto simp: unitMap_def unit_char_def digit_char_def split: if_splits)

lemma int_div_less_iff:
  assumes "0 < (m :: int)"
  shows "a div m < n \<longleftrightarrow> a < n * m"
proof -
  define k where "k = a div m * m"
  have a: "a = k + a mod m" "0 \<le> a mod m" "a mod m < m" using assms by (simp_all add: k_def)
  have "n * m \<le> k" if "\<not> a div m < n"
    unfolding k_def by (rule mult_right_mono) (use that assms in simp_all)
  moreover have "k + m \<le> n * m" if "a div m < n"
  proof -
    have "(a div m + 1) * m \<le> n * m" by (rule mult_right_mono) (use that assms in simp_all)
    then show ?thesis by (simp add: k_def distrib_right)
  qed
  ultimately show ?thesis using a by (cases "a div m < n") auto
qed

lemma ParseDuration_whole:
  assumes "unitMap u = Some m"
  shows "ParseDuration ff (show_nat n @ u) = (if int n * m < 2 ^ 63 then Some (int n * m) else None)"
proof -
  note u = unitMap_chars [OF assms]
  have digits: "list_all digit_char (show_nat n)"
    using show_nat_digits by (auto simp: list_all_iff digit_char_def)
  have hd: "digit_char (hd (show_nat n @ u))" "hd (show_nat n @ u) \<noteq> CHR ''-''" "hd (show_nat n @ u) \<noteq> CHR ''+''"
    "hd (show_nat n @ u) \<noteq> CHR ''.''"
    using digits by (cases "show_nat n"; auto simp: digit_char_def)+
  have nu: "\<not> digit_char (hd u)" "hd u \<noteq> CHR ''.''" using u by (cases u; simp add: unit_char_def)+
  have tk: "takeWhile unit_char u = u" "dropWhile unit_char u = []"
    using u by (simp_all add: list_all_iff takeWhile_eq_all_conv dropWhile_eq_Nil_conv)
  have frac: "fraction_part u = (0, 1, False, u)" using u nu by (cases u) (simp_all add: fraction_part_def)
  have whole: "show_nat n @ u \<noteq> ''0''"
  proof
    assume "show_nat n @ u = ''0''"
    then have "length (show_nat n) + length u = 1" by (metis length_append length_Cons list.size(3) One_nat_def)
    with u show False using show_nat_nonempty [of n] by (cases "show_nat n"; cases u) auto
  qed
  have big: "int n * m < 2 ^ 63" if "int n * m \<le> 2 ^ 63" "int n * m \<noteq> 2 ^ 63" using that by simp
  have div: "2 ^ 63 div m < int n \<longleftrightarrow> 2 ^ 63 < int n * m"
    using u int_div_less_iff by blast
  have lead: "leadingInt 0 (show_nat n @ u) = (if int n \<le> 2 ^ 63 then Some (int n, u) else None)"
    using leadingInt_digits [OF digits, of u 0] nu by (simp add: digits_value_show)
  have le: "int n \<le> int n * m" using u mult_left_mono [of 1 m "int n"] by simp
  have dterm: "duration_term ff (show_nat n @ u) = (if int n * m \<le> 2 ^ 63 then Some (int n * m, []) else None)"
  proof (cases "int n \<le> 2 ^ 63")
    case True
    have "length u < length (show_nat n @ u)" using show_nat_nonempty [of n] by (simp del: show_nat_nonempty)
    with True u hd(1) div show ?thesis
      by (auto simp: duration_term_def Let_def lead frac tk assms)
  next
    case False
    with le have "\<not> int n * m \<le> 2 ^ 63" by linarith
    with False hd(1) show ?thesis by (simp add: duration_term_def lead)
  qed
  have "duration_sum ff 0 (show_nat n @ u) = (if int n * m \<le> 2 ^ 63 then Some (int n * m) else None)"
    using dterm u by (subst duration_sum.simps) (simp add: Let_def duration_sum.simps [of ff _ "[]"])
  then show ?thesis
    using hd whole u by (auto simp: ParseDuration_def Let_def)
qed

end
