(* ===== verification/Main_Cmd.thy ===== *)
theory Main_Cmd
  imports Web Driver_Pg Driver_Sqlite Go_Duration
begin

text \<open>
  \<open>cmd/stevy/main.go\<close>: the choice of the command and of the backend, the configuration read
  from the environment, and the scheduler process. Durations are in nanoseconds; \<open>ff\<close> is the
  float arithmetic of their fractions (\<open>ParseDuration\<close>).
\<close>

subsection \<open>Arguments and environment\<close>

datatype command = CmdMigrate | CmdScheduler | CmdServe | CmdVersion | CmdHelp | CmdUnknown string

definition firstArg :: "string list \<Rightarrow> string" where
  "firstArg args = (case args of _ # a # _ \<Rightarrow> a | _ \<Rightarrow> [])"

definition command_of :: "string list \<Rightarrow> command" where
  "command_of args =
     (let a = firstArg args in
      if a = ''migrate'' then CmdMigrate
      else if a = ''scheduler'' then CmdScheduler
      else if a = [] \<or> a = ''serve'' then CmdServe
      else if a = ''version'' then CmdVersion
      else if a = ''help'' \<or> a = ''-h'' \<or> a = ''--help'' then CmdHelp
      else CmdUnknown a)"

text \<open>\<open>os.Args[1:]\<close> of an empty slice panics.\<close>

definition serveArgs :: "string list \<Rightarrow> rpc_error + string list" where
  "serveArgs args =
     (if 2 \<le> length args \<and> args ! 1 = ''serve'' then Inr (drop 2 args)
      else if args = [] then Inl Panic else Inr (drop 1 args))"

type_synonym environment = "string \<Rightarrow> string"

definition getenv :: "environment \<Rightarrow> string \<Rightarrow> string \<Rightarrow> string" where
  "getenv env k dflt = (if env k \<noteq> [] then env k else dflt)"

definition mustEnv :: "environment \<Rightarrow> string \<Rightarrow> rpc_error + string" where
  "mustEnv env k = (if env k = [] then Inl Panic else Inr (env k))"

definition splitCSV :: "string \<Rightarrow> string list" where
  "splitCSV s =
     (if s = [] then []
      else filter (\<lambda>p. p \<noteq> []) (map trim_space (split_on CHR '','' s)))"

definition jobLockDuration :: "(int \<Rightarrow> int \<Rightarrow> int \<Rightarrow> int) \<Rightarrow> environment \<Rightarrow> int" where
  "jobLockDuration ff env =
     (let v = env ''JOB_LOCK_DURATION'' in
      if v \<noteq> [] then
        (case ParseDuration ff v of Some d \<Rightarrow> if 0 < d then d else 30 * 1000000000
         | None \<Rightarrow> 30 * 1000000000)
      else 30 * 1000000000)"

text \<open>The interval of the scheduler's ticker; \<open>time.NewTicker\<close> panics when it is not positive.\<close>

definition scheduler_interval :: "(int \<Rightarrow> int \<Rightarrow> int \<Rightarrow> int) \<Rightarrow> environment \<Rightarrow> rpc_error + int" where
  "scheduler_interval ff env =
     (let v = env ''SCHEDULER_INTERVAL'';
          tick = (if v \<noteq> [] then (case ParseDuration ff v of Some d \<Rightarrow> d | None \<Rightarrow> 1000000000)
                  else 1000000000)
      in if tick \<le> 0 then Inl Panic else Inr tick)"

subsection \<open>The backend\<close>

text \<open>What \<open>openBackend\<close> builds: the dialect, the data source it opens and the driver. Opening
  the PostgreSQL pool or the SQLite file may fail (\<open>open_fault\<close>). The driver parameters that
  belong to the engines are in \<open>pg0\<close> and \<open>sq0\<close>.\<close>

record backend =
  b_dialect :: dialect
  b_source :: string
  b_driver :: "database driver"

definition openBackend ::
  "(int \<Rightarrow> int \<Rightarrow> int \<Rightarrow> int) \<Rightarrow> environment \<Rightarrow> pg_cfg \<Rightarrow> sqlite_cfg \<Rightarrow> string option \<Rightarrow> string \<Rightarrow>
     string + backend" where
  "openBackend ff env pg0 sq0 open_fault dsn =
     (case FromDSN dsn of Inl e \<Rightarrow> Inl e
      | Inr d \<Rightarrow>
        (let lockDur = jobLockDuration ff env in
         case open_fault of Some e \<Rightarrow> Inl e
         | None \<Rightarrow>
           (case d of
              Postgres \<Rightarrow> Inr \<lparr>b_dialect = d, b_source = dsn,
                b_driver = pg_driver (pg0\<lparr>pg_lockDuration := lockDur\<rparr>)\<rparr>
            | SQLite \<Rightarrow> Inr \<lparr>b_dialect = d,
                b_source = StripSQLitePrefix dsn @ ''?_pragma=foreign_keys(1)&_pragma=journal_mode(WAL)'',
                b_driver = sqlite_driver (sq0\<lparr>sq_lockDuration := lockDur\<rparr>)\<rparr>)))"

subsection \<open>The scheduler\<close>

text \<open>One tick of \<open>cmdScheduler\<close>: errors are logged and the loop goes on. \<open>mid\<close> is what other
  processes do between the two statements.\<close>

definition scheduler_tick :: "'s driver \<Rightarrow> call_env \<Rightarrow> ('s \<Rightarrow> 's) \<Rightarrow> call_env \<Rightarrow> 's \<Rightarrow> 's" where
  "scheduler_tick D c1 mid c2 s =
     snd (d_FailExpiredJobs D 1000 c2 (mid (snd (d_PromoteScheduledJobs D 1000 c1 s))))"

text \<open>The loop, as long as the process runs: one element per tick, with what others do before it.\<close>

fun scheduler_loop ::
  "'s driver \<Rightarrow> (('s \<Rightarrow> 's) \<times> call_env \<times> ('s \<Rightarrow> 's) \<times> call_env) list \<Rightarrow> 's \<Rightarrow> 's" where
  "scheduler_loop D [] s = s"
| "scheduler_loop D ((before, c1, mid, c2) # ts) s =
     scheduler_loop D ts (scheduler_tick D c1 mid c2 (before s))"

end
