(* ===== verification/Samples.thy ===== *)
theory Samples
  imports Main_Cmd
begin

text \<open>
  Concrete inputs for the witnesses: an environment without faults, a configuration of each
  driver (with SQLite's date arithmetic on whole seconds), jobs and a small database.
\<close>

definition sample_env :: call_env where
  "sample_env = \<lparr>db_now = (\<lambda>_. 90000000000), clock = (\<lambda>_. 90000000000), fault = (\<lambda>_. None),
     row_locked = (\<lambda>_. False), fresh_ulid = Inr ''01J'', now_text = ''1970-01-01T00:01:30Z'',
     rand_src = 7\<rparr>"

definition sample_pg :: pg_cfg where
  "sample_pg = \<lparr>pg_lockDuration = 30000000000, pg_ts = (\<lambda>t. t), pg_int4 = in_int32\<rparr>"

definition sample_sqlite :: sqlite_cfg where
  "sample_sqlite = \<lparr>sq_lockDuration = 30000000000,
     sq_plus = (\<lambda>t k. if 0 \<le> k \<and> k < 1000000000 then Some (t + k) else None),
     sq_json = (\<lambda>t. Some (JStr t)), sq_hoists = True, sq_cte_update = False\<rparr>"

definition sample_rt :: go_rt where
  "sample_rt = \<lparr>rt_oor = - (2 ^ 63), rt_frac_int = (\<lambda>_. 0),
     rt_new_struct = (\<lambda>m. Some m)\<rparr>"

definition sample_opts :: create_opts where
  "sample_opts = \<lparr>o_Queue = ''q'', o_Kind = ''k'', o_PayloadJSON = JObj [], o_Metadata = None,
     o_MaxAttempts = 2, o_Priority = 1, o_ScheduledAt = None, o_Pending = False\<rparr>"

definition sample_job :: "string \<Rightarrow> status \<Rightarrow> job" where
  "sample_job i st = \<lparr>j_id = i, j_queue = ''q'', j_kind = ''k'', j_status = st, j_priority = 1,
     j_attempt = (if st = Available then 0 else 1), j_max_attempts = 3, j_progress = 0,
     j_payload = JObj [], j_metadata = JObj [], j_result = None, j_errors = [],
     j_created_at = 10, j_scheduled_at = 20,
     j_attempted_at = (if st = Available then None else Some 30),
     j_finalized_at = (if terminal st then Some 40 else None),
     j_attempted_by = (if st = Available then [] else [''w'']),
     j_lock_expires_at = (if st = Available then None else Some 50)\<rparr>"

definition sample_db :: database where
  "sample_db = \<lparr>jobs = [sample_job ''a'' Available, sample_job ''b'' Available, sample_job ''r'' Running,
       sample_job ''d'' Cancelled],
     queues = [\<lparr>q_name = ''q'', q_paused_at = None, q_created_at = 1, q_updated_at = 1\<rparr>],
     workers = [\<lparr>w_id = ''w'', w_name = ''worker'', w_key_hash = ''hash:stw_x'', w_key_prefix = ''stw_x'',
       w_created_by = Some ''u'', w_created_at = 1, w_last_seen_at = None\<rparr>],
     users = [\<lparr>u_id = ''u'', u_google_id = ''g'', u_email = ''a@b.c'', u_name = ''n'', u_created_at = 1\<rparr>],
     api_keys = [\<lparr>k_id = ''k'', k_user_id = ''u'', k_label = ''l'', k_key_hash = ''hash:stv_x'',
       k_key_prefix = ''stv_x'', k_created_at = 1, k_last_used_at = None\<rparr>]\<rparr>"

text \<open>A stand-in for the hash and the signature: an injective tag.\<close>

definition sample_sha :: "string \<Rightarrow> string" where
  "sample_sha s = ''hash:'' @ s"

lemmas sample_defs = sample_env_def sample_pg_def sample_sqlite_def sample_rt_def sample_opts_def
  sample_job_def sample_db_def sample_sha_def

lemma sample_env_simps [simp]:
  "db_now sample_env i = 90000000000" "clock sample_env i = 90000000000"
  "fault sample_env i = None" "row_locked sample_env k = False"
  by (simp_all add: sample_env_def)

lemma parse_sample_now: "parse_rfc3339 (now_text sample_env) = Some 90000000000"
  by code_simp

lemma sample_job_simps [simp]:
  "j_id (sample_job i st) = i" "j_queue (sample_job i st) = ''q''" "j_status (sample_job i st) = st"
  "j_max_attempts (sample_job i st) = 3" "j_priority (sample_job i st) = 1"
  "j_scheduled_at (sample_job i st) = 20" "j_errors (sample_job i st) = []"
  "j_metadata (sample_job i st) = JObj []"
  by (simp_all add: sample_job_def)

lemma sample_ids_ok: "ids_ok (jobs sample_db)"
  by (simp add: ids_ok_def sample_defs)

lemma sample_jobs: "jobs sample_db = [sample_job ''a'' Available, sample_job ''b'' Available,
    sample_job ''r'' Running, sample_job ''d'' Cancelled]"
  by (simp add: sample_db_def)

end
