(* ===== verification/Pg_Props.thy ===== *)
theory Pg_Props
  imports Samples
begin

text \<open>
  What the PostgreSQL driver guarantees: the invariant of every reachable table, the finality of
  a finished job, the order and exclusiveness of claiming, the outcome of a failed attempt and
  the bounded work of the scheduler's statements.
\<close>

subsection \<open>Reachable tables\<close>

text \<open>Whatever sequence of calls the clients, workers and schedulers make on the PostgreSQL
  driver, with any clock readings, statement failures and row locks, starting from the empty
  database: ids stay distinct and every row is well-formed. In particular a job is finalized
  exactly when its status is terminal, it never has more attempts than allowed, the number of
  workers recorded is the number of attempts, the error log has one entry per failed attempt,
  a job that can still run has an attempt left, and a result exists exactly for completed
  jobs.\<close>

theorem pg_reachable_ok:
  assumes "\<forall>x \<in> set xs. call_ok (snd x)"
  shows "table_ok (jobs (run_calls (pg_driver cfg) xs empty_db))"
  using assms by (rule pg.run_calls_ok) (simp add: empty_db_def)

lemma pg_reachable_ok_witness:
  "table_ok (jobs (run_calls (pg_driver sample_pg)
     [(sample_env, CallCreate sample_opts), (sample_env, CallClaim ''q'' ''w''),
      (sample_env, CallFail ''01j'' ''boom'' 1000)] empty_db))
   \<and> map j_status (jobs (run_calls (pg_driver sample_pg)
     [(sample_env, CallCreate sample_opts), (sample_env, CallClaim ''q'' ''w''),
      (sample_env, CallFail ''01j'' ''boom'' 1000)] empty_db)) = [Retryable]"
proof
  show "table_ok (jobs (run_calls (pg_driver sample_pg)
     [(sample_env, CallCreate sample_opts), (sample_env, CallClaim ''q'' ''w''),
      (sample_env, CallFail ''01j'' ''boom'' 1000)] empty_db))"
    by (rule pg_reachable_ok) (simp add: sample_opts_def)
  show "map j_status (jobs (run_calls (pg_driver sample_pg)
     [(sample_env, CallCreate sample_opts), (sample_env, CallClaim ''q'' ''w''),
      (sample_env, CallFail ''01j'' ''boom'' 1000)] empty_db)) = [Retryable]"
    by code_simp
qed

text \<open>C13. A job in a terminal status is never changed again: its row, with result, errors and
  finalization time, is still in the table after any further calls, and no call deletes or
  reopens it.\<close>

theorem pg_terminal_final:
  assumes "\<forall>x \<in> set xs. call_ok (snd x)" and "ids_ok (jobs s)"
    and "r \<in> set (jobs s)" and "terminal (j_status r)"
  shows "lookup_job (j_id r) (jobs (run_calls (pg_driver cfg) xs s)) = Some r"
proof -
  have "r \<in> set (jobs (run_calls (pg_driver cfg) xs s))"
    using assms by (rule pg.run_calls_terminal)
  moreover have "ids_ok (jobs (run_calls (pg_driver cfg) xs s))"
    using assms(1,2) by (rule pg.run_calls_ids)
  ultimately show ?thesis by (simp add: ids_ok_lookup)
qed

lemma pg_terminal_final_witness:
  "lookup_job ''d'' (jobs (run_calls (pg_driver sample_pg)
     [(sample_env, CallCancel ''d''), (sample_env, CallFail ''d'' ''m'' 5)] sample_db))
   = Some (sample_job ''d'' Cancelled)"
  using sample_ids_ok pg_terminal_final [of "[(sample_env, CallCancel ''d''), (sample_env, CallFail ''d'' ''m'' 5)]"
      sample_db "sample_job ''d'' Cancelled" sample_pg]
  by (simp add: sample_jobs terminal_def del: run_calls.simps)

subsection \<open>Claiming\<close>

lemma pg_ClaimJob_Some:
  assumes "pg_ClaimJob cfg q w c s = (Inr (Some row), s')"
  obtains r rs where "select_limit (pg_claimable c q) claim_key 1 (jobs s) = r # rs"
    and "row = job_row.truncate (pg_claim_set cfg (db_now c 1) w r)"
    and "jobs s' = update_where (\<lambda>x. j_id x = j_id r) (pg_claim_set cfg (db_now c 1) w) (jobs s)"
    and "\<not> pg_paused q (queues s)" and "queues s' = queues s"
  using assms
  by (auto simp: pg_ClaimJob_def Let_def split: option.splits if_splits list.splits)

text \<open>C9. A successful claim takes the claimable job of the queue (available, due, not locked)
  that is first by priority, then scheduled time, then id; the queue is not paused; exactly that
  row changes: it becomes running, its attempt count goes up by one, the worker is recorded and
  its lock expires one lock duration later; and that row is what the worker gets.\<close>

theorem pg_claim_best:
  assumes "ids_ok (jobs s)" and "pg_ClaimJob cfg q w c s = (Inr (Some row), s')"
  shows "\<exists>r \<in> set (jobs s). pg_claimable c q r \<and> \<not> pg_paused q (queues s)
    \<and> (\<forall>x \<in> set (jobs s). pg_claimable c q x \<longrightarrow>
         (j_priority r, j_scheduled_at r, j_id r) \<le> (j_priority x, j_scheduled_at x, j_id x))
    \<and> jobs s' = map (\<lambda>x. if x = r then pg_claim_set cfg (db_now c 1) w r else x) (jobs s)
    \<and> row = job_row.truncate (pg_claim_set cfg (db_now c 1) w r)
    \<and> j_status row = Running \<and> j_attempt row = j_attempt r + 1"
proof -
  from assms(2) obtain r rs where sel: "select_limit (pg_claimable c q) claim_key 1 (jobs s) = r # rs"
    and row: "row = job_row.truncate (pg_claim_set cfg (db_now c 1) w r)"
    and jobs': "jobs s' = update_where (\<lambda>x. j_id x = j_id r) (pg_claim_set cfg (db_now c 1) w) (jobs s)"
    and np: "\<not> pg_paused q (queues s)"
    by (rule pg_ClaimJob_Some)
  have rin: "r \<in> set (select_limit (pg_claimable c q) claim_key 1 (jobs s))" using sel by simp
  note r = select_limitD [OF rin]
  have rs: "rs = []" using length_select_limit_le [of "pg_claimable c q" claim_key 1 "jobs s"] sel by simp
  have best: "claim_key r \<le> claim_key x" if "x \<in> set (jobs s)" "pg_claimable c q x" for x
  proof (cases "x = r")
    case False
    then have "x \<notin> set (select_limit (pg_claimable c q) claim_key 1 (jobs s))" using sel rs by simp
    then show ?thesis by (rule select_limit_smallest [OF rin that])
  qed simp
  have "jobs s' = map (\<lambda>x. if x = r then pg_claim_set cfg (db_now c 1) w r else x) (jobs s)"
    unfolding jobs' update_where_def
    by (rule map_cong [OF refl]) (auto dest: ids_ok_unique [OF assms(1) _ r(1)])
  with r np best row show ?thesis
    by (intro bexI [of _ r]) (simp_all add: claim_key_def pg_claim_set_def job_row.defs)
qed

lemma pg_claim_best_witness:
  "\<exists>r \<in> set (jobs sample_db). pg_claimable sample_env ''q'' r \<and> j_id r = ''a''"
proof -
  have "fst (pg_ClaimJob sample_pg ''q'' ''w'' sample_env sample_db)
      = Inr (Some (job_row.truncate (pg_claim_set sample_pg 90000000000 ''w'' (sample_job ''a'' Available))))"
    by code_simp
  then obtain s' where c: "pg_ClaimJob sample_pg ''q'' ''w'' sample_env sample_db
      = (Inr (Some (job_row.truncate (pg_claim_set sample_pg 90000000000 ''w'' (sample_job ''a'' Available)))), s')"
    by (metis prod.collapse)
  from pg_claim_best [OF sample_ids_ok c] obtain r where "r \<in> set (jobs sample_db)"
    "pg_claimable sample_env ''q'' r"
    "job_row.truncate (pg_claim_set sample_pg 90000000000 ''w'' (sample_job ''a'' Available))
       = job_row.truncate (pg_claim_set sample_pg (db_now sample_env 1) ''w'' r)"
    by blast
  moreover from this(3) have "j_id r = ''a''"
    by (simp add: job_row.defs pg_claim_set_def)
  ultimately show ?thesis by blast
qed

text \<open>C27. When its statements run, a claim comes back empty exactly when the queue is paused or
  has no claimable job; it is never empty while a claimable job is there. Either way the call
  does not fail, and an empty claim changes no job.\<close>

theorem pg_claim_none_iff:
  assumes "fault c 0 = None" and "fault c 1 = None"
  shows "(fst (pg_ClaimJob cfg q w c s) = Inr None
           \<longleftrightarrow> pg_paused q (queues s) \<or> (\<forall>r \<in> set (jobs s). \<not> pg_claimable c q r))
       \<and> (\<exists>res. fst (pg_ClaimJob cfg q w c s) = Inr res)
       \<and> (fst (pg_ClaimJob cfg q w c s) = Inr None \<longrightarrow> jobs (snd (pg_ClaimJob cfg q w c s)) = jobs s)"
  using select_limit_1 [of "pg_claimable c q" claim_key "jobs s"] assms
  by (auto simp: pg_ClaimJob_def Let_def split: list.splits)

lemma pg_claim_none_iff_witness:
  "fst (pg_ClaimJob sample_pg ''empty'' ''w'' sample_env sample_db) = Inr None"
  using pg_claim_none_iff [of sample_env sample_pg "''empty''" "''w''" sample_db]
  by (simp add: sample_jobs pg_claimable_def)

text \<open>Two workers never get the same job: if a claim hands out a job and a second claim, in
  any environment, queue and worker, runs while no attempt has ended in between, it hands out a
  different job.\<close>

theorem pg_claims_disjoint:
  assumes "ids_ok (jobs s)"
    and "pg_ClaimJob cfg q w c s = (Inr (Some a), s1)"
    and "jobs s2 = jobs s1"
    and "pg_ClaimJob cfg q' w' c' s2 = (Inr (Some b), s3)"
  shows "j_id a \<noteq> j_id b"
proof
  assume eq: "j_id a = j_id b"
  have ids1: "ids_ok (jobs s1)"
    using pg_claim_step [OF assms(1), of cfg q w c] assms(1,2) table_step_ids by auto
  from pg_claim_best [OF assms(1,2)] obtain r where r: "r \<in> set (jobs s)"
    "jobs s1 = map (\<lambda>x. if x = r then pg_claim_set cfg (db_now c 1) w r else x) (jobs s)"
    "a = job_row.truncate (pg_claim_set cfg (db_now c 1) w r)" by blast
  from assms(4) obtain x xs where x: "select_limit (pg_claimable c' q') claim_key 1 (jobs s2) = x # xs"
    "b = job_row.truncate (pg_claim_set cfg (db_now c' 1) w' x)"
    by (rule pg_ClaimJob_Some)
  then have xin: "x \<in> set (jobs s1)" and xc: "pg_claimable c' q' x"
    using select_limitD [of x "pg_claimable c' q'" claim_key 1 "jobs s2"] assms(3) by simp_all
  let ?r' = "pg_claim_set cfg (db_now c 1) w r"
  have "?r' \<in> set (jobs s1)" using r by (auto intro!: image_eqI [of _ _ r])
  moreover have "j_id ?r' = j_id x"
    using eq r(3) x(2) by (simp add: job_row.defs pg_claim_set_def)
  ultimately have "?r' = x" using ids_ok_unique [OF ids1 _ xin] by blast
  then show False using xc by (auto simp: pg_claimable_def pg_claim_set_def)
qed

lemma pg_claims_disjoint_witness:
  "j_id (the (projr (fst (pg_ClaimJob sample_pg ''q'' ''w'' sample_env sample_db))))
   \<noteq> j_id (the (projr (fst (pg_ClaimJob sample_pg ''q'' ''v'' sample_env
        (snd (pg_ClaimJob sample_pg ''q'' ''w'' sample_env sample_db))))))"
proof -
  let ?r1 = "pg_ClaimJob sample_pg ''q'' ''w'' sample_env sample_db"
  let ?r2 = "pg_ClaimJob sample_pg ''q'' ''v'' sample_env (snd ?r1)"
  have "case fst ?r1 of Inr (Some _) \<Rightarrow> True | _ \<Rightarrow> False"
    and "case fst ?r2 of Inr (Some _) \<Rightarrow> True | _ \<Rightarrow> False"
    by code_simp+
  then obtain a b where "?r1 = (Inr (Some a), snd ?r1)" and "?r2 = (Inr (Some b), snd ?r2)"
    by (auto split: sum.splits option.splits simp: prod_eq_iff)
  with pg_claims_disjoint [OF sample_ids_ok, of sample_pg "''q''" "''w''" sample_env a "snd ?r1"
      "snd ?r1" "''q''" "''v''" sample_env b "snd ?r2"]
  show ?thesis by (metis fst_conv option.sel sum.sel(2))
qed

end
