(* ===== verification/Pg_Attempts.thy ===== *)
theory Pg_Attempts
  imports Pg_Props
begin

text \<open>
  How an attempt ends on PostgreSQL: completion, failure, heartbeat and cancellation of a single
  job, on every branch, and what the argument types of the statements refuse.
\<close>

subsection \<open>Updates of one job\<close>

lemma pg_exec_update_hit:
  assumes "ids_ok (jobs s)" and "r \<in> set (jobs s)" and "P r" and "fault c 0 = None"
    and "\<And>x. P x \<Longrightarrow> j_id x = j_id r" and "\<And>x. j_id (f x) = j_id x"
  shows "fst (pg_exec_update P f c s) = Inr ()"
    and "lookup_job i (jobs (snd (pg_exec_update P f c s)))
      = (if i = j_id r then Some (f r) else lookup_job i (jobs s))"
proof -
  have ne: "rows_affected P (jobs s) \<noteq> 0" using assms(2,3) by auto
  then show "fst (pg_exec_update P f c s) = Inr ()"
    using assms(4) by (simp add: pg_exec_update_def del: rows_affected_0)
  have look: "lookup_job i (update_where P f (jobs s)) =
      map_option (\<lambda>x. if P x then f x else x) (lookup_job i (jobs s))"
    by (rule find_key_update_where) (rule assms(6))
  have "map_option (\<lambda>x. if P x then f x else x) (lookup_job i (jobs s))
      = (if i = j_id r then Some (f r) else lookup_job i (jobs s))"
  proof (cases "i = j_id r")
    case True
    then show ?thesis using ids_ok_lookup [OF assms(1,2)] assms(3) by simp
  next
    case False
    then show ?thesis using assms(5) find_key_Some [of j_id i "jobs s"]
      by (cases "lookup_job i (jobs s)") auto
  qed
  then show "lookup_job i (jobs (snd (pg_exec_update P f c s)))
      = (if i = j_id r then Some (f r) else lookup_job i (jobs s))"
    using ne assms(4) look by (simp add: pg_exec_update_def del: rows_affected_0)
qed

lemmas running_update_hit = pg_exec_update_hit [where P = "is_running i" for i]

lemma pg_exec_update_miss:
  assumes "fault c 0 = None" and "\<And>r. r \<in> set (jobs s) \<Longrightarrow> \<not> P r"
  shows "pg_exec_update P f c s = (Inl ErrWrongState, s)"
  using assms by (simp add: pg_exec_update_def)

text \<open>C15. A job is completed at most once: after a completion that succeeded, any further
  completion, failure or heartbeat of that job is refused with \<open>ErrWrongState\<close>, whatever other
  calls run in between.\<close>

theorem pg_complete_once:
  assumes "ids_ok (jobs s)" and "fst (pg_CompleteJob i v c s) = Inr ()"
    and "\<forall>x \<in> set xs. call_ok (snd x)"
    and "fault c' 0 = None"
    and "s' = run_calls (pg_driver cfg) xs (snd (pg_CompleteJob i v c s))"
  shows "pg_CompleteJob i v' c' s' = (Inl ErrWrongState, s')
    \<and> (pg_int4 cfg b \<longrightarrow> pg_FailJob cfg i m b c' s' = (Inl ErrWrongState, s'))
    \<and> pg_HeartbeatJob cfg i p c' s' = (Inl ErrWrongState, s')"
proof -
  let ?f = "\<lambda>r. r\<lparr>j_status := Completed, j_finalized_at := Some (db_now c 0), j_result := Some v\<rparr>"
  let ?s1 = "snd (pg_CompleteJob i v c s)"
  have nf: "fault c 0 = None" and "rows_affected (is_running i) (jobs s) \<noteq> 0"
    using assms(2) by (auto simp: pg_CompleteJob_def pg_exec_update_def split: option.splits if_splits
        simp del: rows_affected_0)
  then obtain r where r: "r \<in> set (jobs s)" "is_running i r" by auto
  then have i: "j_id r = i" by (simp add: is_running_def)
  have "lookup_job i (jobs ?s1) = Some (?f r)"
    unfolding pg_CompleteJob_def
    by (subst running_update_hit(2) [OF assms(1) r nf]) (auto simp: is_running_def i)
  then have f: "?f r \<in> set (jobs ?s1)" using find_key_Some by metis
  have ids1: "ids_ok (jobs ?s1)"
    using table_step_ids [OF pg_complete_step assms(1)] .
  have "?f r \<in> set (jobs s')"
    unfolding assms(5) by (rule pg.run_calls_terminal [OF assms(3) ids1 f]) (simp add: terminal_def)
  moreover have "ids_ok (jobs s')"
    unfolding assms(5) using assms(3) ids1 by (rule pg.run_calls_ids)
  ultimately have "\<not> is_running i x" if "x \<in> set (jobs s')" for x
    using ids_ok_unique [of "jobs s'" x "?f r"] that i by (auto simp: is_running_def)
  then show ?thesis
    using assms(4)
    by (auto simp: pg_CompleteJob_def pg_FailJob_def pg_HeartbeatJob_def pg_exec_update_miss)
qed

lemma pg_complete_once_witness:
  "fst (pg_CompleteJob ''r'' JNull sample_env
     (run_calls (pg_driver sample_pg) [(sample_env, CallCancel ''r'')]
       (snd (pg_CompleteJob ''r'' (JInt 1) sample_env sample_db)))) = Inl ErrWrongState"
proof -
  have "fst (pg_CompleteJob ''r'' (JInt 1) sample_env sample_db) = Inr ()" by code_simp
  from pg_complete_once [OF sample_ids_ok this _ _ refl, where xs = "[(sample_env, CallCancel ''r'')]"
      and c' = sample_env and cfg = sample_pg] show ?thesis by simp
qed

text \<open>C14. Failing a running job logs one entry with the message and then, if the job has used all
  its attempts, discards and finalizes it; otherwise it becomes retryable, not before the backoff
  has passed from now, and stays unfinalized. No other job changes.\<close>

theorem pg_fail_outcome:
  assumes "ids_ok (jobs s)" and "r \<in> set (jobs s)" and "j_status r = Running"
    and "fault c 0 = None" and "pg_int4 cfg b"
  shows "fst (pg_FailJob cfg (j_id r) m b c s) = Inr ()
    \<and> (\<exists>r'. lookup_job (j_id r) (jobs (snd (pg_FailJob cfg (j_id r) m b c s))) = Some r'
        \<and> j_errors r' = j_errors r @ [JObj [(''at'', JStr (now_text c)), (''message'', JStr m)]]
        \<and> (if j_max_attempts r \<le> j_attempt r
           then j_status r' = Discarded \<and> j_finalized_at r' = Some (db_now c 0)
           else j_status r' = Retryable \<and> j_finalized_at r' = None
                \<and> j_scheduled_at r' = db_now c 0 + b * 1000000))
    \<and> (\<forall>i. i \<noteq> j_id r \<longrightarrow>
        lookup_job i (jobs (snd (pg_FailJob cfg (j_id r) m b c s))) = lookup_job i (jobs s))"
proof -
  have run: "is_running (j_id r) r" using assms(3) by (simp add: is_running_def)
  have "fst (pg_exec_update (is_running (j_id r)) (pg_fail_set c m b) c s) = Inr ()"
    and look: "lookup_job i (jobs (snd (pg_exec_update (is_running (j_id r)) (pg_fail_set c m b) c s)))
      = (if i = j_id r then Some (pg_fail_set c m b r) else lookup_job i (jobs s))" for i
    by (rule running_update_hit [OF assms(1,2) run assms(4)];
        simp add: is_running_def pg_fail_set_def)+
  then show ?thesis
    using assms(5) by (simp add: pg_FailJob_def pg_fail_set_def pg_error_entry_def)
qed

lemma pg_fail_outcome_witness:
  "\<exists>r'. lookup_job ''r'' (jobs (snd (pg_FailJob sample_pg ''r'' ''m'' 1500 sample_env sample_db))) = Some r'
    \<and> j_status r' = Retryable \<and> j_scheduled_at r' = 91500000000"
proof -
  have "sample_job ''r'' Running \<in> set (jobs sample_db)" by (simp add: sample_jobs)
  from pg_fail_outcome [OF sample_ids_ok this, of sample_env sample_pg 1500 "''m''"]
  show ?thesis by (auto simp: sample_pg_def in_int32_def sample_job_def)
qed

text \<open>The backoff goes to PostgreSQL as a 32-bit integer. When the server refuses integers
  beyond 32 bits, as its documentation says, a backoff above 2147483647 ms (24.8 days) makes
  \<open>FailJob\<close> fail with a database error and leaves the job running, even when its attempts are
  exhausted and no backoff is needed.\<close>

theorem pg_fail_int4_overflow:
  assumes "\<forall>n. pg_int4 cfg n \<longrightarrow> in_int32 n" and "2147483647 < b"
  shows "pg_FailJob cfg i m b c s = (Inl (DBError int4_error), s)"
proof -
  have "\<not> in_int32 b" using assms(2) by (simp add: in_int32_def)
  with assms(1) show ?thesis by (auto simp: pg_FailJob_def)
qed

lemma pg_fail_int4_overflow_witness:
  "pg_FailJob sample_pg ''r'' ''m'' (1000 * 2 ^ 22) sample_env sample_db
     = (Inl (DBError int4_error), sample_db)"
  by (rule pg_fail_int4_overflow) (simp_all add: sample_pg_def)

text \<open>A heartbeat on a running job pushes its lock one lock duration past now, stores the
  progress if one is given and it is between 0 and 100, and keeps everything else; a progress
  outside that range is refused and nothing changes.\<close>

theorem pg_heartbeat_outcome:
  assumes "ids_ok (jobs s)" and "r \<in> set (jobs s)" and "j_status r = Running" and "fault c 0 = None"
  shows "if progress_ok p
    then fst (pg_HeartbeatJob cfg (j_id r) p c s) = Inr ()
      \<and> lookup_job (j_id r) (jobs (snd (pg_HeartbeatJob cfg (j_id r) p c s)))
        = Some (r\<lparr>j_lock_expires_at := Some (db_now c 0 + go_div (pg_lockDuration cfg) 1000000 * 1000000),
                  j_progress := (case p of None \<Rightarrow> j_progress r | Some n \<Rightarrow> n)\<rparr>)
    else pg_HeartbeatJob cfg (j_id r) p c s = (Inl (DBError check_error), s)"
proof (cases "progress_ok p")
  case True
  have run: "is_running (j_id r) r" using assms(3) by (simp add: is_running_def)
  have f: "j_id (pg_heartbeat_set cfg c p x) = j_id x" for x
    by (simp add: pg_heartbeat_set_def Let_def split: option.splits)
  note hit = running_update_hit [OF assms(1,2) run assms(4) _ f]
  have "pg_heartbeat_set cfg c p r =
      r\<lparr>j_lock_expires_at := Some (db_now c 0 + go_div (pg_lockDuration cfg) 1000000 * 1000000),
        j_progress := (case p of None \<Rightarrow> j_progress r | Some n \<Rightarrow> n)\<rparr>"
    by (simp add: pg_heartbeat_set_def pg_lock_interval_def Let_def split: option.splits)
  with True hit show ?thesis by (simp add: pg_HeartbeatJob_def is_running_def)
next
  case False
  then show ?thesis using assms
    by (auto simp: pg_HeartbeatJob_def is_running_def)
qed

lemma pg_heartbeat_outcome_witness:
  "fst (pg_HeartbeatJob sample_pg ''r'' (Some 150) sample_env sample_db) = Inl (DBError check_error)"
proof -
  have "sample_job ''r'' Running \<in> set (jobs sample_db)" by (simp add: sample_jobs)
  from pg_heartbeat_outcome [OF sample_ids_ok this, of sample_env "Some 150" sample_pg]
  show ?thesis by (simp add: progress_ok_def)
qed

end
