(* ===== verification/Pg_Sched.thy ===== *)
theory Pg_Sched
  imports Pg_Attempts
begin

text \<open>
  The scheduler on PostgreSQL: what one bounded \<open>UPDATE .. WHERE id IN (SELECT .. LIMIT n)\<close> does,
  the recovery of a job whose worker died, and the difference between the scheduler process and
  the HTTP trigger.
\<close>

subsection \<open>Bounded updates\<close>

lemma selected_ids_iff:
  assumes "ids_ok xs" and "r \<in> set xs"
  shows "j_id r \<in> j_id ` set (select_limit P k n xs) \<longleftrightarrow> r \<in> set (select_limit P k n xs)"
  using ids_ok_selected(1) [OF assms] by blast

lemma selected_count:
  assumes "ids_ok xs"
  shows "rows_affected (\<lambda>r. j_id r \<in> j_id ` set (select_limit P k n xs)) xs
    = length (select_limit P k n xs)"
proof -
  let ?sel = "select_limit P k n xs"
  have "filter (\<lambda>r. j_id r \<in> j_id ` set ?sel) xs = filter (\<lambda>r. r \<in> set ?sel) xs"
    by (rule filter_cong [OF refl]) (rule selected_ids_iff [OF assms])
  moreover have "distinct (map j_id xs)" using assms by (simp add: ids_ok_def)
  then have "distinct xs" and "distinct ?sel"
    using distinct_select_limit [of j_id xs P k n] by (auto simp: distinct_map)
  moreover have "set (filter (\<lambda>r. r \<in> set ?sel) xs) = set ?sel"
    using set_select_limit_subset [of P k n xs] by auto
  ultimately show ?thesis
    by (metis rows_affected_def distinct_card distinct_filter)
qed

lemma selected_update:
  assumes "ids_ok xs"
  shows "update_where (\<lambda>r. j_id r \<in> j_id ` set (select_limit P k n xs)) f xs
    = map (\<lambda>r. if r \<in> set (select_limit P k n xs) then f r else r) xs"
  unfolding update_where_def
  by (rule map_cong [OF refl]) (simp add: selected_ids_iff [OF assms])

lemma pg_update_selected_eq:
  assumes "ids_ok (jobs s)" and "fault c 0 = None"
  shows "pg_update_selected P k n f c s =
    (Inr (length (select_limit P k n (jobs s))),
     s\<lparr>jobs := map (\<lambda>r. if r \<in> set (select_limit P k n (jobs s)) then f r else r) (jobs s)\<rparr>)"
  using assms by (simp add: pg_update_selected_def Let_def selected_count selected_update)

text \<open>The row of one job after a bounded update that reaches every matching row.\<close>

lemma pg_update_selected_lookup:
  assumes "ids_ok (jobs s)" and "fault c 0 = None" and "\<And>x. j_id (f x) = j_id x"
    and "lookup_job i (jobs s) = Some r"
    and "P r \<Longrightarrow> length (filter P (jobs s)) \<le> n"
  shows "lookup_job i (jobs (snd (pg_update_selected P k n f c s))) = Some (if P r then f r else r)"
proof -
  let ?sel = "select_limit P k n (jobs s)"
  have r: "r \<in> set (jobs s)" using find_key_Some [OF assms(4)] by simp
  have "lookup_job i (jobs (snd (pg_update_selected P k n f c s)))
      = map_option (\<lambda>x. if j_id x \<in> j_id ` set ?sel then f x else x) (lookup_job i (jobs s))"
    using assms(2) by (simp add: pg_update_selected_def Let_def find_key_update_where assms(3))
  also have "\<dots> = Some (if r \<in> set ?sel then f r else r)"
    by (simp only: assms(4) option.map selected_ids_iff [OF assms(1) r])
  also have "r \<in> set ?sel \<longleftrightarrow> P r"
    using select_limit_all [of P "jobs s" n k] select_limitD(2) [of r P k n "jobs s"] assms(5) r
    by auto
  finally show ?thesis .
qed

text \<open>One run of \<open>PromoteScheduledJobs\<close> makes at most \<open>limit\<close> due jobs available (1000 for a
  limit that is not positive), all of them if they are no more than that, those due longest
  first; it reports how many, and changes nothing else.\<close>

theorem pg_promote_scheduled_outcome:
  assumes "ids_ok (jobs s)" and "fault c 0 = None"
    and "n = nat (if limit \<le> 0 then 1000 else limit)"
  shows "\<exists>due. (\<forall>r \<in> set due. r \<in> set (jobs s) \<and> (j_status r = Scheduled \<or> j_status r = Retryable)
             \<and> j_scheduled_at r \<le> db_now c 0 \<and> \<not> row_locked c (j_id r))
    \<and> length due = min n (length (filter (pg_due c) (jobs s)))
    \<and> (\<forall>r \<in> set due. \<forall>q \<in> set (jobs s) - set due. pg_due c q \<longrightarrow> j_scheduled_at r \<le> j_scheduled_at q)
    \<and> pg_PromoteScheduledJobs limit c s = (Inr (length due),
        s\<lparr>jobs := map (\<lambda>r. if r \<in> set due then r\<lparr>j_status := Available\<rparr> else r) (jobs s)\<rparr>)"
proof (intro exI [of _ "select_limit (pg_due c) j_scheduled_at n (jobs s)"] conjI ballI impI)
  let ?due = "select_limit (pg_due c) j_scheduled_at n (jobs s)"
  show "length ?due = min n (length (filter (pg_due c) (jobs s)))" by (rule length_select_limit)
  show "pg_PromoteScheduledJobs limit c s = (Inr (length ?due),
        s\<lparr>jobs := map (\<lambda>r. if r \<in> set ?due then r\<lparr>j_status := Available\<rparr> else r) (jobs s)\<rparr>)"
    unfolding assms(3)
    by (simp add: pg_PromoteScheduledJobs_def default_limit_def pg_update_selected_eq [OF assms(1,2)])
  fix r assume r: "r \<in> set ?due"
  note rd = select_limitD [OF r]
  show "r \<in> set (jobs s)" by (rule rd)
  show "j_status r = Scheduled \<or> j_status r = Retryable" "j_scheduled_at r \<le> db_now c 0"
    "\<not> row_locked c (j_id r)" using rd(2) by (simp_all add: pg_due_def)
  fix q assume "q \<in> set (jobs s) - set ?due" and "pg_due c q"
  then show "j_scheduled_at r \<le> j_scheduled_at q"
    using select_limit_smallest [OF r] by blast
qed

lemma pg_promote_scheduled_outcome_witness:
  "\<exists>due. pg_PromoteScheduledJobs 0 sample_env sample_db = (Inr (length due),
        sample_db\<lparr>jobs := map (\<lambda>r. if r \<in> set due then r\<lparr>j_status := Available\<rparr> else r) (jobs sample_db)\<rparr>)"
  using pg_promote_scheduled_outcome [OF sample_ids_ok, of sample_env 1000 0] by auto

text \<open>One run of \<open>FailExpiredJobs\<close> ends the attempts of at most \<open>limit\<close> running jobs whose
  lock has expired and is not held by another transaction, the locks that expired first before
  the others; each of them gets the log entry \<open>job lock expired\<close>, loses its lock, and is
  discarded if it has no attempt left, else retryable at once. It reports how many, and changes
  nothing else.\<close>

theorem pg_fail_expired_outcome:
  assumes "ids_ok (jobs s)" and "fault c 0 = None"
    and "n = nat (if limit \<le> 0 then 1000 else limit)"
  shows "\<exists>exp. (\<forall>r \<in> set exp. r \<in> set (jobs s) \<and> j_status r = Running
             \<and> (\<exists>l. j_lock_expires_at r = Some l \<and> l < db_now c 0) \<and> \<not> row_locked c (j_id r))
    \<and> length exp = min n (length (filter (pg_expired c) (jobs s)))
    \<and> (\<forall>r \<in> set exp. \<forall>q \<in> set (jobs s) - set exp. pg_expired c q \<longrightarrow>
         the (j_lock_expires_at r) \<le> the (j_lock_expires_at q))
    \<and> pg_FailExpiredJobs limit c s = (Inr (length exp),
        s\<lparr>jobs := map (\<lambda>r. if r \<in> set exp then pg_expire_set c r else r) (jobs s)\<rparr>)
    \<and> (\<forall>r \<in> set exp. j_lock_expires_at (pg_expire_set c r) = None
         \<and> j_errors (pg_expire_set c r) = j_errors r @ [pg_error_entry c ''job lock expired'']
         \<and> (if j_max_attempts r \<le> j_attempt r then j_status (pg_expire_set c r) = Discarded
            else j_status (pg_expire_set c r) = Retryable
                 \<and> j_scheduled_at (pg_expire_set c r) = db_now c 0))"
proof (intro exI [of _ "select_limit (pg_expired c) lock_key n (jobs s)"] conjI ballI impI)
  let ?exp = "select_limit (pg_expired c) lock_key n (jobs s)"
  show "length ?exp = min n (length (filter (pg_expired c) (jobs s)))" by (rule length_select_limit)
  show "pg_FailExpiredJobs limit c s = (Inr (length ?exp),
        s\<lparr>jobs := map (\<lambda>r. if r \<in> set ?exp then pg_expire_set c r else r) (jobs s)\<rparr>)"
    unfolding assms(3)
    by (simp add: pg_FailExpiredJobs_def default_limit_def pg_update_selected_eq [OF assms(1,2)])
  fix r assume r: "r \<in> set ?exp"
  note rd = select_limitD [OF r]
  show "r \<in> set (jobs s)" by (rule rd)
  show "j_status r = Running" "\<exists>l. j_lock_expires_at r = Some l \<and> l < db_now c 0"
    "\<not> row_locked c (j_id r)" using rd(2) by (auto simp: pg_expired_def split: option.splits)
  show "j_lock_expires_at (pg_expire_set c r) = None"
    "j_errors (pg_expire_set c r) = j_errors r @ [pg_error_entry c ''job lock expired'']"
    "if j_max_attempts r \<le> j_attempt r then j_status (pg_expire_set c r) = Discarded
     else j_status (pg_expire_set c r) = Retryable \<and> j_scheduled_at (pg_expire_set c r) = db_now c 0"
    by (simp_all add: pg_expire_set_def)
  fix q assume q: "q \<in> set (jobs s) - set ?exp" "pg_expired c q"
  then have "lock_key r \<le> lock_key q" using select_limit_smallest [OF r] by blast
  with rd(2) q(2) show "the (j_lock_expires_at r) \<le> the (j_lock_expires_at q)"
    by (auto simp: pg_expired_def lock_key_def split: option.splits)
qed

lemma pg_fail_expired_outcome_witness:
  "\<exists>exp. pg_FailExpiredJobs 5 sample_env sample_db = (Inr (length exp),
        sample_db\<lparr>jobs := map (\<lambda>r. if r \<in> set exp then pg_expire_set sample_env r else r) (jobs sample_db)\<rparr>)
     \<and> length exp = 1"
proof -
  have one: "length (filter (pg_expired sample_env) (jobs sample_db)) = 1" by code_simp
  from pg_fail_expired_outcome [OF sample_ids_ok, of sample_env "nat 5" 5] obtain exp where
    "pg_FailExpiredJobs 5 sample_env sample_db = (Inr (length exp),
        sample_db\<lparr>jobs := map (\<lambda>r. if r \<in> set exp then pg_expire_set sample_env r else r) (jobs sample_db)\<rparr>)"
    "length exp = min (nat 5) (length (filter (pg_expired sample_env) (jobs sample_db)))" by auto
  then show ?thesis using one by (intro exI [of _ exp] conjI) simp_all
qed

subsection \<open>Recovery from a dead worker\<close>

lemma pg_expire_set_id [simp]: "j_id (pg_expire_set c r) = j_id r"
  by (simp add: pg_expire_set_def)

lemma pg_PromoteScheduledJobs_lookup:
  assumes "ids_ok (jobs s)" and "fault c 0 = None" and "lookup_job i (jobs s) = Some r"
    and "pg_due c r \<Longrightarrow> length (filter (pg_due c) (jobs s)) \<le> 1000"
  shows "lookup_job i (jobs (snd (pg_PromoteScheduledJobs 1000 c s)))
    = Some (if pg_due c r then r\<lparr>j_status := Available\<rparr> else r)"
  unfolding pg_PromoteScheduledJobs_def
  by (rule pg_update_selected_lookup [OF assms(1,2) _ assms(3)]) (simp_all add: default_limit_def assms(4))

lemma pg_FailExpiredJobs_lookup:
  assumes "ids_ok (jobs s)" and "fault c 0 = None" and "lookup_job i (jobs s) = Some r"
    and "pg_expired c r \<Longrightarrow> length (filter (pg_expired c) (jobs s)) \<le> 1000"
  shows "lookup_job i (jobs (snd (pg_FailExpiredJobs 1000 c s)))
    = Some (if pg_expired c r then pg_expire_set c r else r)"
  unfolding pg_FailExpiredJobs_def
  by (rule pg_update_selected_lookup [OF assms(1,2) _ assms(3)]) (simp_all add: default_limit_def assms(4))

lemma pg_tick_ids: "ids_ok (jobs s) \<Longrightarrow> ids_ok (jobs (snd (pg_PromoteScheduledJobs n c s)))"
  "ids_ok (jobs s) \<Longrightarrow> ids_ok (jobs (snd (pg_FailExpiredJobs n c s)))"
  using pg_promote_scheduled_step pg_fail_expired_step table_step_ids by blast+

text \<open>C7. A job whose worker died is picked up by the scheduler process: when its lock has expired
  and it has an attempt left, then after two ticks without statement failures (no more than 1000
  expired and 1000 due jobs, the row not locked by others) it is available again, due now, with
  its attempt counted and the expiry in its log; so a worker can claim it.\<close>

theorem pg_scheduler_recovers:
  assumes "ids_ok (jobs s)" and "lookup_job i (jobs s) = Some r" and "pg_expired c2 r"
    and "j_attempt r < j_max_attempts r"
    and "fault c1 0 = None" and "fault c2 0 = None" and "fault c3 0 = None" and "fault c4 0 = None"
    and "s1 = scheduler_tick (pg_driver cfg) c1 id c2 s"
    and "length (filter (pg_expired c2) (jobs (snd (pg_PromoteScheduledJobs 1000 c1 s)))) \<le> 1000"
    and "length (filter (pg_due c3) (jobs s1)) \<le> 1000"
    and "db_now c2 0 \<le> db_now c3 0" and "\<not> row_locked c3 i"
  shows "\<exists>r'. lookup_job i (jobs (scheduler_tick (pg_driver cfg) c3 id c4 s1)) = Some r'
    \<and> j_status r' = Available \<and> j_scheduled_at r' \<le> db_now c3 0 \<and> j_attempt r' = j_attempt r
    \<and> j_errors r' = j_errors r @ [pg_error_entry c2 ''job lock expired''] \<and> j_queue r' = j_queue r"
proof -
  let ?p = "snd (pg_PromoteScheduledJobs 1000 c1 s)"
  let ?x = "pg_expire_set c2 r"
  let ?q = "snd (pg_PromoteScheduledJobs 1000 c3 s1)"
  have i: "j_id r = i" using find_key_Some [OF assms(2)] by simp
  have run: "j_status r = Running" using assms(3) by (simp add: pg_expired_def)
  then have "\<not> pg_due c1 r" by (simp add: pg_due_def)
  with pg_PromoteScheduledJobs_lookup [OF assms(1,5,2)] have p: "lookup_job i (jobs ?p) = Some r" by simp
  have s1: "s1 = snd (pg_FailExpiredJobs 1000 c2 ?p)"
    using assms(9) by (simp add: scheduler_tick_def pg_driver_simps)
  have idp: "ids_ok (jobs ?p)" and ids1: "ids_ok (jobs s1)"
    unfolding s1 by (intro pg_tick_ids assms(1))+
  have l1: "lookup_job i (jobs s1) = Some ?x"
    using pg_FailExpiredJobs_lookup [OF idp assms(6) p] assms(3,10) s1 by simp
  have x: "j_status ?x = Retryable" "j_scheduled_at ?x = db_now c2 0" "j_attempt ?x = j_attempt r"
    "j_errors ?x = j_errors r @ [pg_error_entry c2 ''job lock expired'']" "j_queue ?x = j_queue r"
    using assms(4) by (simp_all add: pg_expire_set_def)
  have due: "pg_due c3 ?x" using x assms(12,13) i by (simp add: pg_due_def)
  have l2: "lookup_job i (jobs ?q) = Some (?x\<lparr>j_status := Available\<rparr>)"
    using pg_PromoteScheduledJobs_lookup [OF ids1 assms(7) l1] due assms(11) by simp
  have "lookup_job i (jobs (snd (pg_FailExpiredJobs 1000 c4 ?q))) = Some (?x\<lparr>j_status := Available\<rparr>)"
    using pg_FailExpiredJobs_lookup [OF pg_tick_ids(1) [OF ids1] assms(8) l2]
    by (simp add: pg_expired_def)
  then show ?thesis using x assms(12) by (simp add: scheduler_tick_def pg_driver_simps)
qed

lemma pg_scheduler_recovers_witness:
  "\<exists>r'. lookup_job ''r'' (jobs (scheduler_tick (pg_driver sample_pg) sample_env id sample_env
       (scheduler_tick (pg_driver sample_pg) sample_env id sample_env sample_db))) = Some r'
    \<and> j_status r' = Available"
proof -
  have l: "lookup_job ''r'' (jobs sample_db) = Some (sample_job ''r'' Running)" by code_simp
  have e: "pg_expired sample_env (sample_job ''r'' Running)"
    by (simp add: pg_expired_def) (simp add: sample_job_def)
  have a: "j_attempt (sample_job ''r'' Running) < j_max_attempts (sample_job ''r'' Running)"
    by (simp add: sample_job_def)
  have n1: "length (filter (pg_expired sample_env)
      (jobs (snd (pg_PromoteScheduledJobs 1000 sample_env sample_db)))) \<le> 1000"
    and n2: "length (filter (pg_due sample_env)
      (jobs (scheduler_tick (pg_driver sample_pg) sample_env id sample_env sample_db))) \<le> 1000"
    by (rule order_trans [OF length_filter_le], simp add: scheduler_tick_def pg_driver_simps
        pg_PromoteScheduledJobs_def pg_FailExpiredJobs_def pg_update_selected_def Let_def sample_jobs)+
  from pg_scheduler_recovers [OF sample_ids_ok l e a _ _ _ _ refl n1 n2, of sample_env]
  show ?thesis by auto
qed

text \<open>C39. Triggering the scheduler over HTTP only promotes: however often \<open>/scheduler/run\<close> is
  called, a running job stays as it is, even when its worker died and its lock has long
  expired.\<close>

theorem pg_http_scheduler_keeps_running:
  assumes "ids_ok (jobs s)" and "r \<in> set (jobs s)" and "j_status r = Running"
  shows "r \<in> set (jobs (foldl (\<lambda>t c. snd (web_RunScheduler (pg_driver cfg) c t)) s cs))"
  using assms(1,2)
proof (induction cs arbitrary: s)
  case Nil
  then show ?case by simp
next
  case (Cons c cs)
  let ?t = "snd (web_RunScheduler (pg_driver cfg) c s)"
  have t: "?t = snd (pg_PromoteScheduledJobs 1000 c s)"
    by (simp add: web_RunScheduler_def pg_driver_simps split: prod.splits sum.splits)
  have "r \<in> set (jobs ?t)"
  proof (cases "fault c 0")
    case None
    have "\<not> pg_due c r" using assms(3) by (simp add: pg_due_def)
    then have "pg_due c r \<Longrightarrow> length (filter (pg_due c) (jobs s)) \<le> 1000" by simp
    from pg_PromoteScheduledJobs_lookup [OF Cons.prems(1) None ids_ok_lookup [OF Cons.prems] this]
    have "lookup_job (j_id r) (jobs ?t) = Some r" using \<open>\<not> pg_due c r\<close> by (simp add: t)
    then show ?thesis using find_key_Some by metis
  next
    case (Some e)
    then show ?thesis using Cons.prems
      by (simp add: t pg_PromoteScheduledJobs_def pg_update_selected_def)
  qed
  moreover have "ids_ok (jobs ?t)" unfolding t by (rule pg_tick_ids(1) [OF Cons.prems(1)])
  ultimately show ?case using Cons.IH by simp
qed

lemma pg_http_scheduler_keeps_running_witness:
  "sample_job ''r'' Running \<in> set (jobs (foldl (\<lambda>t c. snd (web_RunScheduler (pg_driver sample_pg) c t))
     sample_db [sample_env, sample_env]))"
  by (rule pg_http_scheduler_keeps_running [OF sample_ids_ok]) (simp_all add: sample_jobs)

end
