(* ===== verification/Driver_Equiv.thy ===== *)
theory Driver_Equiv
  imports Driver_Pg Driver_Sqlite
begin

text \<open>
  The two drivers against each other. A SQLite database is read as a PostgreSQL one by turning
  its whole seconds into nanoseconds (\<open>scale_db\<close>). On an engine with SQLite's published grammar no
  SQLite job is ever attempted (\<open>unattempted\<close>). Up to the claim, which is where the drivers part,
  the SQLite driver does to its database what the PostgreSQL driver does to the image, where the
  environment gives whole seconds (\<open>same_call\<close>).
\<close>

subsection \<open>Seconds as nanoseconds\<close>

definition scale_job :: "job \<Rightarrow> job" where
  "scale_job r =
     r\<lparr>j_created_at := parseTime (j_created_at r),
       j_scheduled_at := parseTime (j_scheduled_at r),
       j_attempted_at := parseTimePtr (j_attempted_at r),
       j_finalized_at := parseTimePtr (j_finalized_at r),
       j_lock_expires_at := parseTimePtr (j_lock_expires_at r)\<rparr>"

definition scale_queue :: "queue_row \<Rightarrow> queue_row" where
  "scale_queue q =
     q\<lparr>q_paused_at := parseTimePtr (q_paused_at q), q_created_at := parseTime (q_created_at q),
       q_updated_at := parseTime (q_updated_at q)\<rparr>"

definition scale_worker :: "worker_row \<Rightarrow> worker_row" where
  "scale_worker w =
     w\<lparr>w_created_at := parseTime (w_created_at w), w_last_seen_at := parseTimePtr (w_last_seen_at w)\<rparr>"

definition scale_db :: "database \<Rightarrow> database" where
  "scale_db s =
     s\<lparr>jobs := map scale_job (jobs s), queues := map scale_queue (queues s),
       workers := map scale_worker (workers s)\<rparr>"

lemma parseTime_le [simp]: "parseTime a \<le> parseTime b \<longleftrightarrow> a \<le> b"
  by (simp add: parseTime_def)

lemma parseTime_less [simp]: "parseTime a < parseTime b \<longleftrightarrow> a < b"
  by (simp add: parseTime_def)

lemma parseTime_eq [simp]: "parseTime a = parseTime b \<longleftrightarrow> a = b"
  by (simp add: parseTime_def)

lemma parseTimePtr_simps [simp]:
  "parseTimePtr None = None" "parseTimePtr (Some a) = Some (parseTime a)"
  "parseTimePtr t = None \<longleftrightarrow> t = None"
  by (auto simp: parseTimePtr_def parseTime_def split: option.splits)

lemma scale_job_simps [row_simps]:
  "j_id (scale_job r) = j_id r" "j_queue (scale_job r) = j_queue r" "j_kind (scale_job r) = j_kind r"
  "j_status (scale_job r) = j_status r" "j_priority (scale_job r) = j_priority r"
  "j_attempt (scale_job r) = j_attempt r" "j_max_attempts (scale_job r) = j_max_attempts r"
  "j_errors (scale_job r) = j_errors r" "j_attempted_by (scale_job r) = j_attempted_by r"
  "j_scheduled_at (scale_job r) = parseTime (j_scheduled_at r)"
  "j_finalized_at (scale_job r) = parseTimePtr (j_finalized_at r)"
  "j_lock_expires_at (scale_job r) = parseTimePtr (j_lock_expires_at r)"
  by (simp_all add: scale_job_def)

lemma scale_db_simps [row_simps]:
  "jobs (scale_db s) = map scale_job (jobs s)" "queues (scale_db s) = map scale_queue (queues s)"
  "workers (scale_db s) = map scale_worker (workers s)"
  "q_name (scale_queue q) = q_name q" "q_paused_at (scale_queue q) = parseTimePtr (q_paused_at q)"
  "w_id (scale_worker w) = w_id w"
  by (simp_all add: scale_db_def scale_queue_def scale_worker_def)

lemma scale_row: "scanJobRowSqlite r = job_row.truncate (scale_job r)"
  by (simp add: scanJobRowSqlite_def scale_job_def job_row.defs)

lemma image_scale_ids [row_simps]:
  "j_id ` set (map scale_job xs) = j_id ` set xs"
  "q_name ` set (map scale_queue qs) = q_name ` set qs"
  by (auto simp: row_simps image_iff)

subsection \<open>Calls on which the engines agree\<close>

text \<open>Whole seconds everywhere and no row locked by others.\<close>

definition whole_env :: "call_env \<Rightarrow> bool" where
  "whole_env c \<longleftrightarrow> (\<forall>n. nanos dvd db_now c n) \<and> (\<forall>n. nanos dvd clock c n) \<and> (\<forall>i. \<not> row_locked c i)"

text \<open>A time stamp of whole seconds is stored exactly.\<close>

definition exact_times :: "pg_cfg \<Rightarrow> bool" where
  "exact_times p \<longleftrightarrow> (\<forall>t. pg_ts p (parseTime t) = parseTime t)"

text \<open>Calls that are not a claim, with what each asks of the engines: that PostgreSQL takes the backoff as
  an \<open>int\<close> and SQLite the entry of the driver as JSON.\<close>

fun same_call :: "pg_cfg \<Rightarrow> sqlite_cfg \<Rightarrow> call_env \<Rightarrow> driver_call \<Rightarrow> bool" where
  "same_call p q c (CallCreate opts) =
     (whole_env c \<and> (case o_ScheduledAt opts of None \<Rightarrow> True | Some t \<Rightarrow> nanos dvd t))"
| "same_call p q c (CallClaim _ _) = False"
| "same_call p q c (CallFail i m b) =
     (whole_env c \<and> pg_int4 p b \<and> sq_json q (buildErrorEntry (clock c 0) m) \<noteq> None)"
| "same_call p q c (CallFailExpired _) =
     (whole_env c \<and> sq_json q (buildErrorEntry (clock c 0) ''job lock expired'') \<noteq> None)"
| "same_call p q c _ = whole_env c"

text \<open>The same answer, up to the wording of a database error.\<close>

fun same_answer :: "go_error + 'a \<Rightarrow> go_error + 'a \<Rightarrow> bool" where
  "same_answer (Inl (DBError _)) (Inl (DBError _)) = True"
| "same_answer x y = (x = y)"

lemma same_answer_refl [simp]: "same_answer x x"
  by (cases x rule: sum.exhaust; cases "projl x"; cases x) auto

lemma whole_now [simp]: "whole_env c \<Longrightarrow> parseTime (sq_now c n) = db_now c n"
  by (simp add: whole_env_def sq_now_def parseTime_def)

lemma whole_clock [simp]: "whole_env c \<Longrightarrow> parseTime (sq_format (clock c n)) = clock c n"
  by (simp add: whole_env_def sq_format_def parseTime_def)

subsection \<open>No attempt without a claim\<close>

text \<open>No row is running and none was ever attempted.\<close>

definition unattempted :: "job \<Rightarrow> bool" where
  "unattempted r \<longleftrightarrow> j_attempt r = 0 \<and> j_status r \<noteq> Running"

abbreviation all_unattempted :: "database \<Rightarrow> bool" where
  "all_unattempted s \<equiv> \<forall>r \<in> set (jobs s). unattempted r"

lemma exec_update_unattempted:
  assumes "\<And>r. P r \<Longrightarrow> unattempted r \<Longrightarrow> unattempted (f r)" and "all_unattempted s"
  shows "all_unattempted (snd (sq_exec_update P f c s))"
  using assms by (auto simp: sq_exec_update_def set_update_where split: option.splits)

lemma update_selected_unattempted:
  assumes "\<And>r. P r \<Longrightarrow> unattempted r \<Longrightarrow> unattempted (f r)" and "all_unattempted s" and "ids_ok (jobs s)"
  shows "all_unattempted (snd (sq_update_selected P k n f c s))"
proof -
  let ?ids = "j_id ` set (select_limit P k n (jobs s))"
  have "unattempted (if j_id r \<in> ?ids then f r else r)" if r: "r \<in> set (jobs s)" for r
  proof (cases "j_id r \<in> ?ids")
    case True
    then have "P r" by (rule ids_ok_selected(2) [OF assms(3) r])
    with assms(1,2) r True show ?thesis by simp
  qed (use assms(2) r in simp)
  then have "\<forall>r \<in> set (update_where (\<lambda>r. j_id r \<in> ?ids) f (jobs s)). unattempted r"
    unfolding set_update_where by blast
  with assms(2) show ?thesis by (simp add: sq_update_selected_def Let_def split: option.split)
qed

lemma create_unattempted: "all_unattempted s \<Longrightarrow> all_unattempted (snd (sq_CreateJob opts c s))"
  by (auto simp: sq_CreateJob_def Let_def sq_new_job_def sq_create_status_def unattempted_def
      split: option.splits sum.splits)

lemma claim_unattempted:
  "\<not> sq_cte_update q \<Longrightarrow> jobs (snd (sq_ClaimJob q name w c s)) = jobs s"
  by (simp add: sq_ClaimJob_def Let_def split: option.splits)

lemma apply_unattempted:
  assumes "\<not> sq_cte_update q" and "all_unattempted s" and "ids_ok (jobs s)"
  shows "all_unattempted (apply_call (sqlite_driver q) c x s)"
proof -
  have run: "sq_is_running i r \<Longrightarrow> unattempted r \<Longrightarrow> R" for i r R
    by (simp add: sq_is_running_def unattempted_def)
  have ex: "sq_expired c' r \<Longrightarrow> unattempted r \<Longrightarrow> R" for c' r R
    by (simp add: sq_expired_def unattempted_def)
  note upd = exec_update_unattempted [OF _ assms(2)] update_selected_unattempted [OF _ assms(2,3)]
  show ?thesis
  proof (cases x)
    case (CallFail i m b)
    have "all_unattempted (snd (sq_exec_update (sq_is_running i) f c s))" for f
      by (rule upd(1)) (erule (1) run)
    with assms(2) CallFail show ?thesis
      by (simp add: sqlite_driver_simps sq_FailJob_def split: option.split)
  next
    case (CallComplete i v)
    have "all_unattempted (snd (sq_exec_update (sq_is_running i) f c s))" for f
      by (rule upd(1)) (erule (1) run)
    with assms(2) CallComplete show ?thesis by (simp add: sqlite_driver_simps sq_CompleteJob_def)
  next
    case (CallHeartbeat i p)
    have "all_unattempted (snd (sq_exec_update (sq_is_running i) f c s))" for f
      by (rule upd(1)) (erule (1) run)
    with assms(2) CallHeartbeat show ?thesis by (simp add: sqlite_driver_simps sq_HeartbeatJob_def)
  next
    case (CallFailExpired n)
    have "all_unattempted (snd (sq_update_selected (sq_expired c) k l f c s))"
      for k :: "job \<Rightarrow> int" and l f
      by (rule upd(2)) (erule (1) ex)
    with assms(2) CallFailExpired show ?thesis
      by (simp add: sqlite_driver_simps sq_FailExpiredJobs_def split: option.split)
  next
    case (CallPromoteScheduled n)
    then show ?thesis
      by (simp only: apply_call.simps sqlite_driver_simps sq_PromoteScheduledJobs_def)
        (rule upd(2), simp add: unattempted_def)
  next
    case (CallCancel i)
    then show ?thesis
      by (simp only: apply_call.simps sqlite_driver_simps sq_CancelJob_def)
        (rule upd(1), simp add: unattempted_def)
  next
    case (CallPromote i)
    then show ?thesis
      by (simp only: apply_call.simps sqlite_driver_simps sq_PromoteJob_def)
        (rule upd(1), simp add: unattempted_def)
  qed (use assms in \<open>simp_all add: sqlite_driver_simps create_unattempted claim_unattempted
        sq_PauseQueue_def sq_ResumeQueue_def split: option.split\<close>)
qed

lemma run_unattempted:
  "\<not> sq_cte_update q \<Longrightarrow> \<forall>x \<in> set xs. call_ok (snd x) \<Longrightarrow> all_unattempted s \<Longrightarrow> ids_ok (jobs s) \<Longrightarrow>
     all_unattempted (run_calls (sqlite_driver q) xs s)"
proof (induction xs arbitrary: s)
  case (Cons x xs)
  obtain c y where x: "x = (c, y)" by (cases x)
  with Cons.prems have "ids_ok (jobs (apply_call (sqlite_driver q) c y s))"
    using sqlite.apply_call_step table_step_ids by fastforce
  moreover note apply_unattempted [OF Cons.prems(1,3,4), of c y]
  moreover have "\<forall>x \<in> set xs. call_ok (snd x)" using Cons.prems(2) by simp
  ultimately show ?case unfolding x run_calls.simps by (intro Cons.IH [OF Cons.prems(1)])
qed simp

subsection \<open>Lockstep, method by method\<close>

abbreviation lockstep ::
  "(go_error + 'a) \<times> database \<Rightarrow> (go_error + 'a) \<times> database \<Rightarrow> bool" where
  "lockstep x y \<equiv> same_answer (fst x) (fst y) \<and> scale_db (snd x) = snd y"

lemma scale_update_jobs:
  "scale_db (s\<lparr>jobs := xs\<rparr>) = (scale_db s)\<lparr>jobs := map scale_job xs\<rparr>"
  "scale_db (s\<lparr>queues := qs\<rparr>) = (scale_db s)\<lparr>queues := map scale_queue qs\<rparr>"
  "scale_db (s\<lparr>workers := ws\<rparr>) = (scale_db s)\<lparr>workers := map scale_worker ws\<rparr>"
  by (simp_all add: scale_db_def)

lemma exec_update_lockstep:
  assumes "\<And>r. P' (scale_job r) = P r" and "\<And>r. P r \<Longrightarrow> f' (scale_job r) = scale_job (f r)"
  shows "lockstep (sq_exec_update P f c s) (pg_exec_update P' f' c (scale_db s))"
  by (simp add: sq_exec_update_def pg_exec_update_def scale_update_jobs scale_db_simps
      rows_affected_map [of P' scale_job P, OF assms(1)]
      update_where_map [of P' scale_job P f' f, OF assms] assms(1) split: option.split)

lemma selected_ids:
  assumes "\<And>r. P' (scale_job r) = P r"
    and "\<And>x y. k' (scale_job x) \<le> k' (scale_job y) \<longleftrightarrow> k x \<le> k y"
  shows "j_id ` set (select_limit P' k' n (map scale_job xs)) = j_id ` set (select_limit P k n xs)"
  unfolding select_limit_map [of P' scale_job P k' k, OF assms] image_scale_ids ..

lemma update_selected_lockstep:
  assumes "\<And>r. P' (scale_job r) = P r"
    and "\<And>x y. k' (scale_job x) \<le> k' (scale_job y) \<longleftrightarrow> k x \<le> k y"
    and "\<And>r. P r \<Longrightarrow> f' (scale_job r) = scale_job (f r)"
    and "ids_ok (jobs s)"
  shows "lockstep (sq_update_selected P k n f c s) (pg_update_selected P' k' n f' c (scale_db s))"
proof -
  let ?ids = "j_id ` set (select_limit P k n (jobs s))"
  have upd: "update_where (\<lambda>r. j_id r \<in> ?ids) f' (map scale_job (jobs s))
      = map scale_job (update_where (\<lambda>r. j_id r \<in> ?ids) f (jobs s))"
    unfolding update_where_def map_map comp_def
  proof (rule map_cong [OF refl])
    fix r assume "r \<in> set (jobs s)"
    then have "f' (scale_job r) = scale_job (f r)" if "j_id r \<in> ?ids"
      using ids_ok_selected(2) [OF assms(4) _ that] assms(3) by blast
    then show "(if j_id (scale_job r) \<in> ?ids then f' (scale_job r) else scale_job r)
        = scale_job (if j_id r \<in> ?ids then f r else r)"
      by (simp only: scale_job_simps split: if_split) simp
  qed
  have "rows_affected (\<lambda>r. j_id r \<in> ?ids) (map scale_job (jobs s))
      = rows_affected (\<lambda>r. j_id r \<in> ?ids) (jobs s)"
    by (rule rows_affected_map) (simp add: scale_job_simps)
  with upd show ?thesis
    by (simp add: sq_update_selected_def pg_update_selected_def scale_update_jobs scale_db_simps
        selected_ids [of P' P k' k, OF assms(1,2)] Let_def split: option.split)
qed

lemma upsert_lockstep:
  "whole_env c \<Longrightarrow> map scale_queue (sq_upsert_queue (sq_now c n) name qs)
     = pg_upsert_queue (db_now c n) name (map scale_queue qs)"
  unfolding sq_upsert_queue_def pg_upsert_queue_def image_scale_ids
  by (simp add: update_where_def scale_queue_def)

lemma new_job_lockstep:
  assumes "exact_times p" and "same_call p q c (CallCreate opts)"
  shows "scale_job (sq_new_job c opts i) = pg_new_job p c opts i"
proof -
  have t: "parseTime (sq_format t) = t" if "nanos dvd t" for t
    using that by (simp add: sq_format_def parseTime_def)
  moreover have "pg_ts p t = t" if "nanos dvd t" for t
    using assms(1) t [OF that] by (metis exact_times_def)
  moreover have "nanos dvd clock c 0" using assms(2) by (simp add: whole_env_def)
  ultimately show ?thesis
    using assms(2)
    by (simp add: sq_new_job_def pg_new_job_def scale_job_def Let_def sq_create_status_def
        pg_create_status_def split: option.splits)
qed

lemma create_lockstep:
  assumes "exact_times p" and "same_call p q c (CallCreate opts)"
  shows "lockstep (sq_CreateJob opts c s) (pg_CreateJob p opts c (scale_db s))"
proof -
  have w: "whole_env c" using assms(2) by simp
  have ids: "j_id (sq_new_job c opts i) = j_id (pg_new_job p c opts i)" for i
    by (simp add: new_job_lockstep [OF assms, symmetric] scale_job_simps)
  show ?thesis
    by (simp add: sq_CreateJob_def pg_CreateJob_def Let_def scale_update_jobs scale_db_simps
        upsert_lockstep [OF w] new_job_lockstep [OF assms] scale_row ids image_scale_ids del: set_map
        split: option.split sum.split)
qed

lemma is_running_lockstep: "is_running i (scale_job r) = sq_is_running i r"
  by (simp add: is_running_def sq_is_running_def scale_job_simps)

lemma complete_lockstep:
  assumes "whole_env c"
  shows "lockstep (sq_CompleteJob i v c s) (pg_CompleteJob i v c (scale_db s))"
  unfolding sq_CompleteJob_def pg_CompleteJob_def
  by (rule exec_update_lockstep, rule is_running_lockstep) (simp add: scale_job_def assms)

text \<open>Where no job is running, the calls of a worker find nothing.\<close>

lemma none_running:
  assumes "all_unattempted s"
  shows "\<not> (\<exists>r \<in> set (jobs s). sq_is_running i r)" and "\<not> (\<exists>r \<in> set (jobs s). sq_expired c r)"
    and "\<not> (\<exists>r \<in> set (jobs (scale_db s)). is_running i r)" and "\<not> (\<exists>r \<in> set (jobs (scale_db s)). pg_expired c r)"
  using assms
  by (auto simp: unattempted_def sq_is_running_def sq_expired_def is_running_def pg_expired_def scale_job_simps
      scale_db_simps)

lemma exec_update_none:
  "\<not> (\<exists>r \<in> set (jobs s). P r) \<Longrightarrow> pg_exec_update P f c s
     = (case fault c 0 of Some e \<Rightarrow> (Inl (DBError e), s) | None \<Rightarrow> (Inl ErrWrongState, s))"
  "\<not> (\<exists>r \<in> set (jobs s). P r) \<Longrightarrow> sq_exec_update P f c s
     = (case fault c 0 of Some e \<Rightarrow> (Inl (DBError e), s) | None \<Rightarrow> (Inl ErrWrongState, s))"
  by (simp_all add: pg_exec_update_def sq_exec_update_def split: option.split)

lemma update_selected_none:
  assumes "\<not> (\<exists>r \<in> set (jobs s). P r)"
  shows "pg_update_selected P k n f c s
      = (case fault c 0 of Some e \<Rightarrow> (Inl (DBError e), s) | None \<Rightarrow> (Inr 0, s))"
    and "sq_update_selected P k n f c s
      = (case fault c 0 of Some e \<Rightarrow> (Inl (DBError e), s) | None \<Rightarrow> (Inr 0, s))"
proof -
  have "select_limit P k n (jobs s) = []" using assms by (auto simp: select_limit_def filter_empty_conv)
  then show "pg_update_selected P k n f c s
      = (case fault c 0 of Some e \<Rightarrow> (Inl (DBError e), s) | None \<Rightarrow> (Inr 0, s))"
    and "sq_update_selected P k n f c s
      = (case fault c 0 of Some e \<Rightarrow> (Inl (DBError e), s) | None \<Rightarrow> (Inr 0, s))"
    by (simp_all add: pg_update_selected_def sq_update_selected_def update_where_def rows_affected_def
        split: option.split)
qed

lemma fail_lockstep:
  assumes "same_call p q c (CallFail i m b)" and "all_unattempted s"
  shows "lockstep (sq_FailJob q i m b c s) (pg_FailJob p i m b c (scale_db s))"
  using assms(1) none_running(1,3) [OF assms(2), of i]
  by (cases "fault c 0") (auto simp: sq_FailJob_def pg_FailJob_def exec_update_none
      simp del: neq0_conv split: option.split)

lemma heartbeat_lockstep:
  assumes "all_unattempted s"
  shows "lockstep (sq_HeartbeatJob q i b c s) (pg_HeartbeatJob p i b c (scale_db s))"
  using none_running(1,3) [OF assms, of i]
  by (cases "fault c 0") (auto simp: sq_HeartbeatJob_def pg_HeartbeatJob_def exec_update_none)

lemma fail_expired_lockstep:
  assumes "same_call p q c (CallFailExpired n)" and "all_unattempted s"
  shows "lockstep (sq_FailExpiredJobs q n c s) (pg_FailExpiredJobs n c (scale_db s))"
  using assms(1) none_running(2,4) [OF assms(2), of c]
  by (cases "fault c 0") (auto simp: sq_FailExpiredJobs_def pg_FailExpiredJobs_def update_selected_none)

lemma promote_scheduled_lockstep:
  assumes w: "whole_env c" and "ids_ok (jobs s)"
  shows "lockstep (sq_PromoteScheduledJobs n c s) (pg_PromoteScheduledJobs n c (scale_db s))"
proof -
  note now = whole_now [OF w, of 0, symmetric]
  have P: "pg_due c (scale_job r) = sq_due c r" for r
    using w by (simp add: pg_due_def sq_due_def scale_job_simps whole_env_def now del: whole_now)
  show ?thesis
    unfolding sq_PromoteScheduledJobs_def pg_PromoteScheduledJobs_def sq_default_limit_def default_limit_def
    by (intro update_selected_lockstep P assms(2)) (simp_all add: scale_job_def)
qed

lemma promote_lockstep:
  assumes w: "whole_env c"
  shows "lockstep (sq_PromoteJob i c s) (pg_PromoteJob i c (scale_db s))"
  unfolding sq_PromoteJob_def pg_PromoteJob_def whole_now [OF w, of 0, symmetric]
  by (rule exec_update_lockstep) (simp_all add: scale_job_def del: whole_now)

lemma cancel_lockstep:
  assumes w: "whole_env c"
  shows "lockstep (sq_CancelJob i c s) (pg_CancelJob i c (scale_db s))"
  unfolding sq_CancelJob_def pg_CancelJob_def whole_now [OF w, of 0, symmetric]
  by (rule exec_update_lockstep) (simp_all add: scale_job_def del: whole_now split: option.split)

lemma pause_lockstep:
  assumes w: "whole_env c"
  shows "lockstep (sq_PauseQueue name c s) (pg_PauseQueue name c (scale_db s))"
    and "lockstep (sq_ResumeQueue name c s) (pg_ResumeQueue name c (scale_db s))"
proof -
  note now = whole_now [OF w, of 0, symmetric]
  show "lockstep (sq_PauseQueue name c s) (pg_PauseQueue name c (scale_db s))"
    by (simp add: sq_PauseQueue_def pg_PauseQueue_def scale_update_jobs scale_db_simps image_scale_ids
        now update_where_def scale_queue_def comp_def Let_def del: whole_now set_map split: option.split)
  have "update_where (\<lambda>q. q_name q = name) (\<lambda>q. q\<lparr>q_paused_at := None, q_updated_at := db_now c 0\<rparr>)
      (map scale_queue qs) = map scale_queue (update_where (\<lambda>q. q_name q = name)
        (\<lambda>q. q\<lparr>q_paused_at := None, q_updated_at := sq_now c 0\<rparr>) qs)" for qs
    by (rule update_where_map) (simp_all add: scale_queue_def now del: whole_now)
  then show "lockstep (sq_ResumeQueue name c s) (pg_ResumeQueue name c (scale_db s))"
    by (simp add: sq_ResumeQueue_def pg_ResumeQueue_def scale_update_jobs scale_db_simps split: option.split)
qed

subsection \<open>Runs\<close>

text \<open>The answers of one call on two drivers.\<close>

fun same_outcome ::
  "database driver \<Rightarrow> database driver \<Rightarrow> call_env \<Rightarrow> driver_call \<Rightarrow> database \<Rightarrow> database \<Rightarrow> bool" where
  "same_outcome D E c (CallCreate opts) s t = same_answer (fst (d_CreateJob D opts c s)) (fst (d_CreateJob E opts c t))"
| "same_outcome D E c (CallClaim q w) s t = same_answer (fst (d_ClaimJob D q w c s)) (fst (d_ClaimJob E q w c t))"
| "same_outcome D E c (CallComplete i v) s t = same_answer (fst (d_CompleteJob D i v c s)) (fst (d_CompleteJob E i v c t))"
| "same_outcome D E c (CallFail i m b) s t = same_answer (fst (d_FailJob D i m b c s)) (fst (d_FailJob E i m b c t))"
| "same_outcome D E c (CallHeartbeat i p) s t = same_answer (fst (d_HeartbeatJob D i p c s)) (fst (d_HeartbeatJob E i p c t))"
| "same_outcome D E c (CallCancel i) s t = same_answer (fst (d_CancelJob D i c s)) (fst (d_CancelJob E i c t))"
| "same_outcome D E c (CallPromote i) s t = same_answer (fst (d_PromoteJob D i c s)) (fst (d_PromoteJob E i c t))"
| "same_outcome D E c (CallPause q) s t = same_answer (fst (d_PauseQueue D q c s)) (fst (d_PauseQueue E q c t))"
| "same_outcome D E c (CallResume q) s t = same_answer (fst (d_ResumeQueue D q c s)) (fst (d_ResumeQueue E q c t))"
| "same_outcome D E c (CallPromoteScheduled n) s t =
     same_answer (fst (d_PromoteScheduledJobs D n c s)) (fst (d_PromoteScheduledJobs E n c t))"
| "same_outcome D E c (CallFailExpired n) s t =
     same_answer (fst (d_FailExpiredJobs D n c s)) (fst (d_FailExpiredJobs E n c t))"

lemma apply_lockstep:
  assumes "exact_times p" and "same_call p q c x" and "ids_ok (jobs s)" and "all_unattempted s"
  shows "same_outcome (sqlite_driver q) (pg_driver p) c x s (scale_db s)
    \<and> scale_db (apply_call (sqlite_driver q) c x s) = apply_call (pg_driver p) c x (scale_db s)"
proof (cases x)
  case (CallCreate opts)
  with create_lockstep [OF assms(1), of q c opts s] assms(2) show ?thesis
    by (simp add: sqlite_driver_simps pg_driver_simps)
next
  case (CallFail i m b)
  with fail_lockstep [of p q c i m b s] assms(2,4) show ?thesis by (simp add: sqlite_driver_simps pg_driver_simps)
next
  case (CallHeartbeat i b)
  with heartbeat_lockstep [OF assms(4)] show ?thesis by (simp add: sqlite_driver_simps pg_driver_simps)
next
  case (CallFailExpired n)
  with fail_expired_lockstep [of p q c n s] assms(2,4) show ?thesis by (simp add: sqlite_driver_simps pg_driver_simps)
qed (use assms in \<open>simp_all add: sqlite_driver_simps pg_driver_simps complete_lockstep cancel_lockstep
      promote_lockstep pause_lockstep promote_scheduled_lockstep\<close>)

fun same_run :: "pg_cfg \<Rightarrow> sqlite_cfg \<Rightarrow> (call_env \<times> driver_call) list \<Rightarrow> bool" where
  "same_run p q [] = True"
| "same_run p q ((c, x) # xs) = (same_call p q c x \<and> call_ok x \<and> same_run p q xs)"

lemma same_run_ok: "same_run p q xs \<Longrightarrow> \<forall>x \<in> set xs. call_ok (snd x)"
  by (induction p q xs rule: same_run.induct) simp_all

lemma run_lockstep:
  "exact_times p \<Longrightarrow> \<not> sq_cte_update q \<Longrightarrow> same_run p q xs \<Longrightarrow> ids_ok (jobs s) \<Longrightarrow> all_unattempted s \<Longrightarrow>
     scale_db (run_calls (sqlite_driver q) xs s) = run_calls (pg_driver p) xs (scale_db s)"
proof (induction xs arbitrary: s)
  case (Cons x xs)
  obtain c y where x: "x = (c, y)" by (cases x)
  with Cons.prems have "ids_ok (jobs (apply_call (sqlite_driver q) c y s))"
    using sqlite.apply_call_step table_step_ids by fastforce
  moreover have "all_unattempted (apply_call (sqlite_driver q) c y s)"
    by (rule apply_unattempted [OF Cons.prems(2,5,4)])
  ultimately show ?case using Cons x by (simp add: apply_lockstep)
qed simp

lemma scale_empty: "scale_db empty_db = empty_db"
  by (simp add: scale_db_def empty_db_def)

subsection \<open>Readers\<close>

definition same_reads :: "database driver \<Rightarrow> database driver \<Rightarrow> database \<Rightarrow> database \<Rightarrow> bool" where
  "same_reads D E s t \<longleftrightarrow> (\<forall>c.
     (\<forall>i. fst (d_GetJob D i c s) = fst (d_GetJob E i c t) \<and> fst (d_GetJobStatus D i c s) = fst (d_GetJobStatus E i c t))
     \<and> (\<forall>q st n a. fst (d_ListJobs D q st n a c s) = fst (d_ListJobs E q st n a c t))
     \<and> (\<forall>q. fst (d_QueueInfo D q c s) = fst (d_QueueInfo E q c t))
     \<and> fst (d_ListQueues D c s) = fst (d_ListQueues E c t)
     \<and> fst (d_JobCountsByStatus D c s) = fst (d_JobCountsByStatus E c t))"

lemma find_key_map: "(\<And>x. k' (f x) = k x) \<Longrightarrow> find_key k' v (map f xs) = map_option f (find_key k v xs)"
  by (induction xs) (simp_all add: find_key_def)

lemma select_desc_map:
  assumes "\<And>r. P' (f r) = P r" and "\<And>r. k' (f r) = k r"
  shows "select_desc P' k' n (map f xs) = map f (select_desc P k n xs)"
  by (simp add: select_desc_def filter_map_cong [of P' f P] assms sort_key_map take_map rev_map)

lemma group_count_map: "(\<And>r. k' (f r) = k r) \<Longrightarrow> group_count k' (map f xs) = group_count k xs"
  by (simp add: group_count_def comp_def filter_map_cong [of "\<lambda>r. k' r = v" f "\<lambda>r. k r = v" for v] fun_eq_iff)

lemma counts_lockstep: "queue_counts name (map scale_job xs) = sq_queue_counts name xs"
  unfolding queue_counts_def sq_queue_counts_def
  by (subst filter_map_cong [where P = "\<lambda>r. j_queue r = name"]) (simp_all add: scale_job_simps group_count_map)

lemma fill_lockstep: "fill_counts c n (map scale_job xs) (map scale_queue qs) = sq_fill_counts c n xs qs"
  by (induction c n xs qs rule: sq_fill_counts.induct)
    (simp_all add: counts_lockstep scale_db_simps split: option.split sum.split)

lemma reads_lockstep: "same_reads (sqlite_driver q) (pg_driver p) s (scale_db s)"
proof -
  have job: "find_key j_id i (map scale_job xs) = map_option scale_job (find_key j_id i xs)" for i xs
    by (rule find_key_map) (simp add: scale_job_simps)
  have queue: "find_key q_name n (map scale_queue qs) = map_option scale_queue (find_key q_name n qs)" for n qs
    by (rule find_key_map) (simp add: scale_db_simps)
  have list: "select_desc (list_cond q st a) j_id n (map scale_job xs)
      = map scale_job (select_desc (list_cond q st a) j_id n xs)" for q st a n xs
    by (rule select_desc_map) (simp_all add: list_cond_def scale_job_simps)
  have sort: "sort_key q_name (map scale_queue qs) = map scale_queue (sort_key q_name qs)" for qs
    by (simp add: sort_key_map scale_db_simps)
  have group: "group_count (\<lambda>r. status_name (j_status r)) (map scale_job xs)
      = group_count (\<lambda>r. status_name (j_status r)) xs" for xs
    by (rule group_count_map) (simp add: scale_job_simps)
  have progress: "j_progress (scale_job r) = j_progress r" for r by (simp add: scale_job_def)
  show ?thesis
    by (simp add: same_reads_def progress sqlite_driver_simps pg_driver_simps sq_GetJob_def pg_GetJob_def
        sq_GetJobStatus_def pg_GetJobStatus_def sq_ListJobs_def pg_ListJobs_def sq_QueueInfo_def pg_QueueInfo_def
        sq_ListQueues_def pg_ListQueues_def sq_JobCountsByStatus_def pg_JobCountsByStatus_def scale_db_simps job
        queue list sort group counts_lockstep fill_lockstep scale_row scale_job_simps sq_default_limit_def
        default_limit_def comp_def del: not_None_eq split: option.split)
qed

end
