(* ===== verification/Sqlite_Props.thy ===== *)
theory Sqlite_Props
  imports Pg_Attempts Driver_Equiv
begin

text \<open>
  What the SQLite driver guarantees: up to the claim it does what the PostgreSQL driver does, the
  invariant of its reachable tables, the absence of any attempt on an engine with SQLite's
  published grammar, and the end of the attempt of a job that runs all the same.
\<close>

subsection \<open>Agreement with PostgreSQL\<close>

lemma ids_empty: "ids_ok (jobs empty_db)"
  by (simp add: ids_ok_def empty_db_def)

text \<open>C11. The two drivers are interchangeable up to the claim. On engines that answer as documented, run any
  calls but claims, on whole seconds: the SQLite database is the PostgreSQL one with seconds for
  nanoseconds; the next call, of any kind but a claim, is answered the same on both (up to the
  wording of a database error), and so is every reader. And the claim is where they part: SQLite
  refuses its statement, an \<open>UPDATE\<close> inside a \<open>WITH\<close> clause, on every queue, while PostgreSQL hands out
  a job whenever there is one to claim.\<close>

theorem drivers_agree:
  assumes "exact_times p" and "\<not> sq_cte_update q" and "same_run p q xs"
  shows "scale_db (run_calls (sqlite_driver q) xs empty_db) = run_calls (pg_driver p) xs empty_db
    \<and> (\<forall>c x. same_call p q c x \<longrightarrow> same_outcome (sqlite_driver q) (pg_driver p) c x
        (run_calls (sqlite_driver q) xs empty_db) (run_calls (pg_driver p) xs empty_db))
    \<and> same_reads (sqlite_driver q) (pg_driver p)
        (run_calls (sqlite_driver q) xs empty_db) (run_calls (pg_driver p) xs empty_db)
    \<and> (\<forall>c name w. fault c 0 = None \<longrightarrow> fault c 1 = None \<longrightarrow>
        fst (d_ClaimJob (sqlite_driver q) name w c (run_calls (sqlite_driver q) xs empty_db))
          = Inl (DBError sq_syntax_error)
        \<and> (\<not> pg_paused name (queues (run_calls (pg_driver p) xs empty_db)) \<longrightarrow>
            (\<exists>r \<in> set (jobs (run_calls (pg_driver p) xs empty_db)). pg_claimable c name r) \<longrightarrow>
            (\<exists>row. fst (d_ClaimJob (pg_driver p) name w c (run_calls (pg_driver p) xs empty_db)) = Inr (Some row))))"
proof -
  let ?s = "run_calls (sqlite_driver q) xs empty_db" and ?t = "run_calls (pg_driver p) xs empty_db"
  have none: "all_unattempted empty_db" by (simp add: empty_db_def)
  have run: "scale_db ?s = ?t"
    using run_lockstep [OF assms ids_empty none] by (simp add: scale_empty)
  have ids: "ids_ok (jobs ?s)" by (rule sqlite.run_calls_ids [OF same_run_ok [OF assms(3)] ids_empty])
  have un: "all_unattempted ?s"
    by (rule run_unattempted [OF assms(2) same_run_ok [OF assms(3)] none ids_empty])
  have "same_outcome (sqlite_driver q) (pg_driver p) c x ?s ?t" if "same_call p q c x" for c x
    using apply_lockstep [OF assms(1) that ids un] unfolding run by blast
  moreover have "same_reads (sqlite_driver q) (pg_driver p) ?s ?t"
    using reads_lockstep [of q p ?s] unfolding run .
  moreover have "fst (d_ClaimJob (sqlite_driver q) name w c ?s) = Inl (DBError sq_syntax_error)"
    if "fault c 0 = None" "fault c 1 = None" for c name w
    using that assms(2) by (simp add: sqlite_driver_simps sq_ClaimJob_def Let_def)
  moreover have "\<exists>row. fst (d_ClaimJob (pg_driver p) name w c ?t) = Inr (Some row)"
    if "fault c 0 = None" "fault c 1 = None" "\<not> pg_paused name (queues ?t)"
      "\<exists>r \<in> set (jobs ?t). pg_claimable c name r" for c name w
  proof -
    have "select_limit (pg_claimable c name) claim_key 1 (jobs ?t) \<noteq> []"
      using that(4) by (simp only: select_limit_1) blast
    with that(1-3) show ?thesis
      by (simp add: pg_driver_simps pg_ClaimJob_def Let_def split: list.split)
  qed
  ultimately show ?thesis using run by blast
qed

definition sample_sqlite_entry :: sqlite_cfg where
  "sample_sqlite_entry = sample_sqlite\<lparr>sq_json := (\<lambda>t. if t = buildErrorEntry 90000000000 ''boom''
       then Some (pg_error_entry sample_env ''boom'') else None)\<rparr>"

definition sample_run :: "(call_env \<times> driver_call) list" where
  "sample_run = [(sample_env, CallCreate sample_opts), (sample_env, CallFail ''01j'' ''boom'' 2000),
     (sample_env, CallPause ''p'')]"

lemma drivers_agree_witness:
  "scale_db (run_calls (sqlite_driver sample_sqlite_entry) sample_run empty_db)
     = run_calls (pg_driver sample_pg) sample_run empty_db
   \<and> map j_status (jobs (run_calls (pg_driver sample_pg) sample_run empty_db)) = [Available]
   \<and> fst (d_ClaimJob (sqlite_driver sample_sqlite_entry) ''q'' ''w'' sample_env
        (run_calls (sqlite_driver sample_sqlite_entry) sample_run empty_db)) = Inl (DBError sq_syntax_error)
   \<and> (\<exists>row. fst (d_ClaimJob (pg_driver sample_pg) ''q'' ''w'' sample_env
        (run_calls (pg_driver sample_pg) sample_run empty_db)) = Inr (Some row))"
proof -
  have c: "exact_times sample_pg" "\<not> sq_cte_update sample_sqlite_entry"
    by (simp_all add: exact_times_def sample_sqlite_entry_def sample_defs)
  have r: "same_run sample_pg sample_sqlite_entry sample_run"
    by (simp add: whole_env_def sample_run_def sample_opts_def sample_sqlite_entry_def sample_pg_def in_int32_def)
  have st: "map j_status (jobs (run_calls (pg_driver sample_pg) sample_run empty_db)) = [Available]"
    and claim: "\<not> pg_paused ''q'' (queues (run_calls (pg_driver sample_pg) sample_run empty_db))"
    "\<exists>r \<in> set (jobs (run_calls (pg_driver sample_pg) sample_run empty_db)). pg_claimable sample_env ''q'' r"
    by code_simp+
  from drivers_agree [OF c r] st claim show ?thesis by (auto simp del: run_calls.simps)
qed

text \<open>Every SQLite table reached from the empty database by any calls is well-formed (the
  invariant of the first property), and a job that was in a terminal status at any point of the
  run is unchanged at its end.\<close>

theorem sqlite_reachable_ok:
  assumes "\<forall>x \<in> set (xs @ ys). call_ok (snd x)"
  shows "table_ok (jobs (run_calls (sqlite_driver cfg) ys (run_calls (sqlite_driver cfg) xs empty_db)))
    \<and> {r \<in> set (jobs (run_calls (sqlite_driver cfg) xs empty_db)). terminal (j_status r)}
        \<subseteq> set (jobs (run_calls (sqlite_driver cfg) ys (run_calls (sqlite_driver cfg) xs empty_db)))"
proof -
  have ok: "table_ok (jobs (run_calls (sqlite_driver cfg) xs empty_db))"
    by (rule sqlite.run_calls_ok) (use assms in \<open>simp_all add: empty_db_def\<close>)
  have ys: "\<forall>x \<in> set ys. call_ok (snd x)" using assms by simp
  from sqlite.run_calls_ok [OF ys ok] sqlite.run_calls_terminal [OF ys table_ok_ids [OF ok]]
  show ?thesis by blast
qed

lemma sqlite_reachable_ok_witness:
  "map j_status (jobs (run_calls (sqlite_driver sample_sqlite)
     [(sample_env, CallPromote ''01j''), (sample_env, CallCancel ''01j'')]
     (run_calls (sqlite_driver sample_sqlite) [(sample_env, CallCreate sample_opts)] empty_db))) = [Cancelled]
   \<and> table_ok (jobs (run_calls (sqlite_driver sample_sqlite)
     [(sample_env, CallPromote ''01j''), (sample_env, CallCancel ''01j'')]
     (run_calls (sqlite_driver sample_sqlite) [(sample_env, CallCreate sample_opts)] empty_db)))"
proof
  show "map j_status (jobs (run_calls (sqlite_driver sample_sqlite)
     [(sample_env, CallPromote ''01j''), (sample_env, CallCancel ''01j'')]
     (run_calls (sqlite_driver sample_sqlite) [(sample_env, CallCreate sample_opts)] empty_db))) = [Cancelled]"
    by code_simp
  show "table_ok (jobs (run_calls (sqlite_driver sample_sqlite)
     [(sample_env, CallPromote ''01j''), (sample_env, CallCancel ''01j'')]
     (run_calls (sqlite_driver sample_sqlite) [(sample_env, CallCreate sample_opts)] empty_db)))"
    using sqlite_reachable_ok [of "[(sample_env, CallCreate sample_opts)]"
        "[(sample_env, CallPromote ''01j''), (sample_env, CallCancel ''01j'')]" sample_sqlite]
    by (simp add: sample_opts_def del: run_calls.simps)
qed

subsection \<open>Claiming\<close>

text \<open>C33. On an engine that keeps to SQLite's published grammar, which has no \<open>UPDATE\<close> inside a
  \<open>WITH\<close> clause, no worker ever gets a job: whatever the calls from the empty database, every
  claim fails, no job is ever running and none was ever attempted, so none completes, fails or
  is discarded.\<close>

theorem sqlite_claim_never:
  assumes "\<not> sq_cte_update q" and "\<forall>x \<in> set xs. call_ok (snd x)"
  shows "(\<exists>e. fst (sq_ClaimJob q name w c (run_calls (sqlite_driver q) xs empty_db)) = Inl (DBError e))
    \<and> (\<forall>r \<in> set (jobs (run_calls (sqlite_driver q) xs empty_db)).
         j_attempt r = 0 \<and> (waiting (j_status r) \<or> j_status r = Cancelled))"
proof
  show "\<exists>e. fst (sq_ClaimJob q name w c (run_calls (sqlite_driver q) xs empty_db)) = Inl (DBError e)"
    using assms(1) by (auto simp: sq_ClaimJob_def Let_def split: option.split)
  have u: "all_unattempted (run_calls (sqlite_driver q) xs empty_db)"
    by (rule run_unattempted [OF assms _ ids_empty]) (simp add: empty_db_def)
  have "table_ok (jobs (run_calls (sqlite_driver q) xs empty_db))"
    using assms(2) by (rule sqlite.run_calls_ok) (simp add: empty_db_def)
  then have "job_ok r" if "r \<in> set (jobs (run_calls (sqlite_driver q) xs empty_db))" for r
    using that by (simp add: table_ok_def)
  moreover have "waiting (j_status r) \<or> j_status r = Cancelled" if "job_ok r" "unattempted r" for r
    using that by (cases "j_status r") (auto simp: job_ok_def unattempted_def waiting_def)
  ultimately show "\<forall>r \<in> set (jobs (run_calls (sqlite_driver q) xs empty_db)).
         j_attempt r = 0 \<and> (waiting (j_status r) \<or> j_status r = Cancelled)"
    using u by (auto simp: unattempted_def)
qed

lemma sqlite_claim_never_witness:
  "map j_attempt (jobs (run_calls (sqlite_driver sample_sqlite)
     [(sample_env, CallCreate sample_opts), (sample_env, CallClaim ''q'' ''w'')] empty_db)) = [0]
   \<and> (\<exists>e. fst (sq_ClaimJob sample_sqlite ''q'' ''w'' sample_env (run_calls (sqlite_driver sample_sqlite)
     [(sample_env, CallCreate sample_opts), (sample_env, CallClaim ''q'' ''w'')] empty_db)) = Inl (DBError e))"
proof
  show "map j_attempt (jobs (run_calls (sqlite_driver sample_sqlite)
     [(sample_env, CallCreate sample_opts), (sample_env, CallClaim ''q'' ''w'')] empty_db)) = [0]"
    by code_simp
  show "\<exists>e. fst (sq_ClaimJob sample_sqlite ''q'' ''w'' sample_env (run_calls (sqlite_driver sample_sqlite)
     [(sample_env, CallCreate sample_opts), (sample_env, CallClaim ''q'' ''w'')] empty_db)) = Inl (DBError e)"
    using sqlite_claim_never [of sample_sqlite
        "[(sample_env, CallCreate sample_opts), (sample_env, CallClaim ''q'' ''w'')]"]
    by (simp add: sample_sqlite_def sample_opts_def del: run_calls.simps)
qed

subsection \<open>The end of an attempt\<close>

lemma exec_update_same: "sq_exec_update = pg_exec_update"
  by (intro ext) (simp add: sq_exec_update_def pg_exec_update_def)

lemmas sq_running_update_hit =
  pg_exec_update_hit [where P = "sq_is_running i" for i, folded exec_update_same]

text \<open>C32. Failing a running job on SQLite, with a valid error entry and date, logs that entry and
  discards the job when its attempts are used up; otherwise the job becomes retryable after the
  backoff rounded up to whole seconds, never before it and less than a second later. When the
  entry is not valid JSON, the call fails and nothing changes.\<close>

theorem sqlite_fail_outcome:
  assumes "ids_ok (jobs s)" and "r \<in> set (jobs s)" and "j_status r = Running"
    and "fault c 0 = None" and "0 \<le> b" and "b + 999 < 2 ^ 63"
    and "sq_plus q (sq_now c 0) (sq_backoffSec b) = Some (sq_now c 0 + sq_backoffSec b)"
  shows "case sq_json q (buildErrorEntry (clock c 0) m) of
      None \<Rightarrow> (\<exists>e. sq_FailJob q (j_id r) m b c s = (Inl (DBError e), s))
    | Some e \<Rightarrow> fst (sq_FailJob q (j_id r) m b c s) = Inr ()
        \<and> (\<exists>r'. lookup_job (j_id r) (jobs (snd (sq_FailJob q (j_id r) m b c s))) = Some r'
            \<and> j_errors r' = j_errors r @ [e]
            \<and> (if j_max_attempts r \<le> j_attempt r
               then j_status r' = Discarded \<and> j_finalized_at r' = Some (sq_now c 0)
               else j_status r' = Retryable \<and> j_finalized_at r' = None
                    \<and> b \<le> (j_scheduled_at r' - sq_now c 0) * 1000
                    \<and> (j_scheduled_at r' - sq_now c 0) * 1000 < b + 1000))"
proof (cases "sq_json q (buildErrorEntry (clock c 0) m)")
  case None
  have "rows_affected (sq_is_running (j_id r)) (jobs s) \<noteq> 0"
    using assms(2,3) by (auto simp: sq_is_running_def)
  with None assms(4) show ?thesis by (simp add: sq_FailJob_def del: rows_affected_0)
next
  case (Some e)
  have run: "sq_is_running (j_id r) r" using assms(3) by (simp add: sq_is_running_def)
  have "wrap64 (b + 999) = b + 999" using assms(5,6) by (intro wrap64_id) (simp add: in_int64_def)
  then have sec: "sq_backoffSec b = (b + 999) div 1000"
    using assms(5) by (simp add: sq_backoffSec_def go_div_nonneg)
  let ?f = "sq_fail_set c e (sq_now c 0 + sq_backoffSec b)"
  have call: "sq_FailJob q (j_id r) m b c s = sq_exec_update (sq_is_running (j_id r)) ?f c s"
    using Some assms(4,7) by (simp add: sq_FailJob_def)
  have hit: "fst (sq_FailJob q (j_id r) m b c s) = Inr ()"
    "lookup_job (j_id r) (jobs (snd (sq_FailJob q (j_id r) m b c s))) = Some (?f r)"
    unfolding call
    using sq_running_update_hit [OF assms(1,2) run assms(4), of ?f]
    by (simp_all add: sq_is_running_def sq_fail_set_def)
  then show ?thesis using Some sec by (auto simp: sq_fail_set_def)
qed

lemma sqlite_fail_outcome_witness:
  "fst (sq_FailJob sample_sqlite_entry ''r'' ''boom'' 1500 sample_env sample_db) = Inr ()"
proof -
  have r: "sample_job ''r'' Running \<in> set (jobs sample_db)" by (simp add: sample_jobs)
  have f: "fault sample_env 0 = None" and st: "j_status (sample_job ''r'' Running) = Running" by simp_all
  have p: "sq_plus sample_sqlite_entry (sq_now sample_env 0) k
      = (if 0 \<le> k \<and> k < 1000000000 then Some (sq_now sample_env 0 + k) else None)" for k
    by (simp add: sample_sqlite_entry_def sample_sqlite_def)
  have b: "sq_backoffSec 1500 = 2"
    by (simp add: sq_backoffSec_def go_div_def wrap64_def)
  have "sq_json sample_sqlite_entry (buildErrorEntry (clock sample_env 0) ''boom'')
      = Some (pg_error_entry sample_env ''boom'')"
    by (simp add: sample_sqlite_entry_def sample_env_def)
  with sqlite_fail_outcome [OF sample_ids_ok r st f, of 1500 sample_sqlite_entry "''boom''"] p b
  show ?thesis by simp
qed

end
