(* ===== verification/Json_Props.thy ===== *)
theory Json_Props
  imports Json
begin

text \<open>
  The JSON text that the SQLite driver writes for an error message, read back by the grammar of
  RFC 8259.
\<close>

subsection \<open>Writing and reading back\<close>

text \<open>The runes that \<open>json_rune\<close> writes for one rune.\<close>

definition esc :: "nat \<Rightarrow> nat list" where
  "esc r = (if r = 34 then [92, 34] else if r = 92 then [92, 92] else if r = 10 then [92, 110]
     else if r = 13 then [92, 114] else if r = 9 then [92, 116] else [r])"

lemma encode_ascii: "r < 128 \<Longrightarrow> encode_rune r = [char_of r]"
  by (simp add: encode_rune_def)

lemma json_rune_esc: "json_rune r = encode_runes (esc r)"
  by (simp add: json_rune_def esc_def encode_runes_def encode_ascii char_of_def bit_0)

lemma esc_valid: "valid_rune r \<Longrightarrow> u \<in> set (esc r) \<Longrightarrow> valid_rune u"
  by (auto simp: esc_def valid_rune_def split: if_splits)

lemma jsonString_encode:
  "jsonString s = encode_runes (34 # concat (map esc (runes s)) @ [34])"
proof -
  have "concat (map json_rune rs) = encode_runes (concat (map esc rs))" for rs
    by (induction rs) (simp_all add: json_rune_esc encode_runes_append, simp add: encode_runes_def)
  moreover have "encode_runes [34] = [CHR 0x22]"
    by (simp add: encode_runes_def encode_ascii char_of_def bit_0)
  moreover have "encode_runes (34 # xs) = [CHR 0x22] @ encode_runes xs" for xs
    by (simp add: encode_runes_def encode_ascii char_of_def bit_0)
  ultimately show ?thesis by (simp add: jsonString_def encode_runes_append)
qed

lemma runes_jsonString: "runes (jsonString s) = 34 # concat (map esc (runes s)) @ [34]"
  unfolding jsonString_encode
  by (rule runes_encode_runes) (auto dest: esc_valid [OF runes_valid] simp: valid_rune_def)

lemma read_lit_esc:
  "read_lit (esc r @ rest) =
    (if json_safe r then map_option (\<lambda>(a, b). (r # a, b)) (read_lit rest) else None)"
  by (auto simp: esc_def json_safe_def read_lit.simps(2))

lemma read_lit_escs:
  "read_lit (concat (map esc rs) @ [34]) = (if \<forall>r \<in> set rs. json_safe r then Some (rs, []) else None)"
  by (induction rs) (auto simp: read_lit_esc read_lit.simps(2) simp del: append_Cons)

lemma read_jsonString:
  "read_json_string (jsonString s) =
    (if \<forall>r \<in> set (runes s). json_safe r then Some (encode_runes (runes s)) else None)"
  by (simp add: read_json_string_def runes_jsonString read_lit_escs)

text \<open>\<open>jsonString\<close> writes a literal that reads back as the message exactly when the message has
  no control character other than tab, newline and carriage return (bytes that are not UTF-8
  come back as U+FFFD, and valid UTF-8 unchanged); any other control character is written as it
  is, which makes the literal, and the error entry around it, invalid JSON.\<close>

theorem json_string_round_trip:
  "read_json_string (jsonString m) =
     (if \<exists>r \<in> set (runes m). \<not> json_safe r then None else Some (encode_runes (runes m)))
   \<and> (valid_utf8 m \<longrightarrow> list_all json_safe (runes m) \<longrightarrow> read_json_string (jsonString m) = Some m)"
  by (auto simp: read_jsonString valid_utf8_def list_all_iff)

definition sample_message :: string where
  "sample_message = [CHR ''e'', CHR 0x22, CHR 0x0A, CHR 0xC3, CHR 0xA9]"

lemma json_string_round_trip_witness:
  "read_json_string (jsonString sample_message) = Some sample_message
   \<and> read_json_string (jsonString [CHR 0x01]) = None"
proof
  have v: "valid_utf8 sample_message" and safe: "list_all json_safe (runes sample_message)"
    by code_simp+
  with json_string_round_trip [of sample_message]
  show "read_json_string (jsonString sample_message) = Some sample_message" by blast
  have "runes [CHR 0x01] = [1]" by code_simp
  then show "read_json_string (jsonString [CHR 0x01]) = None"
    using json_string_round_trip [of "[CHR 0x01]"] by (simp add: json_safe_def)
qed

end
