(* ===== verification/Service_Props.thy ===== *)
theory Service_Props
  imports Samples
begin

text \<open>
  What the job service guarantees over either driver: the Connect code of every outcome, that
  its handlers only ever take the steps of the job table, the delay before a retry, the
  priorities, and what listing returns.
\<close>

subsection \<open>Handlers over the driver contract\<close>

definition wrong_state :: "string \<Rightarrow> string \<Rightarrow> rpc_error" where
  "wrong_state opname i =
     RpcError CodeFailedPrecondition (''job '' @ i @ '' cannot '' @ opname @ '' in current state'')"

definition id_required :: rpc_error where
  "id_required = RpcError CodeInvalidArgument ''job id is required''"

lemma mapErr_wrong [simp]: "mapErr ErrWrongState opname i = wrong_state opname i"
  by (simp add: mapErr_def wrong_state_def)

text \<open>The answer to a state-changing call for a job: \<open>e\<close> is the failure of its statement, \<open>can\<close> whether the
  job is in a state that allows it.\<close>

definition transition_answer :: "string \<Rightarrow> string \<Rightarrow> string option \<Rightarrow> bool \<Rightarrow> rpc_error + unit" where
  "transition_answer opname i e can =
     (if i = [] then Inl id_required
      else case e of Some t \<Rightarrow> Inl (RpcError CodeInternal t)
        | None \<Rightarrow> if can then Inr () else Inl (wrong_state opname i))"

definition cancellable :: "string \<Rightarrow> job list \<Rightarrow> bool" where
  "cancellable i xs \<longleftrightarrow> (\<exists>r \<in> set xs. j_id r = i \<and> \<not> terminal (j_status r))"

definition pending_job :: "string \<Rightarrow> job list \<Rightarrow> bool" where
  "pending_job i xs \<longleftrightarrow> (\<exists>r \<in> set xs. j_id r = i \<and> j_status r = Pending)"

lemma mapErr_internal [simp]: "mapErr (DBError t) opname i = RpcError CodeInternal t"
  by (simp add: mapErr_def internal_error_def)

context job_driver_results begin

lemma svc_complete_code:
  "fst (svc_CompleteJob D i v c s) = transition_answer ''complete'' i (fault c 0) (running_job i (table s))"
  using complete_result [of c i "JObj v" s] transition_faults [of c _ i "JObj v" s]
  by (cases "fault c 0") (auto simp: svc_CompleteJob_def parseJobID_def id_required_def transition_answer_def
      split: prod.split sum.split if_splits)

lemma svc_heartbeat_code:
  "percentage p \<Longrightarrow>
     fst (svc_HeartbeatJob D i p c s) = transition_answer ''heartbeat'' i (fault c 0) (running_job i (table s))"
  using heartbeat_result [of c p i s] transition_faults [of c _ i _ s p]
  by (cases "fault c 0") (auto simp: svc_HeartbeatJob_def parseJobID_def id_required_def transition_answer_def
      split: prod.split sum.split if_splits)

lemma svc_heartbeat_bad_code:
  assumes "\<not> percentage p"
  shows "\<exists>t. fst (svc_HeartbeatJob D i p c s)
    = transition_answer ''heartbeat'' i (if running_job i (table s) then Some t else fault c 0) False"
proof (cases "fault c 0")
  case None
  with heartbeat_refused [OF _ assms, of c i s] show ?thesis
    by (auto simp: svc_HeartbeatJob_def parseJobID_def id_required_def transition_answer_def
        split: prod.split sum.split if_splits)
next
  case (Some e)
  with transition_faults [OF Some, of i _ s p] show ?thesis
    by (auto simp: svc_HeartbeatJob_def parseJobID_def id_required_def transition_answer_def
        split: prod.split sum.split)
qed

lemma svc_cancel_code:
  "fst (svc_CancelJob D i c s) = transition_answer ''cancel'' i (fault c 0) (cancellable i (table s))"
  using cancel_result [of c i s] transition_faults [of c _ i _ s]
  by (cases "fault c 0") (auto simp: svc_CancelJob_def parseJobID_def id_required_def transition_answer_def
      cancellable_def split: prod.split sum.split if_splits)

lemma svc_promote_code:
  "fst (svc_PromoteJob D i c s) = transition_answer ''promote'' i (fault c 0) (pending_job i (table s))"
  using promote_result [of c i s] transition_faults [of c _ i _ s]
  by (cases "fault c 0") (auto simp: svc_PromoteJob_def parseJobID_def id_required_def transition_answer_def
      pending_job_def split: prod.split sum.split if_splits)

lemma svc_get_code:
  "fault c 0 = None \<Longrightarrow> fst (svc_GetJob D rt i c s) =
     (if i = [] then Inl id_required
      else (case lookup_job i (table s) of
          None \<Rightarrow> Inl (RpcError CodeNotFound (''job '' @ i @ '' not found''))
        | Some r \<Rightarrow> Inr (rowToProto rt (view r))))"
  using get_result [of c i s]
  by (auto simp: svc_GetJob_def parseJobID_def id_required_def mapErr_def
      split: prod.split sum.split if_splits option.splits)

lemma svc_fail_missing:
  "fault c0 0 = None \<Longrightarrow> i \<noteq> [] \<Longrightarrow> lookup_job i (table s) = None \<Longrightarrow>
     svc_FailJob D rt i m c0 mid c s = (Inl (RpcError CodeInternal ''not found''), s)"
  using get_result [of c0 i s] get_state [of i c0 s]
  by (auto simp: svc_FailJob_def parseJobID_def internal_error_def split: prod.split)

end

definition is_backend :: "database driver \<Rightarrow> bool" where
  "is_backend D \<longleftrightarrow> (\<exists>cfg. D = pg_driver cfg) \<or> (\<exists>cfg. D = sqlite_driver cfg)"

lemma is_backend_intros [simp]: "is_backend (pg_driver p)" "is_backend (sqlite_driver q)"
  by (auto simp: is_backend_def)

lemma is_backendE:
  assumes "is_backend D"
  obtains p where "D = pg_driver p" | q where "D = sqlite_driver q"
  using assms by (auto simp: is_backend_def)

text \<open>C26. The answer of the state-changing calls on either backend, in every case: an empty id is an
  invalid argument; a failing statement is \<open>Internal\<close> with its text; else completing and
  heartbeating, with or without progress, succeed exactly on a running job, cancelling exactly on
  a job that is not in a terminal status, promoting exactly on a pending job, and everything else,
  an unknown id included, is a failed precondition that names the job and the operation. A
  progress that is no percentage, which the validation keeps from the handler, is \<open>Internal\<close> on a
  running job, because the database refuses it, and answered like the others on any other.\<close>

theorem svc_transition_codes:
  assumes "is_backend D"
  shows "fst (svc_CompleteJob D i v c s) = transition_answer ''complete'' i (fault c 0) (running_job i (jobs s))
    \<and> (if percentage p
        then fst (svc_HeartbeatJob D i p c s)
          = transition_answer ''heartbeat'' i (fault c 0) (running_job i (jobs s))
        else \<exists>t. fst (svc_HeartbeatJob D i p c s)
          = transition_answer ''heartbeat'' i (if running_job i (jobs s) then Some t else fault c 0) False)
    \<and> fst (svc_CancelJob D i c s) = transition_answer ''cancel'' i (fault c 0) (cancellable i (jobs s))
    \<and> fst (svc_PromoteJob D i c s) = transition_answer ''promote'' i (fault c 0) (pending_job i (jobs s))"
  using assms
proof (cases rule: is_backendE)
  case (1 cfg)
  then show ?thesis
    using pgr.svc_complete_code pgr.svc_heartbeat_code pgr.svc_heartbeat_bad_code pgr.svc_cancel_code
      pgr.svc_promote_code by simp
next
  case (2 cfg)
  then show ?thesis
    using sqliter.svc_complete_code sqliter.svc_heartbeat_code sqliter.svc_heartbeat_bad_code
      sqliter.svc_cancel_code sqliter.svc_promote_code by simp
qed

lemma svc_transition_codes_witness:
  "fst (svc_CompleteJob (sqlite_driver sample_sqlite) ''r'' [] sample_env sample_db) = Inr ()
   \<and> fst (svc_HeartbeatJob (pg_driver sample_pg) ''a'' (Some 40) sample_env sample_db)
       = Inl (wrong_state ''heartbeat'' ''a'')
   \<and> fst (svc_CancelJob (pg_driver sample_pg) ''d'' sample_env sample_db)
       = Inl (wrong_state ''cancel'' ''d'')
   \<and> fst (svc_PromoteJob (pg_driver sample_pg) [] sample_env sample_db) = Inl id_required
   \<and> fst (svc_PromoteJob (pg_driver sample_pg) ''a'' (sample_env\<lparr>fault := (\<lambda>_. Some ''down'')\<rparr>) sample_db)
       = Inl (RpcError CodeInternal ''down'')"
  using svc_transition_codes [of "sqlite_driver sample_sqlite" "''r''" "[]" sample_env sample_db None]
    svc_transition_codes [of "pg_driver sample_pg" "''a''" "[]" sample_env sample_db "Some 40"]
    svc_transition_codes [of "pg_driver sample_pg" "''d''" "[]" sample_env sample_db None]
    svc_transition_codes [of "pg_driver sample_pg" "[]" "[]" sample_env sample_db None]
    svc_transition_codes [of "pg_driver sample_pg" "''a''" "[]" "sample_env\<lparr>fault := (\<lambda>_. Some ''down'')\<rparr>" sample_db None]
  by (simp add: sample_jobs running_job_def terminal_def transition_answer_def percentage_def cancellable_def)

text \<open>A job id that is not in the table: reading it is answered \<open>NotFound\<close>, but reporting a
  failure of it is answered \<open>Internal\<close>, because the row is read first and that error is not
  mapped; nothing changes, and completing it is a failed precondition.\<close>

theorem svc_missing_job:
  assumes "is_backend D" and "fault c 0 = None" and "fault c0 0 = None" and "i \<noteq> []"
    and "i \<notin> j_id ` set (jobs s)"
  shows "fst (svc_GetJob D rt i c s) = Inl (RpcError CodeNotFound (''job '' @ i @ '' not found''))
    \<and> svc_FailJob D rt i m c0 mid c s = (Inl (RpcError CodeInternal ''not found''), s)
    \<and> fst (svc_CompleteJob D i v c s) = Inl (wrong_state ''complete'' i)"
proof -
  have "lookup_job i (jobs s) = None" and "\<not> running_job i (jobs s)"
    using assms(5) by (auto simp: find_key_None running_job_def)
  with assms show ?thesis
    by (auto elim!: is_backendE simp: pgr.svc_get_code sqliter.svc_get_code pgr.svc_fail_missing
        sqliter.svc_fail_missing pgr.svc_complete_code sqliter.svc_complete_code transition_answer_def)
qed

lemma svc_missing_job_witness:
  "svc_FailJob (pg_driver sample_pg) sample_rt ''z'' ''m'' sample_env id sample_env sample_db
     = (Inl (RpcError CodeInternal ''not found''), sample_db)"
  using svc_missing_job [of "pg_driver sample_pg" sample_env sample_env "''z''" sample_db]
  by (simp add: sample_jobs)

subsection \<open>Every handler takes steps of the job table\<close>

text \<open>A request to the service, or a tick of the scheduler. The failure report carries the
  environment of its first statement and the driver calls that others make before its second.\<close>

datatype request =
    RequestCreate create_job_request int
  | RequestClaim req_context string
  | RequestComplete string "(string \<times> json) list"
  | RequestFail string string call_env "(call_env \<times> driver_call) list"
  | RequestHeartbeat string "int option"
  | RequestCancel string
  | RequestPromote string
  | RequestPause string
  | RequestResume string
  | RequestGet string
  | RequestList string string int string
  | SchedulerTick call_env

fun serve :: "'s driver \<Rightarrow> go_rt \<Rightarrow> call_env \<Rightarrow> request \<Rightarrow> 's \<Rightarrow> 's" where
  "serve D rt c (RequestCreate m now) s = snd (svc_CreateJob D rt m now c s)"
| "serve D rt c (RequestClaim ctx q) s = snd (svc_ClaimJob D rt ctx q c s)"
| "serve D rt c (RequestComplete i v) s = snd (svc_CompleteJob D i v c s)"
| "serve D rt c (RequestFail i m c0 xs) s = snd (svc_FailJob D rt i m c0 (run_calls D xs) c s)"
| "serve D rt c (RequestHeartbeat i p) s = snd (svc_HeartbeatJob D i p c s)"
| "serve D rt c (RequestCancel i) s = snd (svc_CancelJob D i c s)"
| "serve D rt c (RequestPromote i) s = snd (svc_PromoteJob D i c s)"
| "serve D rt c (RequestPause q) s = snd (svc_PauseQueue D q c s)"
| "serve D rt c (RequestResume q) s = snd (svc_ResumeQueue D q c s)"
| "serve D rt c (RequestGet i) s = snd (svc_GetJob D rt i c s)"
| "serve D rt c (RequestList q st n a) s = snd (svc_ListJobs D rt q st n a c s)"
| "serve D rt c (SchedulerTick c2) s = scheduler_tick D c (\<lambda>x. x) c2 s"

fun serve_all :: "'s driver \<Rightarrow> go_rt \<Rightarrow> (call_env \<times> request) list \<Rightarrow> 's \<Rightarrow> 's" where
  "serve_all D rt [] s = s"
| "serve_all D rt ((c, x) # xs) s = serve_all D rt xs (serve D rt c x s)"

fun between_ok :: "request \<Rightarrow> bool" where
  "between_ok (RequestFail i m c0 xs) = (\<forall>x \<in> set xs. call_ok (snd x))"
| "between_ok _ = True"

lemma create_opts_ok: "0 \<le> o_MaxAttempts (create_opts_of m now)"
  by (simp add: create_opts_of_def Let_def split: option.split)

lemma snd_case_result:
  "snd (case x of (Inl e, s') \<Rightarrow> (f e, s') | (Inr y, s') \<Rightarrow> (g y, s')) = snd x"
  by (simp split: prod.split sum.split)

lemma svc_states:
  "snd (svc_CreateJob D rt m now c s) = snd (d_CreateJob D (create_opts_of m now) c s)"
  "snd (svc_ClaimJob D rt ctx q c s) = snd (d_ClaimJob D q (workerIDFromCtx ctx) c s)"
  "i \<noteq> [] \<Longrightarrow> snd (svc_CompleteJob D i v c s) = snd (d_CompleteJob D i (JObj v) c s)"
  "i \<noteq> [] \<Longrightarrow> snd (svc_HeartbeatJob D i p c s) = snd (d_HeartbeatJob D i p c s)"
  "i \<noteq> [] \<Longrightarrow> snd (svc_CancelJob D i c s) = snd (d_CancelJob D i c s)"
  "i \<noteq> [] \<Longrightarrow> snd (svc_PromoteJob D i c s) = snd (d_PromoteJob D i c s)"
  "i \<noteq> [] \<Longrightarrow> snd (svc_GetJob D rt i c s) = snd (d_GetJob D i c s)"
  "snd (svc_PauseQueue D q c s) = snd (d_PauseQueue D q c s)"
  "snd (svc_ResumeQueue D q c s) = snd (d_ResumeQueue D q c s)"
  "snd (svc_ListJobs D rt q st n a c s) = snd (d_ListJobs D q st ((if n = 0 then 50 else n) + 1) a c s)"
  by (auto simp: svc_CreateJob_def svc_ClaimJob_def svc_CompleteJob_def svc_HeartbeatJob_def
      svc_CancelJob_def svc_PromoteJob_def svc_GetJob_def svc_PauseQueue_def svc_ResumeQueue_def
      svc_ListJobs_def Let_def parseJobID_def split: prod.split sum.split option.split)

lemma svc_empty_id:
  "snd (svc_CompleteJob D [] v c s) = s" "snd (svc_HeartbeatJob D [] p c s) = s"
  "snd (svc_CancelJob D [] c s) = s" "snd (svc_PromoteJob D [] c s) = s"
  "snd (svc_GetJob D rt [] c s) = s" "snd (svc_FailJob D rt [] m c0 mid c s) = s"
  by (simp_all add: svc_CompleteJob_def svc_HeartbeatJob_def svc_CancelJob_def svc_PromoteJob_def
      svc_GetJob_def svc_FailJob_def parseJobID_def)

context job_driver begin

lemma svc_fail_reach:
  assumes "\<forall>x \<in> set xs. call_ok (snd x)" and "ids_ok (table s)"
  shows "table_reach (table s) (table (snd (svc_FailJob D rt i m c0 (run_calls D xs) c s)))"
proof -
  have mid: "table_reach (table s) (table (run_calls D xs s))"
    using assms by (rule run_calls_reach)
  have "table_reach (table s) (table (snd (d_FailJob D i m b c (run_calls D xs s))))" for b
    using mid fail_step by (rule reach_step)
  then show ?thesis
    using get_state [of i c0 s]
    by (auto simp: svc_FailJob_def parseJobID_def reach_refl split: prod.splits sum.splits)
      (metis snd_conv)+
qed

lemma serve_reach:
  assumes "between_ok x" and "ids_ok (table s)"
  shows "table_reach (table s) (table (serve D rt c x s))"
proof -
  note step = table_step_reach [OF complete_step] table_step_reach [OF heartbeat_step]
    table_step_reach [OF cancel_step] table_step_reach [OF promote_step] table_step_reach [OF create_step [OF create_opts_ok]]
    table_step_reach [OF claim_step [OF assms(2)]]
  show ?thesis
  proof (cases x)
    case (RequestFail i m c0 xs)
    with assms svc_fail_reach show ?thesis by simp
  next
    case (SchedulerTick c2)
    let ?s1 = "snd (d_PromoteScheduledJobs D 1000 c s)"
    have s1: "table_step (table s) (table ?s1)" using assms(2) by (rule promote_scheduled_step)
    then have "table_step (table ?s1) (table (snd (d_FailExpiredJobs D 1000 c2 ?s1)))"
      using assms(2) table_step_ids fail_expired_step by blast
    with s1 SchedulerTick show ?thesis
      by (auto simp: scheduler_tick_def intro: reach_step table_step_reach)
  next
    case (RequestComplete i v)
    with step show ?thesis by (cases "i = []") (simp_all add: svc_states svc_empty_id reach_refl)
  next
    case (RequestHeartbeat i p)
    with step show ?thesis by (cases "i = []") (simp_all add: svc_states svc_empty_id reach_refl)
  next
    case (RequestCancel i)
    with step show ?thesis by (cases "i = []") (simp_all add: svc_states svc_empty_id reach_refl)
  next
    case (RequestPromote i)
    with step show ?thesis by (cases "i = []") (simp_all add: svc_states svc_empty_id reach_refl)
  next
    case (RequestGet i)
    then show ?thesis by (cases "i = []") (simp_all add: svc_states svc_empty_id get_state reach_refl)
  qed (simp_all add: svc_states step pause_step resume_step list_state reach_refl)
qed

lemma serve_all_reach:
  "\<forall>x \<in> set xs. between_ok (snd x) \<Longrightarrow> ids_ok (table s) \<Longrightarrow>
     table_reach (table s) (table (serve_all D rt xs s))"
proof (induction xs arbitrary: s)
  case (Cons x xs)
  obtain c y where x: "x = (c, y)" by (cases x)
  with Cons.prems have r: "table_reach (table s) (table (serve D rt c y s))" by (simp add: serve_reach)
  moreover have "ids_ok (table (serve D rt c y s))" using r Cons.prems(2) by (rule table_reach_ids)
  ultimately show ?case
    using Cons x by (auto intro: table_reach_trans)
qed (simp add: reach_refl)

end

text \<open>C12. The invariant at the level of the service, with no condition on the requests: whatever
  requests clients and workers send to either backend (any options, ids and order, others' calls
  between the two statements of a failure report, scheduler ticks, failing statements), every
  job stays well-formed, keeps its id, queue, kind, payload and options, and its error and worker
  logs only grow.\<close>

theorem service_reachable_ok:
  assumes "is_backend D" and "\<forall>x \<in> set (xs @ ys). between_ok (snd x)"
  shows "table_ok (jobs (serve_all D rt ys (serve_all D rt xs empty_db)))
    \<and> (\<forall>r \<in> set (jobs (serve_all D rt xs empty_db)).
         \<exists>r' \<in> set (jobs (serve_all D rt ys (serve_all D rt xs empty_db))). same_job r r')"
proof -
  have xs: "\<forall>x \<in> set xs. between_ok (snd x)" and ys: "\<forall>x \<in> set ys. between_ok (snd x)"
    using assms(2) by auto
  have ok: "table_ok (jobs empty_db)" by (simp add: empty_db_def)
  have r: "table_reach (jobs s) (jobs (serve_all D rt zs s))"
    if "\<forall>x \<in> set zs. between_ok (snd x)" "ids_ok (jobs s)" for zs s
    using assms(1) pg.serve_all_reach [OF that] sqlite.serve_all_reach [OF that]
    by (auto elim!: is_backendE)
  have r1: "table_reach (jobs empty_db) (jobs (serve_all D rt xs empty_db))"
    by (rule r [OF xs table_ok_ids [OF ok]])
  then have ok1: "table_ok (jobs (serve_all D rt xs empty_db))" using ok by (rule table_reach_ok)
  have "table_reach (jobs (serve_all D rt xs empty_db))
      (jobs (serve_all D rt ys (serve_all D rt xs empty_db)))"
    by (rule r [OF ys table_ok_ids [OF ok1]])
  then show ?thesis using table_reach_ok [OF _ ok1] table_reach_same_job by blast
qed

definition sample_request :: create_job_request where
  "sample_request = \<lparr>cr_queue = ''q'', cr_kind = ''k'', cr_payload = [],
     cr_options = Some \<lparr>jo_pending = False, jo_delay = -5, jo_attempts = -1, jo_priority = 200,
       jo_backoff = None\<rparr>\<rparr>"

lemma service_reachable_ok_witness:
  "table_ok (jobs (serve_all (pg_driver sample_pg) sample_rt
     [(sample_env, RequestClaim empty_context ''q''),
      (sample_env, RequestFail ''01j'' ''boom'' sample_env [(sample_env, CallHeartbeat ''01j'' None)])]
     (serve_all (pg_driver sample_pg) sample_rt [(sample_env, RequestCreate sample_request 0)] empty_db)))
   \<and> map j_status (jobs (serve_all (pg_driver sample_pg) sample_rt
     [(sample_env, RequestClaim empty_context ''q''),
      (sample_env, RequestFail ''01j'' ''boom'' sample_env [(sample_env, CallHeartbeat ''01j'' None)])]
     (serve_all (pg_driver sample_pg) sample_rt [(sample_env, RequestCreate sample_request 0)] empty_db)))
     = [Retryable]"
proof
  show "table_ok (jobs (serve_all (pg_driver sample_pg) sample_rt
     [(sample_env, RequestClaim empty_context ''q''),
      (sample_env, RequestFail ''01j'' ''boom'' sample_env [(sample_env, CallHeartbeat ''01j'' None)])]
     (serve_all (pg_driver sample_pg) sample_rt [(sample_env, RequestCreate sample_request 0)] empty_db)))"
    by (rule conjunct1 [OF service_reachable_ok]) simp_all
  show "map j_status (jobs (serve_all (pg_driver sample_pg) sample_rt
     [(sample_env, RequestClaim empty_context ''q''),
      (sample_env, RequestFail ''01j'' ''boom'' sample_env [(sample_env, CallHeartbeat ''01j'' None)])]
     (serve_all (pg_driver sample_pg) sample_rt [(sample_env, RequestCreate sample_request 0)] empty_db)))
     = [Retryable]"
    by code_simp
qed

end
