(* ===== verification/Retry_Props.thy ===== *)
theory Retry_Props
  imports Service_Props Pg_Attempts
begin

text \<open>
  The options of a job from the request to their use: the delay before a retry
  (\<open>computeBackoffMs\<close>), where it overflows, and the priority and schedule of a new job.
\<close>

subsection \<open>The delay before a retry\<close>

lemma backoff_meta_lookup [simp]:
  "json_map (JObj (backoff_meta bo)) ''backoff_delay'' = Some (JInt (bo_delay bo))"
  "json_map (JObj (backoff_meta bo)) ''backoff_jitter'' = Some (JBool (bo_jitter bo))"
  "json_map (JObj (backoff_meta bo)) ''backoff_type'' = Some (JStr (bo_type bo))"
  by (simp_all add: backoff_meta_def)

text \<open>The delay that the options ask for before attempt \<open>n + 1\<close>.\<close>

definition wanted_backoff :: "backoff_options \<Rightarrow> int \<Rightarrow> int" where
  "wanted_backoff bo n =
     (if bo_type bo = ''exponential'' then bo_delay bo * 2 ^ nat (n - 1) else bo_delay bo)"

lemma base_delay_meta:
  "0 \<le> bo_delay bo \<Longrightarrow> bo_delay bo < 2 ^ 53 \<Longrightarrow>
     base_delay rt (json_map (JObj (backoff_meta bo))) = bo_delay bo"
  by (simp add: base_delay_def float64_exact int64_of_float_def in_int64_def del: json_map_JObj)

lemma raw_backoff_meta:
  assumes "0 < bo_delay bo" and "bo_delay bo < 2 ^ 53" and "1 \<le> n" and "wanted_backoff bo n < 2 ^ 63"
  shows "raw_backoff rt (json_map (JObj (backoff_meta bo))) n = wanted_backoff bo n"
proof (cases "bo_type bo = ''exponential''")
  case True
  let ?p = "2 ^ nat (n - 1) :: int"
  have w: "wanted_backoff bo n = bo_delay bo * ?p" using True by (simp add: wanted_backoff_def)
  have "?p \<le> bo_delay bo * ?p" using assms(1) by (simp add: mult_le_cancel_right1)
  then have "?p < 2 ^ 63" using assms(4) w by linarith
  then have k: "n - 1 < 63" using power_less_imp_less_exp [of "2 :: int" "nat (n - 1)" 63] by auto
  have "wrap64 (bo_delay bo * ?p) = bo_delay bo * ?p"
  proof (rule wrap64_id)
    have "0 \<le> bo_delay bo * ?p" using assms(1) by simp
    with assms(4) w show "in_int64 (bo_delay bo * ?p)" unfolding in_int64_def by linarith
  qed
  with k assms True w show ?thesis
    by (simp add: raw_backoff_def as_string_def base_delay_meta int64_pow2_def del: json_map_JObj)
next
  case False
  then show ?thesis
    using assms by (simp add: raw_backoff_def as_string_def base_delay_meta wanted_backoff_def
        del: json_map_JObj)
qed

lemma add_jitter_bounds:
  assumes "0 \<le> ms"
  shows "\<exists>v. add_jitter rnd ms = Inr v \<and> ms div 2 \<le> v \<and> v \<le> ms"
proof -
  have "0 \<le> rnd mod (ms div 2 + 1)" and "rnd mod (ms div 2 + 1) < ms div 2 + 1"
    using assms pos_mod_bound [of "ms div 2 + 1" rnd] by simp_all
  then show ?thesis using assms by (auto simp: add_jitter_def go_div_nonneg Let_def)
qed

text \<open>C24. The delay before the next attempt of a job created with backoff options is what they
  ask for, the base delay or its double for every attempt already made, as long as that fits in
  64 bits: exactly without jitter, and with jitter at least half of it and at most all of it.
  The options that \<open>CreateJob\<close> stored are the ones that are read.\<close>

theorem backoff_bounds:
  assumes "cr_options m = Some jo" and "jo_backoff jo = Some bo"
    and "o_Metadata (create_opts_of m now) = Some (j_metadata row)"
    and "0 < bo_delay bo" and "bo_delay bo < 2 ^ 53" and "1 \<le> j_attempt row"
    and "wanted_backoff bo (j_attempt row) < 2 ^ 63"
  shows "\<exists>ms. backoff_ms rt rnd row = Inr ms
    \<and> (if bo_jitter bo
       then wanted_backoff bo (j_attempt row) div 2 \<le> ms \<and> ms \<le> wanted_backoff bo (j_attempt row)
       else ms = wanted_backoff bo (j_attempt row))"
proof -
  have meta: "j_metadata row = JObj (backoff_meta bo)"
    using assms(1-3) by (simp add: create_opts_of_def Let_def)
  have "0 \<le> wanted_backoff bo (j_attempt row)" using assms(4) by (simp add: wanted_backoff_def)
  from add_jitter_bounds [OF this, of rnd] raw_backoff_meta [OF assms(4-7), of rt]
  show ?thesis
    by (auto simp: backoff_ms_def meta as_bool_def Let_def simp del: json_map_JObj)
qed

definition sample_backoff :: backoff_options where
  "sample_backoff = \<lparr>bo_type = ''exponential'', bo_delay = 1000, bo_jitter = False\<rparr>"

definition backoff_request :: create_job_request where
  "backoff_request = \<lparr>cr_queue = ''q'', cr_kind = ''k'', cr_payload = [],
     cr_options = Some \<lparr>jo_pending = False, jo_delay = 0, jo_attempts = 0, jo_priority = 0,
       jo_backoff = Some sample_backoff\<rparr>\<rparr>"

definition backoff_job :: "int \<Rightarrow> job" where
  "backoff_job n = (sample_job ''r'' Running)
     \<lparr>j_attempt := n, j_max_attempts := 25, j_metadata := JObj (backoff_meta sample_backoff)\<rparr>"

lemma backoff_bounds_witness:
  "backoff_ms sample_rt 0 (job_row.truncate (backoff_job 4)) = Inr 8000"
proof -
  have o: "cr_options backoff_request = Some \<lparr>jo_pending = False, jo_delay = 0, jo_attempts = 0,
      jo_priority = 0, jo_backoff = Some sample_backoff\<rparr>" by (simp add: backoff_request_def)
  have m: "o_Metadata (create_opts_of backoff_request 0) = Some (j_metadata (job_row.truncate (backoff_job 4)))"
    by (simp add: backoff_request_def create_opts_of_def Let_def backoff_job_def job_row.defs)
  show ?thesis
    using backoff_bounds [OF o _ m, of sample_backoff sample_rt 0]
    by (simp add: sample_backoff_def wanted_backoff_def backoff_job_def job_row.defs)
qed

text \<open>C34. On PostgreSQL a retry delay of \<open>2^31\<close> milliseconds or more, which the default of 25
  attempts reaches at the 23rd with an exponential backoff of one second, makes the failure
  report fail with \<open>Internal\<close>: the attempt is not recorded, the message is lost and the job stays
  running until its lock expires.\<close>

theorem svc_fail_overflow:
  assumes "ids_ok (jobs s)" and "r \<in> set (jobs s)" and "j_id r \<noteq> []"
    and "j_metadata r = JObj (backoff_meta bo)" and "\<not> bo_jitter bo"
    and "0 < bo_delay bo" and "bo_delay bo < 2 ^ 53" and "1 \<le> j_attempt r"
    and "2 ^ 31 \<le> wanted_backoff bo (j_attempt r)" and "wanted_backoff bo (j_attempt r) < 2 ^ 63"
    and "pg_int4 cfg = in_int32" and "fault c0 0 = None"
  shows "svc_FailJob (pg_driver cfg) rt (j_id r) m c0 (\<lambda>x. x) c s
    = (Inl (RpcError CodeInternal int4_error), s)"
proof -
  have get: "d_GetJob (pg_driver cfg) (j_id r) c0 s = (Inr (job_row.truncate r), s)"
    using assms(1,2,12) by (simp add: pg_driver_simps pg_GetJob_def ids_ok_lookup)
  have "backoff_ms rt (rand_src c0) (job_row.truncate r) = Inr (wanted_backoff bo (j_attempt r))"
    using assms(4,5) raw_backoff_meta [OF assms(6-8,10), of rt]
    by (simp add: backoff_ms_def as_bool_def Let_def job_row.defs del: json_map_JObj)
  moreover have "\<not> in_int32 (wanted_backoff bo (j_attempt r))"
    using assms(9) by (simp add: in_int32_def)
  ultimately show ?thesis
    using get assms(3,11)
    by (simp add: svc_FailJob_def parseJobID_def pg_driver_simps pg_FailJob_def mapErr_def internal_error_def)
qed

lemma svc_fail_overflow_witness:
  "fst (svc_FailJob (pg_driver sample_pg) sample_rt ''r'' ''m'' sample_env (\<lambda>x. x) sample_env
     (sample_db\<lparr>jobs := [backoff_job 23]\<rparr>)) = Inl (RpcError CodeInternal int4_error)"
  using svc_fail_overflow [of "sample_db\<lparr>jobs := [backoff_job 23]\<rparr>" "backoff_job 23" sample_backoff
      sample_pg sample_env sample_rt "''m''" sample_env]
  by (simp add: ids_ok_def backoff_job_def sample_backoff_def wanted_backoff_def sample_pg_def)

subsection \<open>Creating a job\<close>

text \<open>The options of a request, with the defaults of an absent message.\<close>

definition options_of :: "create_job_request \<Rightarrow> job_options" where
  "options_of m = (case cr_options m of Some jo \<Rightarrow> jo
     | None \<Rightarrow> \<lparr>jo_pending = False, jo_delay = 0, jo_attempts = 0, jo_priority = 0, jo_backoff = None\<rparr>)"

definition wanted_start :: "create_job_request \<Rightarrow> int \<Rightarrow> call_env \<Rightarrow> int" where
  "wanted_start m now c =
     (if 0 < jo_delay (options_of m) then now + jo_delay (options_of m) * 1000000 else clock c 0)"

definition wanted_status :: "create_job_request \<Rightarrow> int \<Rightarrow> call_env \<Rightarrow> status" where
  "wanted_status m now c =
     (if jo_pending (options_of m) then Pending
      else if clock c 1 < wanted_start m now c then Scheduled else Available)"

definition created_from :: "create_job_request \<Rightarrow> int \<Rightarrow> call_env \<Rightarrow> job \<Rightarrow> bool" where
  "created_from m now c r \<longleftrightarrow>
     j_queue r = cr_queue m \<and> j_kind r = cr_kind m \<and> j_payload r = JObj (cr_payload m)
     \<and> j_status r = wanted_status m now c
     \<and> j_max_attempts r = (if 0 < jo_attempts (options_of m) then jo_attempts (options_of m) else 25)
     \<and> j_priority r = (if 0 < jo_priority (options_of m) then clampPriority (jo_priority (options_of m)) else 1)"

lemma clampPriority_range: "1 \<le> clampPriority p \<and> clampPriority p \<le> 4"
  by (simp add: clampPriority_def)

lemma create_opts_start:
  assumes "jo_delay (options_of m) * 1000000 < 2 ^ 63"
  shows "(case o_ScheduledAt (create_opts_of m now) of Some t \<Rightarrow> t | None \<Rightarrow> clock c 0) = wanted_start m now c"
proof -
  have "wrap64 (jo_delay (options_of m) * 1000000) = jo_delay (options_of m) * 1000000"
    if "0 < jo_delay (options_of m)"
    using assms that by (intro wrap64_id) (simp add: in_int64_def)
  then show ?thesis
    by (auto simp: create_opts_of_def wanted_start_def options_of_def Let_def split: option.splits)
qed

lemma new_job_created_from:
  assumes "jo_delay (options_of m) * 1000000 < 2 ^ 63"
  shows "created_from m now c (pg_new_job cfg c (create_opts_of m now) i)"
    and "created_from m now c (sq_new_job c (create_opts_of m now) i)"
proof -
  note start = create_opts_start [OF assms, of c now]
  have nz: "clampPriority p \<noteq> 0" for p using clampPriority_range [of p] by linarith
  have opts: "o_Queue (create_opts_of m now) = cr_queue m" "o_Kind (create_opts_of m now) = cr_kind m"
    "o_PayloadJSON (create_opts_of m now) = JObj (cr_payload m)"
    "o_Pending (create_opts_of m now) = jo_pending (options_of m)"
    "o_MaxAttempts (create_opts_of m now) = (if 0 < jo_attempts (options_of m) then jo_attempts (options_of m) else 0)"
    "o_Priority (create_opts_of m now) = (if 0 < jo_priority (options_of m) then clampPriority (jo_priority (options_of m)) else 0)"
    by (simp_all add: create_opts_of_def options_of_def Let_def split: option.split)
  show "created_from m now c (pg_new_job cfg c (create_opts_of m now) i)"
    and "created_from m now c (sq_new_job c (create_opts_of m now) i)"
    by (auto simp: created_from_def pg_new_job_def sq_new_job_def Let_def start opts nz
        pg_create_status_def sq_create_status_def wanted_status_def)
qed

lemma rowToProto_id: "p_id (rowToProto rt row) = j_id row" "p_status (rowToProto rt row) = j_status row"
  by (simp_all add: rowToProto_def)

text \<open>The whole row: \<open>conv\<close> is how the driver stores a time, \<open>stamp\<close> the database's clock.\<close>

definition stored_from ::
  "create_job_request \<Rightarrow> int \<Rightarrow> call_env \<Rightarrow> (int \<Rightarrow> int) \<Rightarrow> int \<Rightarrow> job \<Rightarrow> bool" where
  "stored_from m now c conv stamp r \<longleftrightarrow>
     created_from m now c r \<and> fresh_job r
     \<and> j_metadata r = JObj (case jo_backoff (options_of m) of None \<Rightarrow> [] | Some bo \<Rightarrow> backoff_meta bo)
     \<and> j_scheduled_at r = conv (wanted_start m now c) \<and> j_created_at r = stamp"

lemma create_opts_metadata: "o_Metadata (create_opts_of m now)
    = Some (JObj (case jo_backoff (options_of m) of None \<Rightarrow> [] | Some bo \<Rightarrow> backoff_meta bo))"
  by (simp add: create_opts_of_def options_of_def Let_def split: option.split)

lemma new_job_stored_from:
  assumes "jo_delay (options_of m) * 1000000 < 2 ^ 63"
  shows "stored_from m now c (pg_ts cfg) (db_now c 1) (pg_new_job cfg c (create_opts_of m now) i)"
    and "stored_from m now c sq_format (sq_now c 1) (sq_new_job c (create_opts_of m now) i)"
  using new_job_created_from [OF assms] create_opts_ok [of m now]
    create_opts_start [OF assms, of c now]
  by (simp_all add: stored_from_def pg_new_job_fresh sq_new_job_fresh)
    (simp_all add: pg_new_job_def sq_new_job_def Let_def create_opts_metadata)

lemma pg_upsert_queue_name: "name \<in> q_name ` set (pg_upsert_queue now name qs)"
proof -
  have "map q_name (update_where (\<lambda>q. q_name q = name) (\<lambda>q. q\<lparr>q_updated_at := now\<rparr>) qs) = map q_name qs"
    by (rule map_update_where) simp
  then show ?thesis by (simp add: pg_upsert_queue_def del: set_map add: set_map [symmetric])
qed

lemma sq_upsert_queue_name: "name \<in> q_name ` set (sq_upsert_queue now name qs)"
proof -
  have "map q_name (update_where (\<lambda>q. q_name q = name) (\<lambda>q. q\<lparr>q_updated_at := now\<rparr>) qs) = map q_name qs"
    by (rule map_update_where) simp
  then show ?thesis by (simp add: sq_upsert_queue_def del: set_map add: set_map [symmetric])
qed

text \<open>C23. What a successful \<open>CreateJob\<close> stores, on either backend. Exactly one job is appended, under an
  id that no job had before, and the answer is that row; its queue exists then. The row has the
  queue, kind and payload of the request and the backoff options as its metadata; it is scheduled
  for the requested delay after the request (in the driver's form of a time), for now without one;
  it is pending when asked to, scheduled when its delay is not over and available otherwise; it has
  the requested number of attempts or 25, the clamped priority or 1, and no attempt, error or
  result yet. The delay is the requested one as long as it fits in 64 bits of nanoseconds.\<close>

theorem svc_create_outcome:
  assumes "jo_delay (options_of m) * 1000000 < 2 ^ 63"
  shows "(svc_CreateJob (pg_driver cfg) rt m now c s = (Inr p, s') \<longrightarrow>
      (\<exists>r. jobs s' = jobs s @ [r] \<and> j_id r \<notin> j_id ` set (jobs s) \<and> cr_queue m \<in> q_name ` set (queues s')
        \<and> stored_from m now c (pg_ts cfg) (db_now c 1) r \<and> p = rowToProto rt (job_row.truncate r)))
    \<and> (svc_CreateJob (sqlite_driver q) rt m now c s = (Inr p, s') \<longrightarrow>
      (\<exists>r. jobs s' = jobs s @ [r] \<and> j_id r \<notin> j_id ` set (jobs s) \<and> cr_queue m \<in> q_name ` set (queues s')
        \<and> stored_from m now c sq_format (sq_now c 1) r \<and> p = rowToProto rt (scanJobRowSqlite r)))"
proof -
  have name: "o_Queue (create_opts_of m now) = cr_queue m"
    by (simp add: create_opts_of_def Let_def split: option.split)
  show ?thesis
    using new_job_stored_from [OF assms, of now c] pg_upsert_queue_name [of "cr_queue m"]
      sq_upsert_queue_name [of "cr_queue m"]
    by (auto simp: svc_CreateJob_def pg_driver_simps pg_CreateJob_def sqlite_driver_simps sq_CreateJob_def
        Let_def name split: option.splits sum.splits prod.splits if_splits)
qed

lemma svc_create_outcome_witness:
  "\<exists>r. jobs (snd (svc_CreateJob (pg_driver sample_pg) sample_rt backoff_request 0 sample_env sample_db))
      = jobs sample_db @ [r] \<and> j_status r = Available \<and> j_priority r = 1
      \<and> j_metadata r = JObj (backoff_meta sample_backoff) \<and> j_scheduled_at r = 90000000000"
proof -
  let ?x = "svc_CreateJob (pg_driver sample_pg) sample_rt backoff_request 0 sample_env sample_db"
  have "case fst ?x of Inr p \<Rightarrow> True | _ \<Rightarrow> False" by code_simp
  then obtain p where x: "?x = (Inr p, snd ?x)" by (cases "fst ?x") (auto simp: prod_eq_iff)
  have "jo_delay (options_of backoff_request) * 1000000 < 2 ^ 63"
    by (simp add: options_of_def backoff_request_def)
  from svc_create_outcome [OF this] x
  have "\<exists>r. jobs (snd ?x) = jobs sample_db @ [r] \<and> stored_from backoff_request 0 sample_env (pg_ts sample_pg)
      (db_now sample_env 1) r" by blast
  then show ?thesis
    by (auto simp: stored_from_def created_from_def wanted_status_def wanted_start_def options_of_def
        backoff_request_def sample_pg_def)
qed

text \<open>The rank in the claim order that a requested priority gets; 0 stands for none.\<close>

abbreviation rank :: "int \<Rightarrow> int" where
  "rank p \<equiv> if 0 < p then clampPriority p else 1"

lemma clampPriority_antimono: "p \<le> p' \<Longrightarrow> clampPriority p' \<le> clampPriority p"
  by (simp add: clampPriority_def)

lemma pg_claim_not_later:
  assumes "r \<in> set (jobs s)" and "pg_claimable c q r" and "claim_key r < claim_key r'"
    and "pg_ClaimJob cfg q w c s = (Inr (Some row), s')" and "ids_ok (jobs s)" and "r' \<in> set (jobs s)"
  shows "j_id row \<noteq> j_id r'"
proof
  assume eq: "j_id row = j_id r'"
  from assms(4) obtain x xs where x: "select_limit (pg_claimable c q) claim_key 1 (jobs s) = x # xs"
    "row = job_row.truncate (pg_claim_set cfg (db_now c 1) w x)"
    by (rule pg_ClaimJob_Some)
  have sel: "x \<in> set (select_limit (pg_claimable c q) claim_key 1 (jobs s))" using x(1) by simp
  have "j_id x = j_id r'" using eq x(2) by (simp add: job_row.defs pg_claim_set_def)
  then have "x = r'" using ids_ok_unique [OF assms(5) _ assms(6)] select_limitD(1) [OF sel] by blast
  have "xs = []" using length_select_limit_le [of "pg_claimable c q" claim_key 1 "jobs s"] x(1) by simp
  then have "r \<notin> set (select_limit (pg_claimable c q) claim_key 1 (jobs s))"
    using x(1) \<open>x = r'\<close> assms(3) by auto
  from select_limit_smallest [OF sel assms(1,2) this] \<open>x = r'\<close> assms(3) show False by simp
qed

text \<open>C25. Priorities from the request to the claim on PostgreSQL: of two claimable jobs of a queue,
  the one whose request asked for the higher priority, as far as the four ranks tell them apart,
  goes first, whatever their schedules; and a request with no priority ranks with the highest,
  before every explicit priority below 75.\<close>

theorem priority_order:
  assumes "ids_ok (jobs s)" and "r \<in> set (jobs s)" and "r' \<in> set (jobs s)"
    and "pg_claimable c q r" and "pg_claimable c q r'"
    and "created_from m n c0 a" and "same_job a r" and "created_from m' n' c0' a'" and "same_job a' r'"
    and "0 < jo_priority (options_of m')" and "jo_priority (options_of m') < 75"
    and "jo_priority (options_of m) = 0 \<or>
      clampPriority (jo_priority (options_of m)) \<noteq> clampPriority (jo_priority (options_of m'))
      \<and> jo_priority (options_of m') < jo_priority (options_of m)"
    and "pg_ClaimJob cfg q w c s = (Inr (Some row), s')"
  shows "j_id row \<noteq> j_id r'"
proof -
  have p: "j_priority r = rank (jo_priority (options_of m))"
    "j_priority r' = clampPriority (jo_priority (options_of m'))"
    using assms(6-10) by (simp_all add: created_from_def same_job_def)
  have "1 < clampPriority (jo_priority (options_of m'))"
    using assms(11) by (simp add: clampPriority_def)
  with p assms(10,12) clampPriority_antimono [of "jo_priority (options_of m')" "jo_priority (options_of m)"]
  have "j_priority r < j_priority r'" by auto
  then have "claim_key r < claim_key r'" by (simp add: claim_key_def less_prod_simp)
  from pg_claim_not_later [OF assms(2,4) this assms(13,1,3)] show ?thesis .
qed

definition prio_request :: "int \<Rightarrow> create_job_request" where
  "prio_request p = \<lparr>cr_queue = ''q'', cr_kind = ''k'', cr_payload = [],
     cr_options = Some \<lparr>jo_pending = False, jo_delay = 0, jo_attempts = 0, jo_priority = p,
       jo_backoff = None\<rparr>\<rparr>"

definition prio_job :: "string \<Rightarrow> int \<Rightarrow> job" where
  "prio_job i p = pg_new_job sample_pg sample_env (create_opts_of (prio_request p) 0) i"

lemma priority_order_witness:
  "\<exists>row s'. pg_ClaimJob sample_pg ''q'' ''w'' sample_env (sample_db\<lparr>jobs := [prio_job ''a'' 50, prio_job ''b'' 0]\<rparr>)
     = (Inr (Some row), s') \<and> j_id row \<noteq> ''a''"
proof -
  let ?s = "sample_db\<lparr>jobs := [prio_job ''a'' 50, prio_job ''b'' 0]\<rparr>"
  let ?x = "pg_ClaimJob sample_pg ''q'' ''w'' sample_env ?s"
  have "case fst ?x of Inr (Some _) \<Rightarrow> True | _ \<Rightarrow> False" by code_simp
  then obtain row where row: "?x = (Inr (Some row), snd ?x)"
    by (auto split: sum.splits option.splits simp: prod_eq_iff)
  have c: "created_from (prio_request p) 0 sample_env (prio_job i p)" for p i
    unfolding prio_job_def by (rule new_job_created_from) (simp add: options_of_def prio_request_def)
  have k: "pg_claimable sample_env ''q'' (prio_job ''a'' 50)" "pg_claimable sample_env ''q'' (prio_job ''b'' 0)"
    and i: "j_id (prio_job ''a'' 50) = ''a''" "ids_ok (jobs ?s)"
    by code_simp+
  have "j_id row \<noteq> j_id (prio_job ''a'' 50)"
    by (rule priority_order [OF i(2) _ _ k(2,1) c same_job_refl c same_job_refl _ _ _ row])
      (simp_all add: options_of_def prio_request_def)
  with row i(1) show ?thesis by auto
qed

end
