(* ===== verification/List_Props.thy ===== *)
theory List_Props
  imports Service_Props
begin

text \<open>
  Listing jobs: what one page holds, that following the cursor visits every job once, and the
  counts and pause flag of a queue.
\<close>

subsection \<open>A strictly descending list and its cursors\<close>

abbreviation descending :: "job list \<Rightarrow> bool" where
  "descending \<equiv> sorted_wrt (\<lambda>x y. j_id y < j_id x)"

definition matching_desc :: "string \<Rightarrow> string \<Rightarrow> job list \<Rightarrow> job list" where
  "matching_desc q st xs = rev (sort_key j_id (filter (list_cond q st []) xs))"

definition after_cursor :: "string \<Rightarrow> job list \<Rightarrow> job list" where
  "after_cursor a xs = filter (\<lambda>r. a = [] \<or> j_id r < a) xs"

lemma select_desc_after:
  "select_desc (list_cond q st a) j_id n xs = take n (after_cursor a (matching_desc q st xs))"
proof -
  have "filter (list_cond q st a) xs
      = filter (\<lambda>r. a = [] \<or> j_id r < a) (filter (list_cond q st []) xs)"
    by (induction xs) (auto simp: list_cond_def)
  then show ?thesis
    by (simp add: select_desc_def matching_desc_def after_cursor_def filter_sort [symmetric] rev_filter
        del: filter_filter)
qed

lemma descending_matching:
  assumes "ids_ok xs"
  shows "descending (matching_desc q st xs)"
proof -
  let ?ys = "sort_key j_id (filter (list_cond q st []) xs)"
  have "distinct (map j_id ?ys)"
    using distinct_select_limit [of j_id xs "list_cond q st []" j_id "length xs"] assms
    by (simp add: ids_ok_def select_limit_def)
  moreover have "sorted (map j_id ?ys)" by simp
  ultimately have "sorted_wrt (<) (map j_id ?ys)" by (simp add: strict_sorted_iff)
  then show ?thesis by (simp add: matching_desc_def sorted_wrt_rev sorted_wrt_map)
qed

lemma set_matching: "set (matching_desc q st xs) = {r \<in> set xs. list_cond q st [] r}"
  by (simp add: matching_desc_def)

lemma after_cursor_start: "after_cursor [] xs = xs"
  by (simp add: after_cursor_def)

lemma after_cursor_split:
  assumes "descending (xs @ x # ys)" and "j_id x \<noteq> []"
  shows "after_cursor (j_id x) (xs @ x # ys) = ys"
proof -
  have "filter (\<lambda>r. j_id r < j_id x) xs = []"
    using assms(1) by (auto simp: sorted_wrt_append filter_empty_conv dest: less_not_sym)
  moreover have "filter (\<lambda>r. j_id r < j_id x) ys = ys"
    using assms(1) by (auto simp: sorted_wrt_append filter_id_conv)
  ultimately show ?thesis using assms(2) by (simp add: after_cursor_def)
qed

lemma after_last_page:
  assumes "descending (pre @ R)" and "0 < n" and "R \<noteq> []" and "\<forall>r \<in> set R. j_id r \<noteq> []"
  shows "after_cursor (j_id (last (take n R))) (pre @ R) = drop n R"
    and "pre @ R = (pre @ take n R) @ drop n R"
proof -
  have ne: "take n R \<noteq> []" using assms(2,3) by simp
  then have split: "pre @ R = (pre @ butlast (take n R)) @ last (take n R) # drop n R"
    by (metis append.assoc append_Cons append_Nil append_butlast_last_id append_take_drop_id)
  have "last (take n R) \<in> set R" using ne last_in_set in_set_takeD by metis
  then have "j_id (last (take n R)) \<noteq> []" using assms(4) by blast
  from after_cursor_split [OF assms(1) [unfolded split] this]
  show "after_cursor (j_id (last (take n R))) (pre @ R) = drop n R" by (subst split)
  show "pre @ R = (pre @ take n R) @ drop n R" by simp
qed

subsection \<open>Following the cursor of \<open>ListJobs\<close>\<close>

text \<open>What a client does to read everything: it asks for the page after the last id it has seen,
  until a page is empty; at most \<open>n\<close> requests.\<close>

fun read_pages :: "nat \<Rightarrow> (string \<Rightarrow> proto_job list) \<Rightarrow> string \<Rightarrow> proto_job list" where
  "read_pages 0 fetch a = []"
| "read_pages (Suc n) fetch a =
     (let p = fetch a in if p = [] then [] else p @ read_pages n fetch (p_id (last p)))"

lemma read_pages_all:
  assumes fetch: "\<And>a. fetch a = map f (take lim (after_cursor a L))"
    and f: "\<And>r. p_id (f r) = j_id r" and "descending L" and "0 < lim" and "\<forall>r \<in> set L. j_id r \<noteq> []"
  shows "L = pre @ R \<Longrightarrow> after_cursor a L = R \<Longrightarrow> length R \<le> n \<Longrightarrow> read_pages n fetch a = map f R"
proof (induction n arbitrary: pre R a)
  case 0
  then show ?case by simp
next
  case (Suc n)
  show ?case
  proof (cases "R = []")
    case True
    with Suc.prems show ?thesis by (simp add: fetch)
  next
    case False
    have ids: "\<forall>r \<in> set R. j_id r \<noteq> []" using Suc.prems(1) assms(5) by auto
    have ne: "take lim R \<noteq> []" using False assms(4) by simp
    have page: "fetch a = map f (take lim R)" using fetch Suc.prems(2) by simp
    have last: "p_id (last (fetch a)) = j_id (last (take lim R))"
      using ne by (simp add: page last_map f)
    note next_page = after_last_page [OF assms(3) [unfolded Suc.prems(1)] assms(4) False ids]
    have "read_pages n fetch (p_id (last (fetch a))) = map f (drop lim R)"
    proof (rule Suc.IH)
      show "L = (pre @ take lim R) @ drop lim R" using next_page(2) Suc.prems(1) by simp
      show "after_cursor (p_id (last (fetch a))) L = drop lim R"
        using next_page(1) by (simp add: last Suc.prems(1))
      show "length (drop lim R) \<le> n" using Suc.prems(3) assms(4) False
        by (cases R) auto
    qed
    then show ?thesis using page ne by (simp add: Let_def map_append [symmetric] del: map_append)
  qed
qed

abbreviation page_limit :: "int \<Rightarrow> nat" where
  "page_limit lim \<equiv> if lim = 0 then 50 else nat lim"

context job_driver_results begin

lemma svc_list_rows:
  assumes "fault c 0 = None" and "0 \<le> lim"
  shows "fst (svc_ListJobs D rt q st lim a c s) =
    Inr (map (\<lambda>r. rowToProto rt (view r)) (take (page_limit lim) (after_cursor a (matching_desc q st (table s)))))"
proof -
  let ?L = "after_cursor a (matching_desc q st (table s))" and ?l = "if lim = 0 then 50 else lim"
  have rows: "fst (d_ListJobs D q st (?l + 1) a c s) = Inr (map view (take (nat (?l + 1)) ?L))"
    using list_result [OF assms(1), of q st "?l + 1" a s] assms(2) by (simp add: select_desc_after)
  have l: "nat (?l + 1) = Suc (page_limit lim)" "int (page_limit lim) = ?l" using assms(2) by auto
  obtain s' where call: "d_ListJobs D q st (?l + 1) a c s = (Inr (map view (take (Suc (page_limit lim)) ?L)), s')"
    using rows l(1) by (cases "d_ListJobs D q st (?l + 1) a c s") auto
  have cut: "take (page_limit lim) (take (Suc (page_limit lim)) ?L) = take (page_limit lim) ?L"
    by (simp add: take_take)
  show ?thesis
  proof (cases "page_limit lim < length ?L")
    case True
    then have "?l < int (length (map view (take (Suc (page_limit lim)) ?L)))" using l(2) by simp
    moreover have "\<not> ?l < 0" "nat ?l = page_limit lim" using assms(2) by auto
    ultimately show ?thesis
      unfolding svc_ListJobs_def Let_def call using cut by (simp add: take_map comp_def)
  next
    case False
    then have "\<not> ?l < int (length (map view (take (Suc (page_limit lim)) ?L)))" using l(2) by simp
    with False show ?thesis unfolding svc_ListJobs_def Let_def call by (simp add: comp_def)
  qed
qed

lemma svc_list_negative:
  assumes "fault c 0 = None" and "lim < 0"
  shows "fst (svc_ListJobs D rt q st lim a c s) = Inl Panic"
proof -
  obtain rows s' where "d_ListJobs D q st (lim + 1) a c s = (Inr rows, s')"
    using list_result [OF assms(1), of q st "lim + 1" a s] by (cases "d_ListJobs D q st (lim + 1) a c s") auto
  moreover have "lim < int (length rows)" using assms(2) by linarith
  ultimately show ?thesis using assms(2) by (simp add: svc_ListJobs_def Let_def)
qed

lemma svc_list_ids:
  assumes "fault c 0 = None" and "0 \<le> lim"
  shows "\<exists>ps. fst (svc_ListJobs D rt q st lim a c s) = Inr ps
    \<and> map p_id ps = map j_id (take (page_limit lim) (after_cursor a (matching_desc q st (table s))))
    \<and> map p_status ps = map j_status (take (page_limit lim) (after_cursor a (matching_desc q st (table s))))"
  unfolding svc_list_rows [OF assms]
  by (auto simp: rowToProto_def view_id view_status)

lemma svc_list_pages:
  assumes "fault c 0 = None" and "0 < lim" and "ids_ok (table s)" and "\<forall>r \<in> set (table s). j_id r \<noteq> []"
    and "length (table s) \<le> n"
  shows "read_pages n (\<lambda>a. projr (fst (svc_ListJobs D rt q st lim a c s))) []
    = map (\<lambda>r. rowToProto rt (view r)) (matching_desc q st (table s))"
proof (rule read_pages_all [where L = "matching_desc q st (table s)" and pre = "[]"])
  show "projr (fst (svc_ListJobs D rt q st lim a c s)) =
      map (\<lambda>r. rowToProto rt (view r)) (take (page_limit lim) (after_cursor a (matching_desc q st (table s))))" for a
    using assms(1,2) by (simp add: svc_list_rows)
  show "p_id (rowToProto rt (view r)) = j_id r" for r by (simp add: rowToProto_def view_id)
  show "descending (matching_desc q st (table s))" using assms(3) by (rule descending_matching)
  show "0 < page_limit lim" using assms(2) by simp
  show "\<forall>r \<in> set (matching_desc q st (table s)). j_id r \<noteq> []" using assms(4) by (simp add: set_matching)
  show "length (matching_desc q st (table s)) \<le> n"
    using le_trans [OF length_filter_le assms(5)] by (simp add: matching_desc_def)
qed (simp_all add: after_cursor_start)

end

text \<open>\<open>ListJobs\<close> on either backend returns the newest matching jobs, at most the limit (50 when
  it is unset), strictly older than the cursor when there is one, in descending order of id; a
  negative limit panics, so the service relies on the validation of the request.\<close>

theorem svc_list_newest:
  assumes "is_backend D" and "fault c 0 = None" and "ids_ok (jobs s)"
  shows "if lim < 0 then fst (svc_ListJobs D rt q st lim a c s) = Inl Panic
    else \<exists>ps. fst (svc_ListJobs D rt q st lim a c s) = Inr ps \<and> length ps \<le> page_limit lim
      \<and> sorted_wrt (\<lambda>x y. y < x) (map p_id ps)
      \<and> (length ps < page_limit lim \<longrightarrow> set (map p_id ps) = {j_id r | r. r \<in> set (jobs s) \<and> list_cond q st a r})
      \<and> (\<forall>p \<in> set ps. \<forall>r \<in> set (jobs s). list_cond q st a r \<longrightarrow> p_id p < j_id r \<longrightarrow> j_id r \<in> set (map p_id ps))"
proof (cases "lim < 0")
  case True
  with assms show ?thesis by (auto elim!: is_backendE simp: pgr.svc_list_negative sqliter.svc_list_negative)
next
  case False
  let ?L = "after_cursor a (matching_desc q st (jobs s))" and ?n = "page_limit lim"
  obtain ps where ps: "fst (svc_ListJobs D rt q st lim a c s) = Inr ps" "map p_id ps = map j_id (take ?n ?L)"
    using assms(1,2) False pgr.svc_list_ids [of c lim] sqliter.svc_list_ids [of c lim]
    by (elim is_backendE) (simp, metis not_less)+
  have desc: "descending ?L"
    unfolding after_cursor_def by (rule sorted_wrt_filter) (rule descending_matching [OF assms(3)])
  have set: "set ?L = {r \<in> set (jobs s). list_cond q st a r}"
    by (auto simp: after_cursor_def set_matching list_cond_def)
  have len: "length ps = length (take ?n ?L)" using ps(2) by (metis length_map)
  have ids: "set (map p_id ps) = j_id ` set (take ?n ?L)" by (simp only: ps(2) set_map)
  have "sorted_wrt (\<lambda>x y. y < x) (map p_id ps)"
    unfolding ps(2) sorted_wrt_map by (rule sorted_wrt_take [OF desc])
  moreover have "set (map p_id ps) = {j_id r | r. r \<in> set (jobs s) \<and> list_cond q st a r}" if "length ps < ?n"
  proof -
    have "take ?n ?L = ?L" using that len by simp
    then show ?thesis unfolding ids by (auto simp: set)
  qed
  moreover have "j_id r \<in> set (map p_id ps)"
    if p: "p \<in> set ps" and r: "r \<in> set (jobs s)" "list_cond q st a r" and less: "p_id p < j_id r" for p r
  proof (rule ccontr)
    assume no: "j_id r \<notin> set (map p_id ps)"
    have "r \<in> set (take ?n ?L @ drop ?n ?L)"
      unfolding append_take_drop_id set using r by simp
    moreover have "r \<notin> set (take ?n ?L)" using no unfolding ids by blast
    ultimately have rd: "r \<in> set (drop ?n ?L)" unfolding set_append by blast
    have "p_id p \<in> set (map p_id ps)" using p by simp
    then have "p_id p \<in> j_id ` set (take ?n ?L)" unfolding ids .
    then obtain x where x: "x \<in> set (take ?n ?L)" "p_id p = j_id x" by blast
    have "descending (take ?n ?L @ drop ?n ?L)" using desc by simp
    then have "j_id r < j_id x" using x rd unfolding sorted_wrt_append by blast
    with less x(2) show False by simp
  qed
  moreover have "length ps \<le> ?n" using len by simp
  ultimately show ?thesis unfolding if_not_P [OF False] using ps(1) by blast
qed

lemma svc_list_newest_witness:
  "\<exists>ps. fst (svc_ListJobs (pg_driver sample_pg) sample_rt ''q'' ''available'' 5 ''b'' sample_env sample_db) = Inr ps
     \<and> set (map p_id ps) = {''a''}"
proof -
  let ?call = "svc_ListJobs (pg_driver sample_pg) sample_rt ''q'' ''available'' 5 ''b'' sample_env sample_db"
  have eq: "{j_id r | r. r \<in> set (jobs sample_db) \<and> list_cond ''q'' ''available'' ''b'' r} = {''a''}"
    by (auto simp: sample_jobs list_cond_def intro!: exI [of _ "sample_job ''a'' Available"])
  have one: "length (projr (fst ?call)) = 1" by code_simp
  obtain ps where ps: "fst ?call = Inr ps"
    "length ps < 5 \<longrightarrow> set (map p_id ps) = {j_id r | r. r \<in> set (jobs sample_db) \<and> list_cond ''q'' ''available'' ''b'' r}"
    using svc_list_newest [of "pg_driver sample_pg" sample_env sample_db 5 sample_rt "''q''" "''available''" "''b''"]
      sample_ids_ok by (simp only: is_backend_intros sample_env_simps if_False if_True) auto
  with one eq have "set (map p_id ps) = {''a''}" by simp
  with ps(1) show ?thesis by blast
qed

text \<open>C16. A client that reads page after page of \<open>ListJobs\<close>, each after the last id of the one
  before, sees, while the table does not change, every job of the queue and status exactly once,
  newest id first, for any page size; as many requests as there are jobs are enough.\<close>

theorem list_paging_complete:
  assumes "is_backend D" and "fault c 0 = None" and "0 < lim" and "ids_ok (jobs s)"
    and "\<forall>r \<in> set (jobs s). j_id r \<noteq> []" and "length (jobs s) \<le> n"
  shows "map p_id (read_pages n (\<lambda>a. projr (fst (svc_ListJobs D rt q st lim a c s))) [])
    = rev (sort (map j_id (filter (list_cond q st []) (jobs s))))"
proof -
  have "map p_id (read_pages n (\<lambda>a. projr (fst (svc_ListJobs D rt q st lim a c s))) [])
      = map j_id (matching_desc q st (jobs s))"
    using assms(1) pgr.svc_list_pages [OF assms(2-6)] sqliter.svc_list_pages [OF assms(2-6)]
    by (auto elim!: is_backendE simp: rowToProto_def pgr.view_id sqliter.view_id)
  also have "\<dots> = rev (sort (map j_id (filter (list_cond q st []) (jobs s))))"
    by (simp add: matching_desc_def rev_map sort_key_map [of "\<lambda>x. x" j_id])
  finally show ?thesis .
qed

lemma list_paging_complete_witness:
  "map p_id (read_pages 4 (\<lambda>a. projr (fst (svc_ListJobs (sqlite_driver sample_sqlite) sample_rt ''q'' [] 2 a
     sample_env sample_db))) []) = [''r'', ''d'', ''b'', ''a'']"
proof -
  have "map p_id (read_pages 4 (\<lambda>a. projr (fst (svc_ListJobs (sqlite_driver sample_sqlite) sample_rt ''q'' [] 2 a
     sample_env sample_db))) []) = rev (sort (map j_id (filter (list_cond ''q'' [] []) (jobs sample_db))))"
    by (rule list_paging_complete) (use sample_ids_ok in \<open>simp_all add: sample_jobs\<close>)
  also have "\<dots> = [''r'', ''d'', ''b'', ''a'']" by code_simp
  finally show ?thesis .
qed

subsection \<open>Queues\<close>

text \<open>What \<open>ListQueues\<close> and \<open>GetQueue\<close> report of one queue.\<close>

definition reports :: "database \<Rightarrow> proto_queue \<Rightarrow> bool" where
  "reports s p \<longleftrightarrow>
     pq_paused p = pg_paused (pq_name p) (queues s)
     \<and> pq_stats p = countsToStats (group_count (\<lambda>r. status_name (j_status r))
         (filter (\<lambda>r. j_queue r = pq_name p) (jobs s)))"

lemma paused_lookup:
  assumes "distinct (map q_name qs)"
  shows "pg_paused name qs = (case find_key q_name name qs of None \<Rightarrow> False | Some q \<Rightarrow> q_paused_at q \<noteq> None)"
proof (cases "find_key q_name name qs")
  case None
  then have "\<not> pg_paused name qs" by (auto simp: pg_paused_def find_key_None)
  with None show ?thesis by simp
next
  case (Some q)
  then have q: "q \<in> set qs" "q_name q = name" using find_key_Some by metis+
  have u: "x = q" if "x \<in> set qs" "q_name x = name" for x
    using find_key_unique [OF assms that(1)] Some that(2) by simp
  have "pg_paused name qs \<longleftrightarrow> q_paused_at q \<noteq> None"
    unfolding pg_paused_def using q u by blast
  with Some show ?thesis by simp
qed

lemma fill_counts_rows:
  "(\<forall>i. fault c i = None) \<Longrightarrow> fill_counts c n xs qs
     = Inr (map (\<lambda>q. \<lparr>qs_Name = q_name q, qs_Paused = (q_paused_at q \<noteq> None),
                      qs_CountsByStatus = queue_counts (q_name q) xs\<rparr>) qs)"
  by (induction qs arbitrary: n) simp_all

lemma sq_fill_counts_same: "sq_fill_counts c n xs qs = fill_counts c n xs qs"
  by (induction qs arbitrary: n) (simp_all add: sq_queue_counts_def queue_counts_def split: option.split sum.split)

lemma list_queues_same: "sq_ListQueues = pg_ListQueues" "sq_QueueInfo = pg_QueueInfo"
  by (intro ext; simp add: sq_ListQueues_def pg_ListQueues_def sq_fill_counts_same sq_QueueInfo_def
      pg_QueueInfo_def sq_queue_counts_def queue_counts_def split: option.split)+

text \<open>C29. When the statements run, both queue listings tell the same on either backend: one entry
  per queue, in the order of their names, each with the flag that a claim obeys and counters of
  its jobs by status that add up to all its jobs.\<close>

theorem queue_reports:
  assumes "is_backend D" and "\<forall>i. fault c i = None" and "distinct (map q_name (queues s))"
  shows "\<exists>ps. fst (svc_ListQueues D c s) = Inr ps \<and> map pq_name ps = sort (map q_name (queues s))
    \<and> (\<forall>p \<in> set ps. reports s p \<and> fst (svc_GetQueue D (pq_name p) c s) = Inr p
         \<and> stats_total (pq_stats p) = length (filter (\<lambda>r. j_queue r = pq_name p) (jobs s)))"
proof -
  let ?f = "\<lambda>q. \<lparr>pq_name = q_name q, pq_paused = (q_paused_at q \<noteq> None),
    pq_stats = countsToStats (queue_counts (q_name q) (jobs s))\<rparr>"
  let ?ps = "map ?f (sort_key q_name (queues s))"
  have d: "d_ListQueues D = pg_ListQueues" "d_QueueInfo D = pg_QueueInfo"
    using assms(1) by (auto elim!: is_backendE simp: sqlite_driver_simps pg_driver_simps list_queues_same)
  have list: "fst (svc_ListQueues D c s) = Inr ?ps"
    using assms(2) by (simp add: svc_ListQueues_def d pg_ListQueues_def fill_counts_rows
        summary_to_queue_def comp_def)
  have names: "map pq_name ?ps = sort (map q_name (queues s))"
    by (simp add: comp_def sort_key_map [of "\<lambda>x. x" q_name])
  have one: "reports s (?f q) \<and> fst (svc_GetQueue D (q_name q) c s) = Inr (?f q)
      \<and> stats_total (pq_stats (?f q)) = length (filter (\<lambda>r. j_queue r = q_name q) (jobs s))"
    if "q \<in> set (queues s)" for q
  proof -
    have "find_key q_name (q_name q) (queues s) = Some q"
      using assms(3) that by (rule find_key_unique)
    then show ?thesis
      using assms(2) paused_lookup [OF assms(3), of "q_name q"]
      by (simp add: reports_def svc_GetQueue_def d pg_QueueInfo_def queue_counts_def stats_total_group)
  qed
  from one have "\<forall>p \<in> set ?ps. reports s p \<and> fst (svc_GetQueue D (pq_name p) c s) = Inr p
      \<and> stats_total (pq_stats p) = length (filter (\<lambda>r. j_queue r = pq_name p) (jobs s))"
    by auto
  with list names show ?thesis by (intro exI [of _ ?ps] conjI)
qed

lemma queue_reports_witness:
  "\<exists>ps. fst (svc_ListQueues (pg_driver sample_pg) sample_env sample_db) = Inr ps
     \<and> map pq_name ps = [''q'']"
  using queue_reports [of "pg_driver sample_pg" sample_env sample_db]
  by (auto simp: sample_db_def)

end
