(* ===== verification/Json_Text_Props.thy ===== *)
theory Json_Text_Props
  imports Json_Text
begin

text \<open>
  What is printed can be read: the printer and the reader of \<open>Json_Text\<close> agree, for every layout
  that only adds white space, and a document decoded into an \<open>any\<close> keeps its members.
\<close>

subsection \<open>What is printed can be read\<close>

fun json_depth :: "json \<Rightarrow> nat" where
  "json_depth (JArr vs) = Suc (foldr (\<lambda>v m. max (json_depth v) m) vs 0)"
| "json_depth (JObj fs) = Suc (foldr (\<lambda>f m. max (json_depth (snd f)) m) fs 0)"
| "json_depth _ = 0"

text \<open>A literal that is a number but no integer.\<close>

definition frac_literal :: "string \<Rightarrow> bool" where
  "frac_literal l \<longleftrightarrow> read_number (map of_char l) = Some (JFrac l, [])"

fun printable :: "json \<Rightarrow> bool" where
  "printable (JFrac l) = frac_literal l"
| "printable (JStr s) = valid_utf8 s"
| "printable (JArr vs) = list_all printable vs"
| "printable (JObj fs) = list_all (\<lambda>f. valid_utf8 (fst f) \<and> printable (snd f)) fs"
| "printable _ = True"

definition ws_layout :: "layout \<Rightarrow> bool" where
  "ws_layout L \<longleftrightarrow> (\<forall>i. list_all is_ws (line_start L i)) \<and> list_all is_ws (after_colon L)"

lemma ws_layouts [simp]: "ws_layout compact" "ws_layout indented"
  by (simp_all add: ws_layout_def compact_def indented_def is_ws_def list_all_iff)

lemma skip_ws_append [simp]: "list_all is_ws ws \<Longrightarrow> skip_ws (ws @ rs) = skip_ws rs"
  by (induction ws) (simp_all add: skip_ws_def)

lemma skip_ws_Cons: "\<not> is_ws r \<Longrightarrow> skip_ws (r # rs) = r # rs"
  by (simp add: skip_ws_def)

lemma ws_layoutD [simp]: "ws_layout L \<Longrightarrow> list_all is_ws (line_start L i)" "ws_layout L \<Longrightarrow> list_all is_ws (after_colon L)"
  by (simp_all add: ws_layout_def)

text \<open>What cannot continue a number.\<close>

definition stops :: "nat list \<Rightarrow> bool" where
  "stops rs \<longleftrightarrow> (case rs of [] \<Rightarrow> True | r # _ \<Rightarrow> \<not> digit_rune r \<and> r \<noteq> 46 \<and> r \<noteq> 101 \<and> r \<noteq> 69)"

lemma stops_Cons: "stops (r # rs) \<longleftrightarrow> \<not> digit_rune r \<and> r \<noteq> 46 \<and> r \<noteq> 101 \<and> r \<noteq> 69"
  by (simp add: stops_def)

lemma stops_Nil [simp]: "stops []"
  by (simp add: stops_def)

lemma stops_append: "stops rs \<Longrightarrow> xs = [] \<or> stops xs \<Longrightarrow> stops (xs @ rs)"
  by (cases xs) (simp_all add: stops_def)

lemma is_ws_stops: "list_all is_ws ws \<Longrightarrow> stops ws"
  by (cases ws) (auto simp: stops_def is_ws_def digit_rune_def)

lemma span_digits_append:
  assumes "stops rest" and "span_digits rs = (ds, t)"
  shows "span_digits (rs @ rest) = (ds, t @ rest)"
proof -
  have r: "takeWhile digit_rune rest = []" "dropWhile digit_rune rest = rest"
    using assms(1) by (cases rest; simp add: stops_def)+
  show ?thesis
  proof (cases "\<forall>x \<in> set rs. digit_rune x")
    case True
    then have "takeWhile digit_rune rs = rs" and "dropWhile digit_rune rs = []"
      by (simp_all add: takeWhile_eq_all_conv dropWhile_eq_Nil_conv)
    with True assms(2) r show ?thesis
      by (auto simp: span_digits_def takeWhile_append dropWhile_append)
  next
    case False
    with assms(2) show ?thesis
      by (auto simp: span_digits_def takeWhile_append dropWhile_append)
  qed
qed

lemma read_frac_append:
  assumes "stops rest" and "read_frac rs = Some (fp, t)"
  shows "read_frac (rs @ rest) = Some (fp, t @ rest)"
proof (cases rs)
  case Nil
  with assms show ?thesis by (cases rest) (auto simp: read_frac_def stops_def)
next
  case (Cons r u)
  obtain ds w where "span_digits u = (ds, w)" by (cases "span_digits u")
  with Cons assms span_digits_append [OF assms(1), of u] show ?thesis
    by (auto simp: read_frac_def split: if_splits)
qed

lemma read_sign_append: "rs \<noteq> [] \<Longrightarrow> read_sign rs = (sg, t) \<Longrightarrow> read_sign (rs @ rest) = (sg, t @ rest)"
  by (cases rs) (auto simp: read_sign_def split: if_splits)

lemma read_exp_append:
  assumes "stops rest" and "read_exp rs = Some (ep, t)"
  shows "read_exp (rs @ rest) = Some (ep, t @ rest)"
proof (cases rs)
  case Nil
  with assms show ?thesis by (cases rest) (auto simp: read_exp_def stops_def)
next
  case (Cons r u)
  show ?thesis
  proof (cases "r = 101 \<or> r = 69")
    case True
    obtain sg v where sv: "read_sign u = (sg, v)" by (cases "read_sign u")
    obtain ds w where dw: "span_digits v = (ds, w)" by (cases "span_digits v")
    from True Cons assms(2) sv dw have "ds \<noteq> []" and t: "ep = r # sg @ ds" "t = w"
      by (auto simp: read_exp_def split: if_splits)
    then have "u \<noteq> []" using sv dw by (auto simp: read_sign_def span_digits_def)
    with True Cons sv dw \<open>ds \<noteq> []\<close> t span_digits_append [OF assms(1) dw] read_sign_append [OF _ sv]
    show ?thesis by (auto simp: read_exp_def)
  next
    case False
    with Cons assms show ?thesis by (auto simp: read_exp_def)
  qed
qed

lemma read_minus_append: "rs \<noteq> [] \<Longrightarrow> read_minus rs = (neg, t) \<Longrightarrow> read_minus (rs @ rest) = (neg, t @ rest)"
  by (cases rs) (auto simp: read_minus_def split: if_splits)

lemma read_number_append:
  assumes "stops rest" and "read_number rs = Some (v, t)"
  shows "read_number (rs @ rest) = Some (v, t @ rest)"
proof -
  obtain neg r1 where m: "read_minus rs = (neg, r1)" by (cases "read_minus rs")
  obtain ip r2 where i: "span_digits r1 = (ip, r2)" by (cases "span_digits r1")
  from assms(2) m i obtain fp r3 ep r4 where
    ok: "\<not> (ip = [] \<or> hd ip = 48 \<and> tl ip \<noteq> [])" and f: "read_frac r2 = Some (fp, r3)"
    and e: "read_exp r3 = Some (ep, r4)"
    by (auto simp: read_number_def split: if_splits option.splits)
  have "rs \<noteq> []" using m i ok by (auto simp: read_minus_def span_digits_def)
  from read_minus_append [OF this m] span_digits_append [OF assms(1) i]
    read_frac_append [OF assms(1) f] read_exp_append [OF assms(1) e] assms(2) m i ok f e
  show ?thesis by (auto simp: read_number_def)
qed

lemma show_nat_head: "hd (show_nat n) = CHR ''0'' \<longleftrightarrow> n = 0"
proof (induction n rule: show_nat.induct)
  case (1 n)
  show ?case
  proof (cases "n < 10")
    case True
    have "char_of (48 + n) = CHR ''0'' \<longleftrightarrow> n = 0"
    proof
      assume "char_of (48 + n) = CHR ''0''"
      then have "of_char (char_of (48 + n)) = (of_char CHR ''0'' :: nat)" by simp
      then show "n = 0" using True by (simp add: of_char_digit del: of_char_of)
    qed (simp add: char_of_def bit_0)
    with True show ?thesis by (simp add: show_nat.simps [of n])
  next
    case False
    then have "hd (show_nat n) = hd (show_nat (n div 10))" by (simp add: show_nat.simps [of n])
    with False 1 show ?thesis by simp
  qed
qed

lemma digits_span: "stops rest \<Longrightarrow> span_digits (map of_char (show_nat n) @ rest) = (map of_char (show_nat n), rest)"
proof -
  assume s: "stops rest"
  have "\<forall>r \<in> set (map of_char (show_nat n)). digit_rune r"
    using show_nat_digits by (fastforce simp: digit_rune_def)
  then have "span_digits (map of_char (show_nat n)) = (map of_char (show_nat n), [])"
    unfolding span_digits_def by (simp add: takeWhile_eq_all_conv dropWhile_eq_Nil_conv)
  from span_digits_append [OF s this] show ?thesis by simp
qed

lemma ascii_of_char [simp]: "ascii (map of_char s) = s"
  by (simp add: ascii_def comp_def)

lemma read_int: "stops rest \<Longrightarrow> read_number (int_runes k @ rest) = Some (JInt k, rest)"
proof -
  assume s: "stops rest"
  let ?n = "if k < 0 then nat (- k) else nat k" and ?ds = "\<lambda>n. map of_char (show_nat n) :: nat list"
  have d: "hd (?ds n) = 48 \<longleftrightarrow> n = 0" for n
  proof -
    have "hd (?ds n) = of_char (hd (show_nat n))" by (simp add: hd_map)
    also have "\<dots> = 48 \<longleftrightarrow> hd (show_nat n) = CHR ''0''"
      using of_char_eq_iff [of "hd (show_nat n)" "CHR ''0''", where ?'a = nat] by simp
    finally show ?thesis by (simp add: show_nat_head)
  qed
  have z: "?ds 0 = [48]" by (subst show_nat.simps) simp
  have ok: "\<not> (?ds n = [] \<or> hd (?ds n) = 48 \<and> tl (?ds n) \<noteq> [])" for n
    using d [of n] z by (cases "n = 0") auto
  have nz: "n \<noteq> 0 \<Longrightarrow> ?ds n \<noteq> [48]" for n using d [of n] by auto
  have f: "read_frac rest = Some ([], rest)" "read_exp rest = Some ([], rest)"
    using s by (cases rest; simp add: read_frac_def read_exp_def stops_def)+
  have m: "read_minus (int_runes k @ rest) = (k < 0, ?ds ?n @ rest)"
  proof (cases "k < 0")
    case False
    obtain c cs where c: "show_nat (nat k) = c # cs" by (cases "show_nat (nat k)") simp_all
    then have "of_char c \<noteq> (45 :: nat)" using show_nat_digits [of c "nat k"] by auto
    with False c show ?thesis by (simp add: int_runes_def read_minus_def)
  qed (simp add: int_runes_def read_minus_def)
  show ?thesis
  proof (cases "k < 0")
    case True
    then have "?n = nat (- k)" and "nat (- k) \<noteq> 0" by simp_all
    with ok [of "nat (- k)"] nz [of "nat (- k)"] True m show ?thesis
      by (simp add: read_number_def digits_span [OF s] f)
  next
    case False
    with ok [of "nat k"] m show ?thesis
      by (simp add: read_number_def digits_span [OF s] f)
  qed
qed

lemma hex_rune_digit: "n < 16 \<Longrightarrow> hex_digit (hex_rune n) = Some n"
  by (auto simp: hex_rune_def)

lemma read_lit_plain: "r \<noteq> 34 \<Longrightarrow> r \<noteq> 92 \<Longrightarrow> 32 \<le> r \<Longrightarrow>
   read_lit (r # rest) = map_option (\<lambda>(a, b). (r # a, b)) (read_lit rest)"
  by (simp add: read_lit.simps(2))

lemma read_lit_u:
  "hex_digit a = Some w \<Longrightarrow> hex_digit b = Some x \<Longrightarrow> hex_digit c = Some y \<Longrightarrow> hex_digit d = Some z \<Longrightarrow>
     w * 4096 + x * 256 + y * 16 + z < 0xD800 \<or> 0xE000 \<le> w * 4096 + x * 256 + y * 16 + z \<Longrightarrow>
   read_lit (92 # 117 # a # b # c # d # rest)
     = map_option (\<lambda>(s, t). ((w * 4096 + x * 256 + y * 16 + z) # s, t)) (read_lit rest)"
  by (auto simp: read_lit.simps(2) read_u_def simp del: hex_digit.simps)

lemma read_lit_go_esc:
  "read_lit (go_esc r @ rest) = map_option (\<lambda>(a, b). (r # a, b)) (read_lit rest)"
proof -
  consider (short) "r \<in> {34, 92, 8, 12, 10, 13, 9}"
    | (hex) "r \<notin> {34, 92, 8, 12, 10, 13, 9}" "r < 32 \<or> r = 60 \<or> r = 62 \<or> r = 38"
    | (sep) "r = 0x2028 \<or> r = 0x2029"
    | (plain) "r \<notin> {34, 92, 8, 12, 10, 13, 9}" "\<not> (r < 32 \<or> r = 60 \<or> r = 62 \<or> r = 38)" "r \<noteq> 0x2028" "r \<noteq> 0x2029"
    by blast
  then show ?thesis
  proof cases
    case short
    then show ?thesis by (auto simp: go_esc_def read_lit.simps(2))
  next
    case hex
    have "r div 16 < 16" and "r mod 16 < 16" and "r = r div 16 * 16 + r mod 16" and "r < 256"
      using hex by auto
    moreover have "hex_digit 48 = Some 0" by simp
    ultimately have "read_lit (92 # 117 # 48 # 48 # hex_rune (r div 16) # hex_rune (r mod 16) # rest)
        = map_option (\<lambda>(s, t). (r # s, t)) (read_lit rest)"
      by (subst read_lit_u [OF _ _ hex_rune_digit hex_rune_digit]) (auto simp del: hex_digit.simps)
    with hex show ?thesis by (simp add: go_esc_def)
  next
    case sep
    have h: "hex_digit 50 = Some 2" "hex_digit 48 = Some 0" "hex_digit 56 = Some 8" "hex_digit 57 = Some 9"
      by simp_all
    from read_lit_u [OF h(1,2,1,3)] read_lit_u [OF h(1,2,1,4)]
    have "read_lit (92 # 117 # 50 # 48 # 50 # 56 # rest) = map_option (\<lambda>(s, t). (0x2028 # s, t)) (read_lit rest)"
      "read_lit (92 # 117 # 50 # 48 # 50 # 57 # rest) = map_option (\<lambda>(s, t). (0x2029 # s, t)) (read_lit rest)"
      by simp_all
    with sep show ?thesis by (auto simp: go_esc_def)
  next
    case plain
    then show ?thesis by (auto simp: go_esc_def read_lit_plain)
  qed
qed

lemma read_lit_fffd:
  "read_lit ([92, 117, 102, 102, 102, 100] @ rest) = map_option (\<lambda>(a, b). (rune_error # a, b)) (read_lit rest)"
proof -
  have "hex_digit 102 = Some 15" "hex_digit 100 = Some 13" by simp_all
  then show ?thesis by (simp only: append_Cons append_Nil) (subst read_lit_u, assumption+, simp_all add: rune_error_def)
qed

lemma read_esc_string: "read_lit (esc_string s @ 34 # rest) = Some (runes s, rest)"
proof (induction s rule: esc_string.induct)
  case 1
  then show ?case by (simp add: read_lit.simps(2))
next
  case (2 c s)
  show ?case
  proof (cases "decode_rune (c # s) = (rune_error, 1)")
    case True
    with 2 show ?thesis
      by (simp add: esc_string.simps(2) runes.simps(2) read_lit_fffd [simplified] del: decode_rune.simps)
  next
    case False
    with 2 show ?thesis
      by (simp add: esc_string.simps(2) runes.simps(2) read_lit_go_esc del: decode_rune.simps)
  qed
qed

lemma print_nonempty: "print_value L i v \<noteq> []" if "printable v"
proof (cases v)
  case (JInt k)
  then show ?thesis by (simp add: int_runes_def)
next
  case (JFrac l)
  with that have "l \<noteq> []" by (auto simp: frac_literal_def read_number_def read_minus_def span_digits_def)
  with JFrac show ?thesis by simp
qed (simp_all add: quoted_def)

lemma number_head:
  assumes "read_number (r # t) = Some x"
  shows "digit_rune r \<or> r = 45"
proof (rule ccontr)
  assume "\<not> ?thesis"
  then have "read_number (r # t) = None" by (simp add: read_number_def read_minus_def span_digits_def)
  with assms show False by simp
qed

lemma read_value_number:
  assumes "read_number rs = Some x" and "list_all is_ws ws"
  shows "read_value (Suc n) d (ws @ rs) = Some x"
proof (cases rs)
  case Nil
  with assms show ?thesis by (simp add: read_number_def read_minus_def span_digits_def)
next
  case (Cons r t)
  with assms number_head have r: "digit_rune r \<or> r = 45" by blast
  then have "\<not> is_ws r" by (auto simp: digit_rune_def is_ws_def)
  with Cons r assms show ?thesis
    by (auto simp: skip_ws_Cons digit_rune_def)
qed

lemma foldr_max_le: "foldr (\<lambda>v m. max (f v) m) vs (0 :: nat) \<le> d \<longleftrightarrow> (\<forall>v \<in> set vs. f v \<le> d)"
  by (induction vs) auto

lemma print_head:
  assumes "printable v"
  obtains r t where "print_value L i v = r # t" and "\<not> is_ws r" and "r \<noteq> 93"
proof -
  have num: "\<exists>r t. x = r # t \<and> \<not> is_ws r \<and> r \<noteq> 93" if "read_number x = Some y" for x y
  proof (cases x)
    case Nil
    with that show ?thesis by (simp add: read_number_def read_minus_def span_digits_def)
  next
    case (Cons r t)
    with that number_head have "digit_rune r \<or> r = 45" by blast
    with Cons show ?thesis by (auto simp: digit_rune_def is_ws_def)
  qed
  have "\<exists>r t. print_value L i v = r # t \<and> \<not> is_ws r \<and> r \<noteq> 93"
  proof (cases v)
    case (JInt k)
    with num [OF read_int [OF stops_Nil, of k, simplified]] show ?thesis by simp
  next
    case (JFrac l)
    with assms num [of "map of_char l"] show ?thesis by (auto simp: frac_literal_def)
  qed (simp_all add: quoted_def is_ws_def)
  with that show ?thesis by blast
qed

lemma not_ws: "\<not> is_ws 110" "\<not> is_ws 116" "\<not> is_ws 102" "\<not> is_ws 34" "\<not> is_ws 91" "\<not> is_ws 123"
  "\<not> is_ws 93" "\<not> is_ws 125" "\<not> is_ws 44" "\<not> is_ws 58"
  by (simp_all add: is_ws_def)

text \<open>The value, elements and members in one induction; before a value there may be white space.\<close>

lemma read_print:
  shows "ws_layout L \<Longrightarrow> printable v \<Longrightarrow> json_depth v \<le> d \<Longrightarrow> length (print_value L i v) \<le> n \<Longrightarrow>
      stops rest \<Longrightarrow> list_all is_ws ws \<Longrightarrow>
      read_value n d (ws @ print_value L i v @ rest) = Some (v, rest)"
    and "ws_layout L \<Longrightarrow> vs \<noteq> [] \<Longrightarrow> list_all printable vs \<Longrightarrow> \<forall>v \<in> set vs. json_depth v \<le> d \<Longrightarrow>
      length (print_elems L i vs) < n \<Longrightarrow> list_all is_ws ws \<Longrightarrow>
      read_elems n d (print_elems L i vs @ ws @ 93 # rest) = Some (vs, rest)"
    and "ws_layout L \<Longrightarrow> fs \<noteq> [] \<Longrightarrow> list_all (\<lambda>f. valid_utf8 (fst f) \<and> printable (snd f)) fs \<Longrightarrow>
      \<forall>f \<in> set fs. json_depth (snd f) \<le> d \<Longrightarrow> length (print_members L i fs) < n \<Longrightarrow> list_all is_ws ws \<Longrightarrow>
      read_members n d (print_members L i fs @ ws @ 125 # rest) = Some (fs, rest)"
proof (induction L i v and L i vs and L i fs arbitrary: d n rest ws and d n rest ws and d n rest ws
    rule: print_value_print_elems_print_members.induct)
  case (1 L i)
  then obtain m where "n = Suc m" by (cases n) auto
  with 1 show ?case by (simp add: skip_ws_Cons not_ws read_word_def)
next
  case (2 L i b)
  then obtain m where "n = Suc m" by (cases n) (auto split: if_splits)
  with 2 show ?case by (simp add: skip_ws_Cons not_ws read_word_def)
next
  case (3 L i k)
  then obtain m where "n = Suc m" by (cases n) (auto simp: int_runes_def split: if_splits)
  with 3 show ?case by (simp add: read_value_number read_int del: read_value.simps)
next
  case (4 L i l)
  then have l: "read_number (map of_char l) = Some (JFrac l, [])" by (simp add: frac_literal_def)
  then have "l \<noteq> []" by (auto simp: read_number_def read_minus_def span_digits_def)
  with 4 obtain m where n: "n = Suc m" by (cases n) auto
  have "read_number (map of_char l @ rest) = Some (JFrac l, rest)"
    using read_number_append [OF 4(5) l] by simp
  with 4 n show ?case by (simp add: read_value_number del: read_value.simps)
next
  case (5 L i s)
  then obtain m where "n = Suc m" by (cases n) (auto simp: quoted_def)
  with 5 show ?case
    by (simp add: quoted_def skip_ws_Cons not_ws read_esc_string valid_utf8_def)
next
  case (6 L i vs)
  then obtain m where n: "n = Suc m" by (cases n) (auto split: if_splits)
  from 6 obtain e where d: "d = Suc e" by (cases d) auto
  show ?case
  proof (cases vs)
    case Nil
    with 6 n d show ?thesis by (simp add: skip_ws_Cons not_ws)
  next
    case (Cons v us)
    then have "printable v" using 6 by simp
    then obtain r t where rt: "print_value L (Suc i) v = r # t" "\<not> is_ws r" "r \<noteq> 93"
      by (rule print_head)
    have depth: "\<forall>v \<in> set vs. json_depth v \<le> e" using 6 d by (simp add: foldr_max_le)
    have "read_elems m e (print_elems L (Suc i) vs @ line_start L i @ 93 # rest) = Some (vs, rest)"
      by (rule "6.IH") (use 6 Cons n depth in \<open>simp_all split: if_splits\<close>)
    moreover have "\<exists>w. skip_ws (print_elems L (Suc i) vs @ line_start L i @ 93 # rest) = r # w"
      using Cons rt 6 by (simp add: skip_ws_Cons)
    ultimately show ?thesis using 6 n d Cons rt by (auto simp: skip_ws_Cons not_ws)
  qed
next
  case (7 L i fs)
  then obtain m where n: "n = Suc m" by (cases n) (auto split: if_splits)
  from 7 obtain e where d: "d = Suc e" by (cases d) auto
  show ?case
  proof (cases fs)
    case Nil
    with 7 n d show ?thesis by (simp add: skip_ws_Cons not_ws)
  next
    case (Cons f gs)
    obtain k v where f: "f = (k, v)" by (cases f)
    have depth: "\<forall>f \<in> set fs. json_depth (snd f) \<le> e" using 7 d by (simp add: foldr_max_le)
    have "read_members m e (print_members L (Suc i) fs @ line_start L i @ 125 # rest) = Some (fs, rest)"
      by (rule "7.IH") (use 7 Cons n depth in \<open>simp_all split: if_splits\<close>)
    moreover have "\<exists>w. skip_ws (print_members L (Suc i) fs @ line_start L i @ 125 # rest) = 34 # w"
      using Cons f 7 by (simp add: skip_ws_Cons quoted_def is_ws_def)
    ultimately show ?thesis using 7 n d Cons by (auto simp: skip_ws_Cons not_ws)
  qed
next
  case (8 L i)
  then show ?case by simp
next
  case (9 L i v us)
  then obtain m where n: "n = Suc m" by (cases n) auto
  have pv: "printable v" and dv: "json_depth v \<le> d" using 9 by simp_all
  show ?case
  proof (cases us)
    case Nil
    have "stops (ws @ 93 # rest)"
      using 9 is_ws_stops [of ws] by (cases ws) (simp_all add: stops_Cons digit_rune_def)
    with 9 n Nil pv dv have "read_value m d (line_start L i @ print_value L i v @ ws @ 93 # rest) = Some (v, ws @ 93 # rest)"
      by (intro "9.IH"(1)) simp_all
    with 9 n Nil show ?thesis by (simp add: skip_ws_Cons not_ws)
  next
    case (Cons u us')
    let ?t = "print_elems L i us @ ws @ 93 # rest"
    have "stops (44 # ?t)" by (simp add: stops_Cons digit_rune_def)
    with 9 n Cons pv dv have "read_value m d (line_start L i @ print_value L i v @ 44 # ?t) = Some (v, 44 # ?t)"
      by (intro "9.IH"(1)) simp_all
    moreover have "read_elems m d ?t = Some (us, rest)"
      by (rule "9.IH"(2)) (use 9 n Cons in simp_all)
    ultimately show ?thesis using Cons n by (simp add: skip_ws_Cons not_ws)
  qed
next
  case (10 L i)
  then show ?case by simp
next
  case (11 L i k v gs)
  then obtain m where n: "n = Suc m" by (cases n) auto
  have pv: "printable v" and dv: "json_depth v \<le> d" and k: "encode_runes (runes k) = k"
    using 11 by (simp_all add: valid_utf8_def)
  show ?case
  proof (cases gs)
    case Nil
    have "stops (ws @ 125 # rest)"
      using 11 is_ws_stops [of ws] by (cases ws) (simp_all add: stops_Cons digit_rune_def)
    with 11 n Nil pv dv have "read_value m d (after_colon L @ print_value L i v @ ws @ 125 # rest) = Some (v, ws @ 125 # rest)"
      by (intro "11.IH"(1)) (simp_all add: quoted_def)
    with 11 n Nil k show ?thesis by (simp add: quoted_def skip_ws_Cons not_ws read_esc_string)
  next
    case (Cons g gs')
    let ?t = "print_members L i gs @ ws @ 125 # rest"
    have "stops (44 # ?t)" by (simp add: stops_Cons digit_rune_def)
    with 11 n Cons pv dv have "read_value m d (after_colon L @ print_value L i v @ 44 # ?t) = Some (v, 44 # ?t)"
      by (intro "11.IH"(1)) (simp_all add: quoted_def)
    moreover have "read_members m d ?t = Some (gs, rest)"
      by (rule "11.IH"(2)) (use 11 n Cons in \<open>simp_all add: quoted_def\<close>)
    ultimately show ?thesis using 11 Cons n k by (simp add: quoted_def skip_ws_Cons not_ws read_esc_string)
  qed
qed

lemma read_elems_print:
  "ws_layout L \<Longrightarrow> printable v \<Longrightarrow> json_depth v \<le> d \<Longrightarrow> length (print_value L i v) \<le> n \<Longrightarrow> stops rest \<Longrightarrow>
     read_value n d (print_value L i v @ rest) = Some (v, rest)"
  using read_print(1) [of L v d i n rest "[]"] by simp

lemma hex_rune_small: "n < 16 \<Longrightarrow> hex_rune n < 128"
  by (simp add: hex_rune_def)

lemma go_esc_runes: "u \<in> set (go_esc r) \<Longrightarrow> u = r \<or> u < 128"
proof (cases "r \<notin> {34, 92, 8, 12, 10, 13, 9} \<and> (r < 32 \<or> r = 60 \<or> r = 62 \<or> r = 38)")
  case True
  then have "r div 16 < 16" and "r mod 16 < 16" by auto
  from this [THEN hex_rune_small] True show "u \<in> set (go_esc r) \<Longrightarrow> u = r \<or> u < 128"
    by (auto simp: go_esc_def)
next
  case False
  then show "u \<in> set (go_esc r) \<Longrightarrow> u = r \<or> u < 128"
    by (auto simp: go_esc_def split: if_splits)
qed

lemma go_esc_valid: "valid_rune r \<Longrightarrow> u \<in> set (go_esc r) \<Longrightarrow> valid_rune u"
  using go_esc_runes by (fastforce simp: valid_rune_def)

lemma esc_string_valid: "u \<in> set (esc_string s) \<Longrightarrow> valid_rune u"
proof (induction s rule: esc_string.induct)
  case (2 c s)
  show ?case
  proof (cases "u \<in> set (esc_string (drop (snd (decode_rune (c # s))) (c # s)))")
    case True
    with "2.IH" show ?thesis by blast
  next
    case False
    with "2.prems" have "u \<in> set (if decode_rune (c # s) = (rune_error, 1) then [92, 117, 102, 102, 102, 100]
        else go_esc (fst (decode_rune (c # s))))"
      unfolding esc_string.simps(2) by (simp del: decode_rune.simps)
    then show ?thesis
      using go_esc_valid [OF decode_rune_valid [of "c # s"]]
      by (auto simp: valid_rune_def simp del: decode_rune.simps split: if_splits)
  qed
qed simp

lemma quoted_valid: "u \<in> set (quoted s) \<Longrightarrow> valid_rune u"
  using esc_string_valid by (auto simp: quoted_def valid_rune_def)

lemma ascii_valid: "u \<in> of_char ` X \<Longrightarrow> valid_rune u"
proof -
  assume "u \<in> of_char ` X"
  then obtain c where "u = of_char (c :: char)" by blast
  then have "u < 256" by simp
  then show ?thesis by (simp add: valid_rune_def)
qed

lemma is_ws_valid: "list_all is_ws ws \<Longrightarrow> u \<in> set ws \<Longrightarrow> valid_rune u"
  by (auto simp: list_all_iff is_ws_def valid_rune_def)

lemma int_runes_valid: "u \<in> set (int_runes k) \<Longrightarrow> valid_rune u"
  using ascii_valid by (auto simp: int_runes_def valid_rune_def split: if_splits)

lemma print_valid:
  shows "ws_layout L \<Longrightarrow> u \<in> set (print_value L i v) \<Longrightarrow> valid_rune u"
    and "ws_layout L \<Longrightarrow> u \<in> set (print_elems L i vs) \<Longrightarrow> valid_rune u"
    and "ws_layout L \<Longrightarrow> u \<in> set (print_members L i fs) \<Longrightarrow> valid_rune u"
proof (induction L i v and L i vs and L i fs rule: print_value_print_elems_print_members.induct)
  case (3 L i k)
  then show ?case using int_runes_valid by simp
next
  case (4 L i l)
  then show ?case using ascii_valid by simp
next
  case (5 L i s)
  then show ?case using quoted_valid by simp
next
  case (6 L i vs)
  then show ?case using is_ws_valid [OF ws_layoutD(1) [OF 6(2)]]
    by (auto simp: valid_rune_def split: if_splits)
next
  case (7 L i fs)
  then show ?case using is_ws_valid [OF ws_layoutD(1) [OF 7(2)]]
    by (auto simp: valid_rune_def split: if_splits)
next
  case (9 L i v us)
  then have "u \<in> set (line_start L i) \<or> u \<in> set (print_value L i v) \<or> u = 44 \<or> (us \<noteq> [] \<and> u \<in> set (print_elems L i us))"
    by (auto split: if_splits)
  then show ?case
    using "9.IH" 9(3) is_ws_valid [OF ws_layoutD(1) [OF 9(3)]] by (auto simp: valid_rune_def)
next
  case (11 L i k v gs)
  then have "u \<in> set (line_start L i) \<or> u \<in> set (quoted k) \<or> u = 58 \<or> u \<in> set (after_colon L)
      \<or> u \<in> set (print_value L i v) \<or> u = 44 \<or> (gs \<noteq> [] \<and> u \<in> set (print_members L i gs))"
    by (auto split: if_splits)
  moreover have "valid_rune 58" "valid_rune 44" by (simp_all add: valid_rune_def)
  ultimately show ?case
    using "11.IH" 11(3) quoted_valid is_ws_valid [OF ws_layoutD(1) [OF 11(3)]] is_ws_valid [OF ws_layoutD(2) [OF 11(3)]]
    by blast
qed (auto simp: valid_rune_def split: if_splits)

lemma runes_json_text: "ws_layout L \<Longrightarrow> runes (json_text L v) = print_value L 0 v"
  unfolding json_text_def by (rule runes_encode_runes) (rule print_valid(1))

text \<open>A printed document, possibly with a newline after it, is read back as it was.\<close>

lemma read_json_text:
  assumes "ws_layout L" and "printable v" and "json_depth v \<le> 10000"
  shows "read_json (json_text L v) = Some v" and "read_json (json_text L v @ [CHR 0x0A]) = Some v"
    and "read_first (json_text L v @ [CHR 0x0A]) = Some v"
proof -
  have r: "read_value (Suc (length (print_value L 0 v @ rest))) 10000 (print_value L 0 v @ rest) = Some (v, rest)"
    if "stops rest" for rest
    by (rule read_elems_print) (use assms that in simp_all)
  have nl: "encode_runes [10] = [CHR 0x0A]" by (simp add: encode_runes_def encode_rune_def char_of_def bit_0)
  have t: "json_text L v @ [CHR 0x0A] = encode_runes (print_value L 0 v @ [10])"
    by (simp add: encode_runes_append json_text_def nl)
  have rt: "runes (json_text L v @ [CHR 0x0A]) = print_value L 0 v @ [10]"
    unfolding t by (rule runes_encode_runes) (use print_valid(1) [OF assms(1)] in \<open>auto simp: valid_rune_def\<close>)
  have ws: "skip_ws [10] = []" "skip_ws [] = []" by (simp_all add: skip_ws_def is_ws_def)
  have st: "stops [10]" by (simp add: stops_def digit_rune_def)
  show "read_json (json_text L v) = Some v"
    using r [of "[]"] assms(1) by (simp add: read_json_def runes_json_text ws del: read_value.simps)
  show "read_json (json_text L v @ [CHR 0x0A]) = Some v" "read_first (json_text L v @ [CHR 0x0A]) = Some v"
    using r [OF st] by (simp_all add: read_json_def read_first_def rt ws del: read_value.simps)
qed

subsection \<open>Documents as \<open>any\<close>\<close>

text \<open>Documents that decode to themselves.\<close>

fun canonical :: "json \<Rightarrow> bool" where
  "canonical (JInt k) = (\<bar>k\<bar> \<le> 2 ^ 53)"
| "canonical (JFrac l) = False"
| "canonical (JArr vs) = list_all canonical vs"
| "canonical (JObj fs) = (sorted_wrt (<) (map fst fs) \<and> list_all (\<lambda>f. canonical (snd f)) fs)"
| "canonical _ = True"

lemma put_member_last: "\<forall>f \<in> set fs. fst f < k \<Longrightarrow> put_member k v fs = fs @ [(k, v)]"
  by (induction fs) (auto simp: less_not_sym)

lemma sort_members_sorted:
  assumes "sorted_wrt (<) (map fst fs)"
  shows "sort_members fs = fs"
  using assms
proof (induction fs rule: rev_induct)
  case (snoc f fs)
  then have "sort_members fs = fs" and "\<forall>g \<in> set fs. fst g < fst f" by (auto simp: sorted_wrt_append)
  then show ?case by (simp add: sort_members_def put_member_last)
qed (simp add: sort_members_def)

lemma all_some_id: "\<forall>x \<in> set xs. f x = Some x \<Longrightarrow> all_some (map f xs) = Some xs"
  by (induction xs) simp_all

lemma as_any_canonical: "canonical v \<Longrightarrow> as_any ft v = Some v"
proof (induction v rule: canonical.induct)
  case (3 vs)
  then have "all_some (map (as_any ft) vs) = Some vs" by (intro all_some_id) (simp add: list_all_iff)
  then show ?case by simp
next
  case (4 fs)
  then have "all_some (map (\<lambda>f. map_option (Pair (fst f)) (as_any ft (snd f))) fs) = Some fs"
    by (intro all_some_id) (simp add: list_all_iff)
  with 4 show ?case by (simp add: sort_members_sorted)
qed simp_all

text \<open>What an \<open>any\<close> holds of an object's members.\<close>

lemma map_of_put_member: "map_of (put_member k v fs) = (map_of fs)(k \<mapsto> v)"
  by (induction k v fs rule: put_member.induct) auto

lemma map_of_sort_members: "map_of (sort_members fs) = map_of (rev fs)"
  by (induction fs rule: rev_induct) (simp_all add: sort_members_def map_of_put_member)

lemma put_member_all:
  "P k \<Longrightarrow> \<forall>f \<in> set fs. P (fst f) \<Longrightarrow> \<forall>f \<in> set (put_member k v fs). P (fst f)"
  by (induction k v fs rule: put_member.induct) auto

lemma put_member_sorted: "sorted_wrt (<) (map fst fs) \<Longrightarrow> sorted_wrt (<) (map fst (put_member k v fs))"
proof (induction k v fs rule: put_member.induct)
  case (2 k v k' v' fs)
  then show ?case
    using put_member_all [of "\<lambda>a. k' < a" k fs v] by (auto simp: not_less_iff_gr_or_eq)
qed simp

lemma sort_members_order: "sorted_wrt (<) (map fst (sort_members fs))"
proof (induction fs rule: rev_induct)
  case (snoc f fs)
  then show ?case using put_member_sorted [OF snoc, of "fst f" "snd f"] by (simp add: sort_members_def)
qed (simp add: sort_members_def)

subsection \<open>What decodes can be printed\<close>

text \<open>What Go writes for floats are number literals.\<close>

definition float_texts :: "(string \<Rightarrow> string option) \<Rightarrow> bool" where
  "float_texts ft \<longleftrightarrow> (\<forall>l t. ft l = Some t \<longrightarrow> frac_literal t \<or> (\<exists>k. t = ascii (int_runes k)))"

lemma of_char_ascii: "\<forall>r \<in> set rs. r < 256 \<Longrightarrow> map of_char (ascii rs) = rs"
  by (induction rs) (simp_all add: ascii_def)

lemma int_runes_small: "r \<in> set (int_runes k) \<Longrightarrow> r < 256"
  by (auto simp: int_runes_def split: if_splits)

lemma number_of_text_printable:
  assumes "frac_literal t \<or> (\<exists>k. t = ascii (int_runes k))"
  shows "printable (number_of_text t) \<and> json_depth (number_of_text t) = 0"
  using assms
proof
  assume "frac_literal t"
  then show ?thesis by (simp add: number_of_text_def frac_literal_def)
next
  assume "\<exists>k. t = ascii (int_runes k)"
  then obtain k where "t = ascii (int_runes k)" by blast
  then have "map of_char t = int_runes k" by (simp add: of_char_ascii int_runes_small)
  then show ?thesis using read_int [OF stops_Nil, of k] by (simp add: number_of_text_def)
qed

lemma all_some_member: "all_some (map f xs) = Some ys \<Longrightarrow> y \<in> set ys \<Longrightarrow> \<exists>x \<in> set xs. f x = Some y"
  by (induction xs arbitrary: ys) (auto split: option.splits)

lemma set_sort_members: "set (sort_members fs) \<subseteq> set fs"
proof (induction fs rule: rev_induct)
  case (snoc f fs)
  have "set (put_member k v gs) \<subseteq> insert (k, v) (set gs)" for k v gs
    by (induction k v gs rule: put_member.induct) auto
  from this [of "fst f" "snd f" "sort_members fs"] snoc show ?case
    by (auto simp: sort_members_def)
qed (simp add: sort_members_def)

lemma float_text_printable:
  assumes "float_texts ft" and "map_option number_of_text (ft l) = Some w"
  shows "printable w \<and> json_depth w = 0"
proof -
  from assms(2) obtain t where "ft l = Some t" "w = number_of_text t" by auto
  have "frac_literal t \<or> (\<exists>k. t = ascii (int_runes k))"
    using assms(1) \<open>ft l = Some t\<close> unfolding float_texts_def by blast
  then show ?thesis unfolding \<open>w = number_of_text t\<close> by (rule number_of_text_printable)
qed

lemma le_foldr_max: "v \<in> set vs \<Longrightarrow> f v \<le> foldr (\<lambda>v m. max (f v) m) vs (0 :: nat)"
  using foldr_max_le [of f vs "foldr (\<lambda>v m. max (f v) m) vs 0"] by blast

lemma as_any_printable:
  assumes "float_texts ft"
  shows "printable v \<Longrightarrow> as_any ft v = Some w \<Longrightarrow> printable w \<and> json_depth w \<le> json_depth v"
proof (induction v arbitrary: w rule: printable.induct)
  case (1 l)
  then show ?case using float_text_printable [OF assms, of l w] by simp
next
  case (3 vs)
  from 3(3) obtain ws where w: "w = JArr ws" and ws: "all_some (map (as_any ft) vs) = Some ws" by auto
  have "printable x \<and> json_depth x \<le> foldr (\<lambda>v m. max (json_depth v) m) vs 0" if x: "x \<in> set ws" for x
  proof -
    from all_some_member [OF ws x] obtain v where v: "v \<in> set vs" "as_any ft v = Some x" by blast
    have "printable v" using 3(2) v(1) by (simp add: list_all_iff)
    with 3(1) v have "printable x \<and> json_depth x \<le> json_depth v" by blast
    with le_foldr_max [OF v(1), of json_depth] show ?thesis by linarith
  qed
  with w show ?case by (simp add: list_all_iff foldr_max_le)
next
  case (4 fs)
  from 4(3) obtain gs where w: "w = JObj (sort_members gs)"
    and gs: "all_some (map (\<lambda>f. map_option (Pair (fst f)) (as_any ft (snd f))) fs) = Some gs" by auto
  have "valid_utf8 (fst g) \<and> printable (snd g)
      \<and> json_depth (snd g) \<le> foldr (\<lambda>f m. max (json_depth (snd f)) m) fs 0" if "g \<in> set (sort_members gs)" for g
  proof -
    from that set_sort_members have "g \<in> set gs" by blast
    from all_some_member [OF gs this] obtain f where f: "f \<in> set fs"
      "map_option (Pair (fst f)) (as_any ft (snd f)) = Some g" by blast
    from f(2) obtain x where x: "as_any ft (snd f) = Some x" "g = (fst f, x)" by auto
    have p: "valid_utf8 (fst f)" "printable (snd f)" using 4(2) f(1) by (simp_all add: list_all_iff)
    then have "printable x \<and> json_depth x \<le> json_depth (snd f)" using 4(1) [OF f(1)] x(1) by blast
    with le_foldr_max [OF f(1), of "\<lambda>f. json_depth (snd f)"] x(2) p(1) show ?thesis by simp
  qed
  with w show ?case by (simp add: list_all_iff foldr_max_le)
next
  case "5_3"
  then show ?case using float_text_printable [OF assms] by (auto split: if_splits)
qed auto

subsection \<open>Bodies of requests\<close>

lemma decode_string_body_text:
  assumes "ws_layout L" and "ascii_text name" and "to_lower name = name" and "valid_utf8 v"
  shows "decode_string_body name (json_text L (JObj [(name, JStr v)]) @ [CHR 0x0A]) = Some v"
proof -
  have "read_first (json_text L (JObj [(name, JStr v)]) @ [CHR 0x0A]) = Some (JObj [(name, JStr v)])"
    by (rule read_json_text(3)) (use assms valid_ascii in simp_all)
  then show ?thesis using assms(3) by (simp add: decode_string_body_def)
qed

end
