(* ===== verification/Account_Props.thy ===== *)
theory Account_Props
  imports Service_Props Json_Text_Props
begin

text \<open>
  Identity: sessions, keys and who may call what. The hash and the signature are arguments; no
  property assumes that they are hard to invert, only, where it says so, that they are
  injective.
\<close>

subsection \<open>Sessions\<close>

text \<open>C17. A session cookie that was set for a user id without a dot is read back as that id, also
  through a browser that had another session; a cleared one is read as no user; and a request
  is only ever taken to be a user's when its cookie carries the server's signature of exactly
  that id.\<close>

theorem session_cookies:
  assumes "CHR ''.'' \<notin> set u"
  shows "session_UserID mac (store_cookie (session_Set mac u) cookies) = u
    \<and> session_UserID mac (store_cookie session_Clear cookies) = []
    \<and> (session_UserID mac cookies = [] \<or>
        (sessionCookie, session_UserID mac cookies @ ''.'' @ mac (session_UserID mac cookies)) \<in> set cookies)"
  using session_Set_UserID [OF assms] session_Clear_UserID session_UserID_sound [OF refl, of mac cookies]
    map_of_SomeD by metis

lemma session_cookies_witness:
  "session_UserID sample_sha (store_cookie (session_Set sample_sha ''u'') [(''queue_session'', ''x.y'')]) = ''u''"
  using session_cookies [of "''u''" sample_sha "[(''queue_session'', ''x.y'')]"] by simp

subsection \<open>The interceptor\<close>

lemma token_of:
  assumes "has_prefix h ''Bearer ''"
  shows "h = ''Bearer '' @ trim_prefix h ''Bearer ''"
  using assms by (metis has_prefix_iff trim_prefix_append)

lemma interceptor_cases:
  "(\<exists>code m. APIKeyInterceptor d sha next_fn ctx h proc c s = (Inl (RpcError code m), s)
      \<and> code \<in> {CodeUnauthenticated, CodePermissionDenied})
   \<or> (\<exists>token. \<exists>w \<in> set (workers s). h = ''Bearer '' @ token \<and> has_prefix token ''stw_''
       \<and> w_key_hash w = sha token \<and> proc \<in> set workerMethods
       \<and> APIKeyInterceptor d sha next_fn ctx h proc c s = next_fn (ContextWithWorkerID ctx (w_id w)) s)
   \<or> (\<exists>token. \<exists>k \<in> set (api_keys s). h = ''Bearer '' @ token \<and> has_prefix token ''stv_''
       \<and> k_key_hash k = sha token
       \<and> APIKeyInterceptor d sha next_fn ctx h proc c s
           = next_fn (ContextWithUserID ctx (k_user_id k)) (snd (LookupAPIKey d sha token c s)))"
proof (cases "has_prefix h ''Bearer ''")
  case False
  then show ?thesis by (simp add: APIKeyInterceptor_def)
next
  case True
  define token where "token = trim_prefix h ''Bearer ''"
  have h: "h = ''Bearer '' @ token" using token_of [OF True] by (simp add: token_def)
  consider (worker) "has_prefix token ''stw_''" | (client) "\<not> has_prefix token ''stw_''" "has_prefix token ''stv_''"
    | (none) "\<not> has_prefix token ''stw_''" "\<not> has_prefix token ''stv_''" by blast
  then show ?thesis
  proof cases
    case worker
    show ?thesis
    proof (cases "proc \<in> set workerMethods \<and> fault c 0 = None")
      case False
      with True worker show ?thesis
        by (auto simp: APIKeyInterceptor_def token_def LookupWorkerKey_def Let_def)
    next
      case ok: True
      then have call: "APIKeyInterceptor d sha next_fn ctx h proc c s =
          (case find_key w_key_hash (sha token) (workers s) of
             None \<Rightarrow> (Inl (RpcError CodeUnauthenticated ''invalid key''), s)
           | Some w \<Rightarrow> next_fn (ContextWithWorkerID ctx (w_id w)) s)"
        using True worker
        by (simp add: APIKeyInterceptor_def token_def LookupWorkerKey_def Let_def split: option.split)
      show ?thesis
      proof (cases "find_key w_key_hash (sha token) (workers s)")
        case None
        with call show ?thesis by simp
      next
        case (Some w)
        then have "w \<in> set (workers s)" "w_key_hash w = sha token" using find_key_Some by metis+
        with call Some h worker ok show ?thesis by auto
      qed
    qed
  next
    case client
    show ?thesis
    proof (cases "fault c 0 = None")
      case False
      with True client show ?thesis
        by (auto simp: APIKeyInterceptor_def token_def LookupAPIKey_def Let_def)
    next
      case ok: True
      show ?thesis
      proof (cases "find_key k_key_hash (sha token) (api_keys s)")
        case None
        with True client ok show ?thesis
          by (simp add: APIKeyInterceptor_def token_def LookupAPIKey_def Let_def)
      next
        case (Some k)
        then have k: "k \<in> set (api_keys s)" "k_key_hash k = sha token" using find_key_Some by metis+
        have "APIKeyInterceptor d sha next_fn ctx h proc c s
            = next_fn (ContextWithUserID ctx (k_user_id k)) (snd (LookupAPIKey d sha token c s))"
          using True client ok Some
          by (simp add: APIKeyInterceptor_def token_def LookupAPIKey_def Let_def)
        with k h client show ?thesis by blast
      qed
    qed
  next
    case none
    with True show ?thesis by (simp add: APIKeyInterceptor_def token_def Let_def)
  qed
qed

text \<open>C8. A call reaches a handler only in two ways: with a worker key that is in the workers
  table, on one of the four worker methods, with that worker as the identity; or with a client
  key that is in the keys table, with its owner as the identity and the key stamped as used. In
  every other case the call is refused as unauthenticated or as denied, and nothing changes.\<close>

theorem interceptor_gate:
  "(\<exists>code m. APIKeyInterceptor d sha next_fn ctx h proc c s = (Inl (RpcError code m), s)
      \<and> code \<in> {CodeUnauthenticated, CodePermissionDenied})
   \<or> (\<exists>token. \<exists>w \<in> set (workers s). h = ''Bearer '' @ token \<and> has_prefix token ''stw_''
       \<and> w_key_hash w = sha token \<and> proc \<in> set workerMethods
       \<and> APIKeyInterceptor d sha next_fn ctx h proc c s = next_fn (ContextWithWorkerID ctx (w_id w)) s)
   \<or> (\<exists>token. \<exists>k \<in> set (api_keys s). h = ''Bearer '' @ token \<and> has_prefix token ''stv_''
       \<and> k_key_hash k = sha token
       \<and> APIKeyInterceptor d sha next_fn ctx h proc c s
           = next_fn (ContextWithUserID ctx (k_user_id k)) (snd (LookupAPIKey d sha token c s)))"
  by (rule interceptor_cases)

subsection \<open>The life of a key\<close>

lemma take_prefix_4: "has_prefix (''stw_'' @ b) ''stw_''" "has_prefix (''stv_'' @ b) ''stv_''"
  "\<not> has_prefix (''stv_'' @ b) ''stw_''"
  by (simp_all only: has_prefix_append) (simp add: has_prefix_iff)

lemma bearer_token: "has_prefix (''Bearer '' @ t) ''Bearer ''" "trim_prefix (''Bearer '' @ t) ''Bearer '' = t"
  by (simp_all only: has_prefix_append trim_prefix_append)

lemma interceptor_bearer:
  "APIKeyInterceptor d sha next_fn ctx (''Bearer '' @ t) proc c s =
     (if has_prefix t ''stw_'' then
        (if proc \<notin> set workerMethods then (Inl (RpcError CodePermissionDenied []), s)
         else (case LookupWorkerKey sha t c s of
                 (Inl e, s1) \<Rightarrow> (Inl (RpcError CodeUnauthenticated e), s1)
               | (Inr workerID, s1) \<Rightarrow> next_fn (ContextWithWorkerID ctx workerID) s1))
      else if has_prefix t ''stv_'' then
        (case LookupAPIKey d sha t c s of
           (Inl e, s1) \<Rightarrow> (Inl (RpcError CodeUnauthenticated e), s1)
         | (Inr (keyID, userID), s1) \<Rightarrow> next_fn (ContextWithUserID ctx userID) s1)
      else (Inl (RpcError CodeUnauthenticated []), s))"
  by (simp only: APIKeyInterceptor_def bearer_token Let_def not_True_eq_False if_False)

lemma CreateWorkerKey_Some:
  assumes "CreateWorkerKey d sha rnd u name c s = (Inr (i, key), s1)"
  obtains b where "key = ''stw_'' @ b" and "sha key \<notin> w_key_hash ` set (workers s)"
    and "workers s1 = workers s @ [\<lparr>w_id = i, w_name = name, w_key_hash = sha key,
      w_key_prefix = take 12 key, w_created_by = Some u, w_created_at = db_stamp d c, w_last_seen_at = None\<rparr>]"
    and "name \<notin> w_name ` set (workers s)" and "i \<notin> w_id ` set (workers s)" and "u \<in> u_id ` set (users s)"
    and "users s1 = users s" and "api_keys s1 = api_keys s" and "jobs s1 = jobs s" and "queues s1 = queues s"
  using assms
  by (auto simp: CreateWorkerKey_def Let_def split: option.splits sum.splits if_splits)

lemma CreateAPIKey_Some:
  assumes "CreateAPIKey d sha rnd u label c s = (Inr (key, k), s1)"
  obtains b where "key = ''stv_'' @ b" and "sha key \<notin> k_key_hash ` set (api_keys s)"
    and "s1 = s\<lparr>api_keys := api_keys s @ [k]\<rparr>" and "k_id k \<notin> k_id ` set (api_keys s)"
    and "k_key_hash k = sha key" and "k_user_id k = u" and "k_label k = label"
    and "k_key_prefix k = take 12 key" and "u \<in> u_id ` set (users s)"
  using assms
  by (auto simp: CreateAPIKey_def Let_def split: option.splits sum.splits if_splits)

text \<open>The key that \<open>CreateWorkerKey\<close> hands out, shown once and stored only as its hash, is
  accepted from then on for exactly the four worker methods, as the worker created with it; on
  any other method it is denied before the key is even looked up.\<close>

lemma worker_key_accepted:
  assumes "CreateWorkerKey d sha rnd u name c s = (Inr (i, key), s1)" and "fault c' 0 = None"
  shows "APIKeyInterceptor d sha next_fn ctx (''Bearer '' @ key) proc c' s1
    = (if proc \<in> set workerMethods then next_fn (ContextWithWorkerID ctx i) s1
       else (Inl (RpcError CodePermissionDenied []), s1))"
proof -
  from assms(1) obtain b where key: "key = ''stw_'' @ b" and new: "sha key \<notin> w_key_hash ` set (workers s)"
    and ws: "workers s1 = workers s @ [\<lparr>w_id = i, w_name = name, w_key_hash = sha key,
      w_key_prefix = take 12 key, w_created_by = Some u, w_created_at = db_stamp d c, w_last_seen_at = None\<rparr>]"
    by (rule CreateWorkerKey_Some)
  have "find_key w_key_hash (sha key) (workers s) = None" using new by (simp add: find_key_None)
  then have "LookupWorkerKey sha key c' s1 = (Inr i, s1)"
    using assms(2) by (simp add: LookupWorkerKey_def ws find_key_append) (simp add: find_key_def)
  moreover have "has_prefix key ''stw_''" unfolding key by (rule take_prefix_4)
  ultimately show ?thesis
    by (simp only: interceptor_bearer) simp
qed

text \<open>C20. The key that \<open>CreateAPIKey\<close> hands out is accepted as its owner's on every method; only
  its owner can delete it, another user's attempt fails and changes nothing; once deleted it is
  refused.\<close>

theorem api_key_life:
  assumes "CreateAPIKey d sha rnd u label c s = (Inr (key, k), s1)" and "fault c' 0 = None" and "u' \<noteq> u"
  shows "APIKeyInterceptor d sha next_fn ctx (''Bearer '' @ key) proc c' s1
      = next_fn (ContextWithUserID ctx u) (snd (LookupAPIKey d sha key c' s1))
    \<and> DeleteAPIKey u' (k_id k) c' s1 = (Inl ''key not found'', s1)
    \<and> DeleteAPIKey u (k_id k) c' s1 = (Inr (), s)
    \<and> APIKeyInterceptor d sha next_fn ctx (''Bearer '' @ key) proc c' s
      = (Inl (RpcError CodeUnauthenticated ''invalid key''), s)"
proof -
  from assms(1) obtain b where key: "key = ''stv_'' @ b" and new: "sha key \<notin> k_key_hash ` set (api_keys s)"
    and s1: "s1 = s\<lparr>api_keys := api_keys s @ [k]\<rparr>" and kid: "k_id k \<notin> k_id ` set (api_keys s)"
    and k: "k_key_hash k = sha key" "k_user_id k = u"
    by (rule CreateAPIKey_Some)
  have none: "find_key k_key_hash (sha key) (api_keys s) = None" using new by (simp add: find_key_None)
  then have some: "find_key k_key_hash (sha key) (api_keys s1) = Some k"
    by (simp add: s1 find_key_append) (simp add: find_key_def k)
  have pre: "has_prefix key ''stv_''" "\<not> has_prefix key ''stw_''" unfolding key by (rule take_prefix_4)+
  have "fst (LookupAPIKey d sha key c' s1) = Inr (k_id k, u)"
    using some assms(2) k by (simp add: LookupAPIKey_def)
  then have "LookupAPIKey d sha key c' s1 = (Inr (k_id k, u), snd (LookupAPIKey d sha key c' s1))"
    by (simp add: prod_eq_iff)
  then have 1: "APIKeyInterceptor d sha next_fn ctx (''Bearer '' @ key) proc c' s1
      = next_fn (ContextWithUserID ctx u) (snd (LookupAPIKey d sha key c' s1))"
    using pre by (simp only: interceptor_bearer if_True if_False) (metis (no_types, lifting) case_prod_conv sum.case(2))
  have others: "x \<in> set (api_keys s) \<Longrightarrow> k_id x \<noteq> k_id k" for x using kid by (metis image_eqI)
  have 2: "DeleteAPIKey u' (k_id k) c' s1 = (Inl ''key not found'', s1)"
    using assms(2,3) others k by (auto simp: DeleteAPIKey_def s1 Let_def)
  have "filter (\<lambda>x. k_id x = k_id k \<longrightarrow> k_user_id x \<noteq> u) (api_keys s) = api_keys s"
    using others by (simp add: filter_id_conv)
  then have 3: "DeleteAPIKey u (k_id k) c' s1 = (Inr (), s)"
    using assms(2) k by (auto simp: DeleteAPIKey_def s1 Let_def)
  have "LookupAPIKey d sha key c' s = (Inl ''invalid key'', s)"
    using none assms(2) by (simp add: LookupAPIKey_def)
  then have "APIKeyInterceptor d sha next_fn ctx (''Bearer '' @ key) proc c' s
      = (Inl (RpcError CodeUnauthenticated ''invalid key''), s)"
    using pre by (simp only: interceptor_bearer) simp
  with 1 2 3 show ?thesis by blast
qed

lemma api_key_life_witness:
  "DeleteAPIKey ''v'' ''01j'' sample_env
     (snd (CreateAPIKey SQLite sample_sha (Some ''abc'') ''u'' ''lab'' sample_env sample_db))
   = (Inl ''key not found'', snd (CreateAPIKey SQLite sample_sha (Some ''abc'') ''u'' ''lab'' sample_env sample_db))"
proof -
  let ?x = "CreateAPIKey SQLite sample_sha (Some ''abc'') ''u'' ''lab'' sample_env sample_db"
  have "case fst ?x of Inr (p, k) \<Rightarrow> k_id k = ''01j'' | _ \<Rightarrow> False" by code_simp
  then obtain p k where "?x = (Inr (p, k), snd ?x)" and "k_id k = ''01j''"
    by (auto split: sum.splits simp: prod_eq_iff)
  with api_key_life [OF this(1), of sample_env "''v''"] show ?thesis by auto
qed

subsection \<open>The account tables\<close>

text \<open>What the driver can change of a worker is only when it was last seen.\<close>

definition worker_core :: "worker_row \<Rightarrow> string \<times> string \<times> string \<times> string option" where
  "worker_core w = (w_id w, w_name w, w_key_hash w, w_created_by w)"

definition same_accounts :: "database \<Rightarrow> database \<Rightarrow> bool" where
  "same_accounts s s' \<longleftrightarrow> users s' = users s \<and> api_keys s' = api_keys s
     \<and> map worker_core (workers s') = map worker_core (workers s)"

lemma same_accounts_refl [simp]: "same_accounts s s" "same_accounts s (s\<lparr>jobs := xs\<rparr>)"
  "same_accounts s (s\<lparr>queues := qs\<rparr>)" "same_accounts s (s\<lparr>queues := qs, jobs := xs\<rparr>)"
  by (simp_all add: same_accounts_def)

lemma same_accounts_touch [simp]:
  "same_accounts s (s\<lparr>workers := update_where P (\<lambda>w. w\<lparr>w_last_seen_at := t\<rparr>) (workers s)\<rparr>)"
  "same_accounts s (s\<lparr>workers := update_where P (\<lambda>w. w\<lparr>w_last_seen_at := t\<rparr>) (workers s), jobs := xs\<rparr>)"
  by (simp_all add: same_accounts_def worker_core_def map_update_where)

lemma pg_same_accounts: "same_accounts s (apply_call (pg_driver cfg) c x s)"
  by (cases x) (auto simp: pg_driver_simps pg_CreateJob_def pg_ClaimJob_def pg_CompleteJob_def
      pg_FailJob_def pg_HeartbeatJob_def pg_CancelJob_def pg_PromoteJob_def pg_PauseQueue_def
      pg_ResumeQueue_def pg_PromoteScheduledJobs_def pg_FailExpiredJobs_def pg_exec_update_def
      pg_update_selected_def pg_touch_worker_def Let_def split: option.split sum.split list.split)

lemma sqlite_same_accounts: "same_accounts s (apply_call (sqlite_driver cfg) c x s)"
  by (cases x) (auto simp: sqlite_driver_simps sq_CreateJob_def sq_ClaimJob_def sq_CompleteJob_def
      sq_FailJob_def sq_HeartbeatJob_def sq_CancelJob_def sq_PromoteJob_def sq_PauseQueue_def
      sq_ResumeQueue_def sq_PromoteScheduledJobs_def sq_FailExpiredJobs_def sq_exec_update_def
      sq_update_selected_def sq_touch_worker_def Let_def split: option.split sum.split list.split)

text \<open>Calls on the account tables, and the driver's calls on the same database.\<close>

datatype account_call =
    UpsertCall string string string
  | CreateKeyCall "string option" string string
  | DeleteKeyCall string string
  | LookupKeyCall string
  | CreateWorkerCall "string option" string string
  | DeleteWorkerCall string string
  | DriverCall driver_call

fun apply_account ::
  "database driver \<Rightarrow> dialect \<Rightarrow> (string \<Rightarrow> string) \<Rightarrow> call_env \<Rightarrow> account_call \<Rightarrow> database \<Rightarrow> database" where
  "apply_account D d sha c (UpsertCall g e n) s = snd (UpsertUser d g e n c s)"
| "apply_account D d sha c (CreateKeyCall r u l) s = snd (CreateAPIKey d sha r u l c s)"
| "apply_account D d sha c (DeleteKeyCall u k) s = snd (DeleteAPIKey u k c s)"
| "apply_account D d sha c (LookupKeyCall t) s = snd (LookupAPIKey d sha t c s)"
| "apply_account D d sha c (CreateWorkerCall r u n) s = snd (CreateWorkerKey d sha r u n c s)"
| "apply_account D d sha c (DeleteWorkerCall u w) s = snd (DeleteWorker u w c s)"
| "apply_account D d sha c (DriverCall x) s = apply_call D c x s"

fun run_accounts ::
  "database driver \<Rightarrow> dialect \<Rightarrow> (string \<Rightarrow> string) \<Rightarrow> (call_env \<times> account_call) list \<Rightarrow> database \<Rightarrow> database" where
  "run_accounts D d sha [] s = s"
| "run_accounts D d sha ((c, x) # xs) s = run_accounts D d sha xs (apply_account D d sha c x s)"

text \<open>The users by id, in the order of their creation.\<close>

definition user_ids :: "database \<Rightarrow> (string \<times> string) list" where
  "user_ids s = map (\<lambda>u. (u_id u, u_google_id u)) (users s)"

definition accounts_step :: "(string \<Rightarrow> string) \<Rightarrow> database \<Rightarrow> database \<Rightarrow> bool" where
  "accounts_step sha s s' \<longleftrightarrow>
     (accounts_ok sha s \<longrightarrow> accounts_ok sha s') \<and> (\<exists>new. user_ids s' = user_ids s @ new)"

lemma accounts_step_refl [simp]: "accounts_step sha s s"
  by (simp add: accounts_step_def)

lemma accounts_step_trans: "accounts_step sha a b \<Longrightarrow> accounts_step sha b c \<Longrightarrow> accounts_step sha a c"
  by (auto simp: accounts_step_def)

lemma same_accounts_step:
  assumes "same_accounts s s'"
  shows "accounts_step sha s s'"
proof -
  have w: "map worker_core (workers s') = map worker_core (workers s)" and u: "users s' = users s"
    and k: "api_keys s' = api_keys s" using assms by (simp_all add: same_accounts_def)
  have maps: "map w_id (workers s') = map w_id (workers s)" "map w_name (workers s') = map w_name (workers s)"
    "map w_key_hash (workers s') = map w_key_hash (workers s)"
    "map w_created_by (workers s') = map w_created_by (workers s)"
    using arg_cong [OF w, of "map fst"] arg_cong [OF w, of "map (fst \<circ> snd)"]
      arg_cong [OF w, of "map (fst \<circ> snd \<circ> snd)"] arg_cong [OF w, of "map (snd \<circ> snd \<circ> snd)"]
    by (simp_all add: worker_core_def comp_def)
  have "(\<forall>w \<in> set (workers s'). \<exists>u. w_created_by w = Some u \<and> u \<in> u_id ` set (users s))
      \<longleftrightarrow> (\<forall>b \<in> set (map w_created_by (workers s')). \<exists>u. b = Some u \<and> u \<in> u_id ` set (users s))"
    by simp
  also have "\<dots> \<longleftrightarrow> (\<forall>w \<in> set (workers s). \<exists>u. w_created_by w = Some u \<and> u \<in> u_id ` set (users s))"
    unfolding maps(4) by simp
  finally show ?thesis
    by (simp add: accounts_step_def accounts_ok_def user_ids_def maps u k)
qed

lemma upsert_step: "accounts_step sha s (snd (UpsertUser d g e n c s))"
proof -
  have upd: "accounts_step sha s (s\<lparr>users := update_where P (\<lambda>x. x\<lparr>u_email := e, u_name := n\<rparr>) (users s)\<rparr>)" for P
  proof -
    let ?us = "update_where P (\<lambda>x. x\<lparr>u_email := e, u_name := n\<rparr>) (users s)"
    have maps: "map u_id ?us = map u_id (users s)" "map u_google_id ?us = map u_google_id (users s)"
      "map (\<lambda>u. (u_id u, u_google_id u)) ?us = map (\<lambda>u. (u_id u, u_google_id u)) (users s)"
      by (rule map_update_where, simp)+
    have "u_id ` set ?us = u_id ` set (users s)" using maps(1) by (metis set_map)
    with maps show ?thesis by (simp add: accounts_step_def accounts_ok_def user_ids_def)
  qed
  have new: "accounts_step sha s (s\<lparr>users := users s @ [u]\<rparr>)"
    if "find_key u_google_id (u_google_id u) (users s) = None" "u_id u \<notin> u_id ` set (users s)" for u
    using that by (auto simp: accounts_step_def accounts_ok_def user_ids_def find_key_None)
  show ?thesis
    using upd new by (auto simp: UpsertUser_def Let_def split: sum.split option.split)
qed

lemma create_key_step: "accounts_step sha s (snd (CreateAPIKey d sha r u l c s))"
proof (cases "fst (CreateAPIKey d sha r u l c s)")
  case (Inl e)
  then show ?thesis
    by (auto simp: CreateAPIKey_def Let_def split: option.splits sum.splits if_splits)
next
  case (Inr pk)
  obtain key k where "pk = (key, k)" by (cases pk)
  with Inr have "CreateAPIKey d sha r u l c s = (Inr (key, k), snd (CreateAPIKey d sha r u l c s))"
    by (simp add: prod_eq_iff)
  then show ?thesis
    by (rule CreateAPIKey_Some) (auto simp: accounts_step_def accounts_ok_def user_ids_def)
qed

lemma create_worker_step: "accounts_step sha s (snd (CreateWorkerKey d sha r u n c s))"
proof (cases "fst (CreateWorkerKey d sha r u n c s)")
  case (Inl e)
  then show ?thesis
    by (auto simp: CreateWorkerKey_def Let_def split: option.splits sum.splits if_splits)
next
  case (Inr pk)
  obtain i key where "pk = (i, key)" by (cases pk)
  with Inr have "CreateWorkerKey d sha r u n c s = (Inr (i, key), snd (CreateWorkerKey d sha r u n c s))"
    by (simp add: prod_eq_iff)
  then show ?thesis
    by (rule CreateWorkerKey_Some) (auto simp: accounts_step_def accounts_ok_def user_ids_def)
qed

lemma delete_steps:
  "accounts_step sha s (snd (DeleteAPIKey u k c s))" "accounts_step sha s (snd (DeleteWorker u w c s))"
  by (auto simp: DeleteAPIKey_def DeleteWorker_def Let_def accounts_step_def accounts_ok_def user_ids_def
      distinct_map_filter split: option.split)

lemma lookup_step: "accounts_step sha s (snd (LookupAPIKey d sha t c s))"
proof -
  let ?ks = "update_where (\<lambda>x. k_key_hash x = sha t) (\<lambda>x. x\<lparr>k_last_used_at := Some (db_stamp d c)\<rparr>) (api_keys s)"
  have maps: "map k_id ?ks = map k_id (api_keys s)" "map k_key_hash ?ks = map k_key_hash (api_keys s)"
    "map k_user_id ?ks = map k_user_id (api_keys s)"
    by (rule map_update_where, simp)+
  have "(\<forall>k \<in> set ?ks. k_user_id k \<in> U) \<longleftrightarrow> list_all (\<lambda>u. u \<in> U) (map k_user_id ?ks)" for U
    by (simp add: list_all_iff)
  then have "(\<forall>k \<in> set ?ks. k_user_id k \<in> U) \<longleftrightarrow> (\<forall>k \<in> set (api_keys s). k_user_id k \<in> U)" for U
    unfolding maps(3) by (simp add: list_all_iff)
  with maps have "accounts_step sha s (s\<lparr>api_keys := ?ks\<rparr>)"
    by (simp add: accounts_step_def accounts_ok_def user_ids_def)
  then show ?thesis by (simp add: LookupAPIKey_def split: option.split)
qed

lemma account_step:
  assumes "is_backend D"
  shows "accounts_step sha s (apply_account D d sha c x s)"
proof (cases x)
  case (DriverCall y)
  with assms show ?thesis
    by (auto elim!: is_backendE intro!: same_accounts_step pg_same_accounts sqlite_same_accounts)
qed (simp_all add: upsert_step create_key_step create_worker_step delete_steps lookup_step)

lemma run_accounts_step: "is_backend D \<Longrightarrow> accounts_step sha s (run_accounts D d sha xs s)"
proof (induction xs arbitrary: s)
  case (Cons x xs)
  obtain c y where "x = (c, y)" by (cases x)
  with Cons show ?case by (auto intro: accounts_step_trans account_step)
qed simp

text \<open>Under any interleaving of sign-ins, key and worker management, key lookups and driver
  calls, from the empty database: user, key and worker ids, Google ids, worker names and key
  hashes stay unique, every key and worker belongs to an existing user, and a person who signs
  in again keeps the user id of the first time.\<close>

theorem accounts_run_ok:
  assumes "is_backend D"
  shows "accounts_ok sha (run_accounts D d sha ys (run_accounts D d sha xs empty_db))
    \<and> (\<exists>new. user_ids (run_accounts D d sha ys (run_accounts D d sha xs empty_db))
         = user_ids (run_accounts D d sha xs empty_db) @ new)"
proof -
  have "accounts_ok sha empty_db" by (simp add: accounts_ok_def empty_db_def)
  then show ?thesis
    using run_accounts_step [OF assms, of sha empty_db d xs]
      run_accounts_step [OF assms, of sha "run_accounts D d sha xs empty_db" d ys]
    by (simp add: accounts_step_def)
qed

lemma accounts_run_ok_witness:
  "accounts_ok sample_sha (run_accounts (pg_driver sample_pg) Postgres sample_sha
       [(sample_env, CreateKeyCall (Some ''k'') ''01j'' ''lab''), (sample_env, UpsertCall ''g'' ''new'' ''n'')]
     (run_accounts (pg_driver sample_pg) Postgres sample_sha [(sample_env, UpsertCall ''g'' ''e'' ''n'')] empty_db))
   \<and> map u_email (users (run_accounts (pg_driver sample_pg) Postgres sample_sha
       [(sample_env, CreateKeyCall (Some ''k'') ''01j'' ''lab''), (sample_env, UpsertCall ''g'' ''new'' ''n'')]
     (run_accounts (pg_driver sample_pg) Postgres sample_sha [(sample_env, UpsertCall ''g'' ''e'' ''n'')] empty_db)))
     = [''new'']"
proof
  show "accounts_ok sample_sha (run_accounts (pg_driver sample_pg) Postgres sample_sha
       [(sample_env, CreateKeyCall (Some ''k'') ''01j'' ''lab''), (sample_env, UpsertCall ''g'' ''new'' ''n'')]
     (run_accounts (pg_driver sample_pg) Postgres sample_sha [(sample_env, UpsertCall ''g'' ''e'' ''n'')] empty_db))"
    by (rule conjunct1 [OF accounts_run_ok]) simp
  show "map u_email (users (run_accounts (pg_driver sample_pg) Postgres sample_sha
       [(sample_env, CreateKeyCall (Some ''k'') ''01j'' ''lab''), (sample_env, UpsertCall ''g'' ''new'' ''n'')]
     (run_accounts (pg_driver sample_pg) Postgres sample_sha [(sample_env, UpsertCall ''g'' ''e'' ''n'')] empty_db)))
     = [''new'']"
    by code_simp
qed

subsection \<open>Signing in\<close>

lemma emailAllowed_domain:
  "emailAllowed domains email \<longleftrightarrow>
     domains = [] \<or> (\<exists>domain \<in> set domains. \<exists>local. local \<noteq> [] \<and> email = local @ ''@'' @ domain)"
proof -
  have "length dom + 1 < length email \<and> drop (length email - length dom - 1) email = ''@'' @ dom
      \<longleftrightarrow> (\<exists>local. local \<noteq> [] \<and> email = local @ ''@'' @ dom)" for dom
  proof
    assume a: "length dom + 1 < length email \<and> drop (length email - length dom - 1) email = ''@'' @ dom"
    let ?n = "length email - length dom - 1"
    have "email = take ?n email @ ''@'' @ dom" using a append_take_drop_id [of ?n email] by simp
    moreover have "take ?n email \<noteq> []" using a by auto
    ultimately show "\<exists>local. local \<noteq> [] \<and> email = local @ ''@'' @ dom" by blast
  next
    assume "\<exists>local. local \<noteq> [] \<and> email = local @ ''@'' @ dom"
    then show "length dom + 1 < length email \<and> drop (length email - length dom - 1) email = ''@'' @ dom"
      by auto
  qed
  then show ?thesis by (simp add: emailAllowed_def)
qed

lemma UpsertUser_Some:
  "UpsertUser d g e n c s = (Inr u, s1) \<Longrightarrow>
     u_google_id u = g \<and> u_email u = e \<and> u_name u = n \<and> u \<in> set (users s1)"
  by (auto simp: UpsertUser_def Let_def set_update_where dest!: find_key_Some
      split: sum.splits option.splits if_splits)

text \<open>C21. The sign-in callback gives a session only to a request whose non-empty state cookie
  equals the state of the redirect, after the code was exchanged and the identity fetched, when
  the domain list is empty or the email is a non-empty name at one of its domains; the session
  is that of the user row of this Google id. In every other case it sets no cookie and creates
  and changes no user.\<close>

theorem oauth_callback_gate:
  "(\<exists>r. oauth_Callback mac d domains exchange fetch cookies st code c s = ((r, None), s))
   \<or> (\<exists>tok info u s1. map_of cookies oauth_state = Some st \<and> st \<noteq> []
        \<and> exchange code = Inr tok \<and> fetch tok = Inr info
        \<and> (domains = [] \<or> (\<exists>dom \<in> set domains. \<exists>local. local \<noteq> [] \<and> g_Email info = local @ ''@'' @ dom))
        \<and> UpsertUser d (g_ID info) (g_Email info) (g_Name info) c s = (Inr u, s1)
        \<and> u \<in> set (users s1) \<and> u_google_id u = g_ID info \<and> u_email u = g_Email info
        \<and> oauth_Callback mac d domains exchange fetch cookies st code c s
            = ((HttpRedirect 302 ''/'', Some (session_Set mac (u_id u))), s1))"
proof (cases "map_of cookies oauth_state = Some st \<and> st \<noteq> []")
  case False
  then show ?thesis by (auto simp: oauth_Callback_def split: option.split)
next
  case True
  show ?thesis
  proof (cases "\<exists>tok info. exchange code = Inr tok \<and> fetch tok = Inr info \<and> emailAllowed domains (g_Email info)")
    case False
    with True show ?thesis by (auto simp: oauth_Callback_def split: sum.split)
  next
    case ok: True
    then obtain tok info where i: "exchange code = Inr tok" "fetch tok = Inr info"
      "emailAllowed domains (g_Email info)" by blast
    obtain res s1 where u: "UpsertUser d (g_ID info) (g_Email info) (g_Name info) c s = (res, s1)"
      by (cases "UpsertUser d (g_ID info) (g_Email info) (g_Name info) c s")
    show ?thesis
    proof (cases res)
      case (Inl e)
      have "s1 = s" using u Inl
        by (auto simp: UpsertUser_def Let_def split: sum.splits option.splits if_splits)
      with True i u Inl show ?thesis by (simp add: oauth_Callback_def)
    next
      case (Inr user)
      with True i u UpsertUser_Some [of d "g_ID info" "g_Email info" "g_Name info" c s user s1]
      show ?thesis using emailAllowed_domain [THEN iffD1, OF i(3)] by (simp add: oauth_Callback_def)
    qed
  qed
qed

text \<open>C22. The identity that signs in is whatever the user-info endpoint's answer decodes to, whatever
  its status: an error document (an object with none of the fields) passes as a person without
  Google id, email and name. With a list of allowed domains it is refused; without one, every
  such answer signs in, and all of them as the same user, the one whose Google id is empty.\<close>

theorem sign_in_with_error_body:
  assumes "map_of cookies oauth_state = Some st" and "st \<noteq> []" and "exchange code = Inr tok"
    and "get tok = Inr body" and "read_first body = Some (JObj fs)"
    and "\<forall>kv \<in> set fs. to_lower (fst kv) \<notin> {''id'', ''email'', ''name''}"
    and "newID c = Inr i" and "fault c 0 = None" and "i \<notin> u_id ` set (users s)"
  shows "if domains = [] then
      (\<exists>u s1. oauth_Callback mac d domains exchange (fetchUserInfo get) cookies st code c s
            = ((HttpRedirect 302 ''/'', Some (session_Set mac (u_id u))), s1)
         \<and> u \<in> set (users s1) \<and> u_google_id u = []
         \<and> (\<forall>v. find_key u_google_id [] (users s) = Some v \<longrightarrow> u_id u = u_id v))
    else oauth_Callback mac d domains exchange (fetchUserInfo get) cookies st code c s
      = ((HttpError 403 ''email not allowed'', None), s)"
proof -
  have "decode_google_fields z fs = Some z" for z
    using assms(6) by (induction fs) auto
  then have info: "fetchUserInfo get tok = Inr \<lparr>g_ID = [], g_Email = [], g_Name = []\<rparr>"
    using assms(4,5) by (simp add: fetchUserInfo_def decode_google_user_def)
  have email: "emailAllowed domains [] \<longleftrightarrow> domains = []" by (simp add: emailAllowed_def)
  show ?thesis
  proof (cases "domains = []")
    case True
    let ?x = "UpsertUser d [] [] [] c s"
    from assms(7-9) obtain u s1 where u: "?x = (Inr u, s1)"
      and same: "\<forall>v. find_key u_google_id [] (users s) = Some v \<longrightarrow> u_id u = u_id v"
      by (cases "find_key u_google_id [] (users s)") (auto simp: UpsertUser_def Let_def)
    have "oauth_Callback mac d domains exchange (fetchUserInfo get) cookies st code c s
        = ((HttpRedirect 302 ''/'', Some (session_Set mac (u_id u))), s1)"
      using assms(1-3) True u info email by (simp add: oauth_Callback_def)
    with UpsertUser_Some [OF u] same True show ?thesis by auto
  next
    case False
    with assms(1-3) info email show ?thesis by (simp add: oauth_Callback_def)
  qed
qed

definition sample_exchange :: "string \<Rightarrow> string + string" where
  "sample_exchange code = Inr ''tok''"

definition error_body :: "(string \<times> json) list" where
  "error_body = [(''error'', JObj [(''code'', JInt 401)])]"

definition error_text_body :: string where
  "error_text_body = json_text compact (JObj error_body) @ [CHR 0x0A]"

definition get_error_body :: "string \<Rightarrow> string + string" where
  "get_error_body tok = Inr error_text_body"

lemma sign_in_with_error_body_witness:
  "\<exists>(u :: user_row) s1. oauth_Callback sample_sha Postgres [] sample_exchange (fetchUserInfo get_error_body)
      [(''oauth_state'', ''st'')] ''st'' ''c'' sample_env sample_db
    = ((HttpRedirect 302 ''/'', Some (session_Set sample_sha (u_id u))), s1) \<and> u_google_id u = []"
proof -
  have "printable (JObj error_body)"
    by (simp add: error_body_def valid_ascii ascii_text_def)
  then have r: "read_first error_text_body = Some (JObj error_body)"
    unfolding error_text_body_def by (intro read_json_text) (simp_all add: error_body_def)
  have i: "newID sample_env = Inr ''01j''"
    and k: "\<forall>kv \<in> set error_body. to_lower (fst kv) \<notin> {''id'', ''email'', ''name''}"
    by code_simp+
  have new: "''01j'' \<notin> u_id ` set (users sample_db)" by (simp add: sample_db_def)
  have st: "map_of [(''oauth_state'', ''st'')] oauth_state = Some ''st''" by (simp add: oauth_state_def)
  have ex: "sample_exchange ''c'' = Inr ''tok''" by (simp add: sample_exchange_def)
  have f: "fault sample_env 0 = None" by simp
  from sign_in_with_error_body [where exchange = sample_exchange and tok = "''tok''" and code = "''c''"
      and get = get_error_body and domains = "[]" and mac = sample_sha and d = Postgres,
      OF st _ ex get_error_body_def r k i f new]
  show ?thesis by (simp only: refl if_True list.distinct not_False_eq_True True_implies_equals) blast
qed

subsection \<open>Who made the claim\<close>

abbreviation claim_method :: string where
  "claim_method \<equiv> ''/stevy.v1.JobService/ClaimJob''"

text \<open>What a claim over RPC leaves of the job it returns and of the worker it was made for.\<close>

lemma svc_claim_attributed:
  assumes "ids_ok (jobs s)" and "svc_ClaimJob (pg_driver cfg) rt ctx q c s = (Inr (Some p), s')"
  shows "\<exists>r. lookup_job (p_id p) (jobs s') = Some r \<and> j_status r = Running
    \<and> last (j_attempted_by r) = WorkerIDFromContext ctx
    \<and> (\<forall>w \<in> set (workers s'). w_id w = WorkerIDFromContext ctx \<longrightarrow> w_last_seen_at w = Some (db_now c 0))"
proof -
  let ?w = "WorkerIDFromContext ctx"
  from assms(2) obtain row where x: "pg_ClaimJob cfg q ?w c s = (Inr (Some row), s')" and p: "p_id p = j_id row"
    by (auto simp: svc_ClaimJob_def pg_driver_simps workerIDFromCtx_def rowToProto_def
        split: prod.splits sum.splits option.splits)
  from x obtain r rs where sel: "select_limit (pg_claimable c q) claim_key 1 (jobs s) = r # rs"
    and row: "row = job_row.truncate (pg_claim_set cfg (db_now c 1) ?w r)"
    and s': "s' = s\<lparr>workers := pg_touch_worker (db_now c 0) ?w (workers s),
      jobs := update_where (\<lambda>y. j_id y = j_id r) (pg_claim_set cfg (db_now c 1) ?w) (jobs s)\<rparr>"
    by (auto simp: pg_ClaimJob_def Let_def split: option.splits if_splits list.splits)
  have "r \<in> set (jobs s)" using select_limitD(1) sel by (metis list.set_intros(1))
  then have "lookup_job (j_id r) (jobs s) = Some r" by (rule ids_ok_lookup [OF assms(1)])
  then have "lookup_job (j_id r) (jobs s') = Some (pg_claim_set cfg (db_now c 1) ?w r)"
    unfolding s' by (simp add: find_key_update_where pg_claim_set_def)
  moreover have "p_id p = j_id r" by (simp add: p row job_row.defs pg_claim_set_def)
  ultimately show ?thesis
    by (auto simp: pg_claim_set_def s' pg_touch_worker_def set_update_where)
qed

text \<open>C28. A claim through the interceptor on PostgreSQL is attributed: the job that a worker's key
  obtains records that worker as the last of its attempts and the worker as just seen. A client
  key is let through to the same method, although the method is meant for workers only; the job
  it obtains is attributed to the empty worker id.\<close>

theorem claim_attribution:
  assumes "ids_ok (jobs s)"
    and "APIKeyInterceptor d sha (\<lambda>ctx. svc_ClaimJob (pg_driver cfg) rt ctx q c) empty_context
           (''Bearer '' @ key) claim_method c0 s = (Inr (Some p), s')"
  shows "\<exists>who r. lookup_job (p_id p) (jobs s') = Some r \<and> j_status r = Running
    \<and> last (j_attempted_by r) = who
    \<and> (if has_prefix key ''stw_''
       then (\<exists>w \<in> set (workers s). w_key_hash w = sha key \<and> w_id w = who)
            \<and> (\<forall>w \<in> set (workers s'). w_id w = who \<longrightarrow> w_last_seen_at w = Some (db_now c 0))
       else who = [] \<and> (\<exists>k \<in> set (api_keys s). k_key_hash k = sha key))"
proof (cases "has_prefix key ''stw_''")
  case True
  with assms(2) obtain w where w: "find_key w_key_hash (sha key) (workers s) = Some w"
    and call: "svc_ClaimJob (pg_driver cfg) rt (ContextWithWorkerID empty_context (w_id w)) q c s
      = (Inr (Some p), s')"
    by (simp only: interceptor_bearer)
      (auto simp: LookupWorkerKey_def split: option.splits if_splits)
  from svc_claim_attributed [OF assms(1) call] find_key_Some [OF w] True show ?thesis by auto
next
  case False
  let ?s0 = "s\<lparr>api_keys := update_where (\<lambda>x. k_key_hash x = sha key)
    (\<lambda>x. x\<lparr>k_last_used_at := Some (db_stamp d c0)\<rparr>) (api_keys s)\<rparr>"
  from False assms(2) obtain k where k: "find_key k_key_hash (sha key) (api_keys s) = Some k"
    and call: "svc_ClaimJob (pg_driver cfg) rt (ContextWithUserID empty_context (k_user_id k)) q c ?s0
      = (Inr (Some p), s')"
    by (simp only: interceptor_bearer)
      (auto simp: LookupAPIKey_def split: option.splits if_splits)
  have "WorkerIDFromContext (ContextWithUserID empty_context u) = []" for u
    by (simp add: WorkerIDFromContext_def empty_context_def ContextWithUserID_def)
  with svc_claim_attributed [OF _ call] assms(1) find_key_Some [OF k] False show ?thesis by auto
qed

lemma claim_attribution_witness:
  "\<exists>p s'. APIKeyInterceptor Postgres sample_sha (\<lambda>ctx. svc_ClaimJob (pg_driver sample_pg) sample_rt ctx ''q'' sample_env)
      empty_context (''Bearer '' @ ''stv_x'') claim_method sample_env sample_db = (Inr (Some p), s')
    \<and> (\<exists>r. lookup_job (p_id p) (jobs s') = Some r \<and> last (j_attempted_by r) = [])"
proof -
  let ?x = "APIKeyInterceptor Postgres sample_sha (\<lambda>ctx. svc_ClaimJob (pg_driver sample_pg) sample_rt ctx ''q'' sample_env)
      empty_context (''Bearer '' @ ''stv_x'') claim_method sample_env sample_db"
  have "case fst ?x of Inr (Some _) \<Rightarrow> True | _ \<Rightarrow> False" by code_simp
  then obtain p where p: "?x = (Inr (Some p), snd ?x)"
    by (auto split: sum.splits option.splits simp: prod_eq_iff)
  have "\<not> has_prefix ''stv_x'' ''stw_''" by code_simp
  with claim_attribution [OF sample_ids_ok p]
  have "\<exists>r. lookup_job (p_id p) (jobs (snd ?x)) = Some r \<and> last (j_attempted_by r) = []" by auto
  with p show ?thesis by blast
qed

end
