(* ===== verification/Web_Props.thy ===== *)
theory Web_Props
  imports List_Props Retry_Props
begin

text \<open>
  The dashboard against the service: what the job page shows of the error log, and the cursor of
  the job list.
\<close>

subsection \<open>The error log as the PostgreSQL driver writes it\<close>

definition log_entry :: "(string \<Rightarrow> int option) \<Rightarrow> json \<Rightarrow> bool" where
  "log_entry pt e \<longleftrightarrow> (\<exists>t m. e = JObj [(''at'', JStr t), (''message'', JStr m)] \<and> pt t \<noteq> None)"

definition log_ok :: "(string \<Rightarrow> int option) \<Rightarrow> job \<Rightarrow> bool" where
  "log_ok pt r \<longleftrightarrow> (\<forall>e \<in> set (j_errors r). log_entry pt e)"

abbreviation logs_ok :: "(string \<Rightarrow> int option) \<Rightarrow> database \<Rightarrow> bool" where
  "logs_ok pt s \<equiv> \<forall>r \<in> set (jobs s). log_ok pt r"

lemma pg_error_entry_log: "pt (now_text c) \<noteq> None \<Longrightarrow> log_entry pt (pg_error_entry c m)"
  by (auto simp: log_entry_def pg_error_entry_def)

lemma update_logs:
  assumes "\<And>r. log_ok pt r \<Longrightarrow> log_ok pt (f r)" and "logs_ok pt s"
  shows "\<forall>r \<in> set (update_where P f (jobs s)). log_ok pt r"
proof
  fix r assume "r \<in> set (update_where P f (jobs s))"
  then obtain x where "x \<in> set (jobs s)" "r = (if P x then f x else x)"
    unfolding set_update_where by blast
  with assms show "log_ok pt r" by (cases "P x") simp_all
qed

lemma exec_update_logs:
  assumes "\<And>r. log_ok pt r \<Longrightarrow> log_ok pt (f r)" and "logs_ok pt s"
  shows "logs_ok pt (snd (pg_exec_update P f c s))"
proof -
  have "\<forall>r \<in> set (update_where P f (jobs s)). log_ok pt r" using assms by (rule update_logs)
  then show ?thesis using assms(2) by (simp add: pg_exec_update_def split: option.split)
qed

lemma update_selected_logs:
  assumes "\<And>r. log_ok pt r \<Longrightarrow> log_ok pt (f r)" and "logs_ok pt s"
  shows "logs_ok pt (snd (pg_update_selected P k n f c s))"
proof -
  have "\<forall>r \<in> set (update_where (\<lambda>r. j_id r \<in> j_id ` set (select_limit P k n (jobs s))) f (jobs s)). log_ok pt r"
    using assms by (rule update_logs)
  then show ?thesis using assms(2) by (simp add: pg_update_selected_def Let_def split: option.split)
qed

lemma log_ok_same: "j_errors r' = j_errors r \<Longrightarrow> log_ok pt r \<Longrightarrow> log_ok pt r'"
  by (simp add: log_ok_def)

lemma apply_logs:
  assumes "pt (now_text c) \<noteq> None" and "logs_ok pt s"
  shows "logs_ok pt (apply_call (pg_driver cfg) c x s)"
proof (cases x)
  case (CallFail i m b)
  have "log_ok pt (pg_fail_set c m b r)" if "log_ok pt r" for r
    using that pg_error_entry_log [of pt c, OF assms(1)] by (auto simp: pg_fail_set_def log_ok_def)
  then have "logs_ok pt (snd (pg_exec_update P (pg_fail_set c m b) c s))" for P
    using assms(2) by (rule exec_update_logs)
  with assms(2) CallFail show ?thesis by (simp add: pg_driver_simps pg_FailJob_def)
next
  case (CallFailExpired n)
  have "log_ok pt (pg_expire_set c r)" if "log_ok pt r" for r
    using that pg_error_entry_log [of pt c, OF assms(1)] by (auto simp: pg_expire_set_def log_ok_def)
  then have "logs_ok pt (snd (pg_update_selected P k l (pg_expire_set c) c s))"
    for P and k :: "job \<Rightarrow> int" and l
    using assms(2) by (rule update_selected_logs)
  with CallFailExpired show ?thesis by (simp add: pg_driver_simps pg_FailExpiredJobs_def)
next
  case (CallClaim q w)
  have "\<forall>r \<in> set (update_where P (pg_claim_set cfg t w) (jobs s)). log_ok pt r" for P t
    using assms(2) by (intro update_logs) (simp_all add: pg_claim_set_def log_ok_def)
  with assms(2) CallClaim show ?thesis
    by (simp add: pg_driver_simps pg_ClaimJob_def Let_def split: option.split list.split)
next
  case (CallCreate opts)
  have "log_ok pt (pg_new_job cfg c opts i)" for i by (simp add: log_ok_def pg_new_job_def Let_def)
  with assms(2) CallCreate show ?thesis
    by (auto simp: pg_driver_simps pg_CreateJob_def Let_def split: option.split sum.split)
next
  case (CallHeartbeat i p)
  have "log_ok pt (pg_heartbeat_set cfg c p r)" if "log_ok pt r" for r
    using that by (rule log_ok_same [rotated]) (simp add: pg_heartbeat_set_def Let_def split: option.split)
  then have "logs_ok pt (snd (pg_exec_update P (pg_heartbeat_set cfg c p) c s))" for P
    using assms(2) by (rule exec_update_logs)
  with assms(2) CallHeartbeat show ?thesis by (simp add: pg_driver_simps pg_HeartbeatJob_def)
next
  case (CallComplete i v)
  show ?thesis unfolding CallComplete apply_call.simps pg_driver_simps pg_CompleteJob_def
    by (rule exec_update_logs [OF _ assms(2)]) (simp add: log_ok_def)
next
  case (CallCancel i)
  show ?thesis unfolding CallCancel apply_call.simps pg_driver_simps pg_CancelJob_def
    by (rule exec_update_logs [OF _ assms(2)]) (simp add: log_ok_def)
next
  case (CallPromote i)
  show ?thesis unfolding CallPromote apply_call.simps pg_driver_simps pg_PromoteJob_def
    by (rule exec_update_logs [OF _ assms(2)]) (simp add: log_ok_def)
next
  case (CallPromoteScheduled n)
  show ?thesis unfolding CallPromoteScheduled apply_call.simps pg_driver_simps pg_PromoteScheduledJobs_def
    by (rule update_selected_logs [OF _ assms(2)]) (simp add: log_ok_def)
qed (use assms(2) in \<open>simp_all add: pg_driver_simps pg_PauseQueue_def pg_ResumeQueue_def split: option.split\<close>)

lemma run_logs:
  "\<forall>x \<in> set xs. pt (now_text (fst x)) \<noteq> None \<Longrightarrow> logs_ok pt s \<Longrightarrow> logs_ok pt (run_calls (pg_driver cfg) xs s)"
proof (induction xs arbitrary: s)
  case (Cons x xs)
  obtain c y where "x = (c, y)" by (cases x)
  with Cons apply_logs [of pt c s cfg y] show ?case by simp
qed simp

lemma lower_keys: "to_lower ''at'' = ''at''" "to_lower ''message'' = ''message''"
  by code_simp+

lemma decode_log_entry:
  assumes "log_entry pt e"
  shows "\<exists>t m u. e = JObj [(''at'', JStr t), (''message'', JStr m)]
    \<and> decode_page_error pt e = Some \<lparr>je_At = u, je_Attempt = 0, je_Error = []\<rparr>
    \<and> decode_attempt pt e = Some \<lparr>ae_at = u, ae_message = m\<rparr>"
  using assms
  by (auto simp: log_entry_def decode_page_error_def decode_attempt_def lower_keys Let_def)

definition message_of :: "json \<Rightarrow> string" where
  "message_of e = as_string (json_map e ''message'')"

lemma decode_log:
  assumes "\<forall>e \<in> set es. log_entry pt e"
  shows "\<exists>ps as. decode_all (decode_page_error pt) es = Some ps \<and> decode_all (decode_attempt pt) es = Some as
    \<and> list_all (\<lambda>p. je_Attempt p = 0 \<and> je_Error p = []) ps \<and> length ps = length es
    \<and> map ae_message as = map message_of es"
  using assms
proof (induction es)
  case (Cons e es)
  obtain ps as where *: "decode_all (decode_page_error pt) es = Some ps"
    "decode_all (decode_attempt pt) es = Some as" "list_all (\<lambda>p. je_Attempt p = 0 \<and> je_Error p = []) ps"
    "length ps = length es" "map ae_message as = map message_of es"
    using Cons by auto
  obtain t m u where e: "e = JObj [(''at'', JStr t), (''message'', JStr m)]"
    "decode_page_error pt e = Some \<lparr>je_At = u, je_Attempt = 0, je_Error = []\<rparr>"
    "decode_attempt pt e = Some \<lparr>ae_at = u, ae_message = m\<rparr>"
    using decode_log_entry [of pt e] Cons.prems by auto
  have "message_of e = m" by (simp add: e(1) message_of_def as_string_def)
  with * e(2,3) show ?case by simp
qed simp

text \<open>C40. On PostgreSQL the API returns the message of every failed attempt of a job, in order, but
  the job page of the dashboard shows for each of them an empty error text and attempt 0: it
  reads the fields \<open>error\<close> and \<open>attempt\<close>, and the driver writes \<open>message\<close>.\<close>

theorem job_page_loses_messages:
  assumes "\<forall>x \<in> set xs. parse_rfc3339 (now_text (fst x)) \<noteq> None"
    and "r \<in> set (jobs (run_calls (pg_driver cfg) xs empty_db))"
  shows "map ae_message (p_errors (rowToProto rt (job_row.truncate r))) = map message_of (j_errors r)
    \<and> map snd (page_errors parse_rfc3339 fmt (j_errors r)) = replicate (length (j_errors r)) (0, [])"
proof -
  have "logs_ok parse_rfc3339 (run_calls (pg_driver cfg) xs empty_db)"
    using assms(1) by (rule run_logs) (simp add: empty_db_def)
  then have "\<forall>e \<in> set (j_errors r). log_entry parse_rfc3339 e"
    using assms(2) by (auto simp: log_ok_def)
  from decode_log [OF this] obtain ps as where *: "decode_all (decode_page_error parse_rfc3339) (j_errors r) = Some ps"
    "decode_all (decode_attempt parse_rfc3339) (j_errors r) = Some as"
    "list_all (\<lambda>p. je_Attempt p = 0 \<and> je_Error p = []) ps" "length ps = length (j_errors r)"
    "map ae_message as = map message_of (j_errors r)"
    by blast
  have "map snd (map (\<lambda>e. (fmt (je_At e), wrap32 (je_Attempt e), je_Error e)) ps) = replicate (length ps) (0, [])"
    using *(3) by (induction ps) (simp_all add: wrap32_def)
  with * show ?thesis
    by (simp add: page_errors_def rowToProto_def parseAttemptErrors_def job_row.defs)
qed

definition sample_fails :: "(call_env \<times> driver_call) list" where
  "sample_fails = [(sample_env, CallCreate sample_opts), (sample_env, CallClaim ''q'' ''w''),
     (sample_env, CallFail ''01j'' ''boom'' 2000)]"

lemma job_page_loses_messages_witness:
  "\<exists>r \<in> set (jobs (run_calls (pg_driver sample_pg) sample_fails empty_db)).
     map ae_message (p_errors (rowToProto sample_rt (job_row.truncate r))) = [''boom'']
     \<and> map snd (page_errors parse_rfc3339 (\<lambda>_. ''t'') (j_errors r)) = [(0, [])]"
proof -
  have "map j_errors (jobs (run_calls (pg_driver sample_pg) sample_fails empty_db))
      = [[pg_error_entry sample_env ''boom'']]"
    by code_simp
  then obtain r where r: "r \<in> set (jobs (run_calls (pg_driver sample_pg) sample_fails empty_db))"
    "j_errors r = [pg_error_entry sample_env ''boom'']"
    unfolding map_eq_Cons_conv by auto
  have t: "\<forall>x \<in> set sample_fails. parse_rfc3339 (now_text (fst x)) \<noteq> None"
    by (simp add: sample_fails_def parse_sample_now)
  have "message_of (pg_error_entry sample_env ''boom'') = ''boom''" by code_simp
  with job_page_loses_messages [OF t r(1), where fmt = "\<lambda>_. ''t''" and rt = sample_rt] r show ?thesis
    by (intro bexI [of _ r]) simp_all
qed

subsection \<open>The cursor of the job list\<close>

text \<open>Following the link to the next page while there is one, for at most \<open>n\<close> pages.\<close>

fun browse :: "nat \<Rightarrow> (string \<Rightarrow> index_page) \<Rightarrow> string \<Rightarrow> job_list_row list" where
  "browse 0 fetch a = []"
| "browse (Suc n) fetch a =
     (case fetch a of
        JobsPage p \<Rightarrow> pd_Jobs p @ (if pd_NextCursor p = [] then [] else browse n fetch (pd_NextCursor p))
      | _ \<Rightarrow> [])"

abbreviation status_filter :: "string \<Rightarrow> string" where
  "status_filter st \<equiv> if validStatus st then st else []"

lemma driver_page:
  assumes "is_backend D" and "fault c 0 = None"
  shows "\<exists>view :: job \<Rightarrow> job_row. (\<forall>r. j_id (view r) = j_id r)
    \<and> fst (d_ListJobs D [] st 51 a c s) = Inr (map view (take 51 (after_cursor a (matching_desc [] st (jobs s)))))"
  using assms(1)
proof (cases rule: is_backendE)
  case (1 p)
  then show ?thesis
    using pgr.list_result [OF assms(2), of p "[]" st 51 a s] pgr.view_id
    by (intro exI [of _ job_row.truncate]) (simp add: select_desc_after)
next
  case (2 q)
  then show ?thesis
    using sqliter.list_result [OF assms(2), of q "[]" st 51 a s] sqliter.view_id
    by (intro exI [of _ scanJobRowSqlite]) (simp add: select_desc_after)
qed

lemma web_Index_page:
  assumes "is_backend D" and "currentUser mac cookies cu s = Some u" and "fault cl 0 = None"
    and "R = after_cursor a (matching_desc [] (status_filter st) (jobs s))"
  shows "\<exists>p. web_Index D mac fmt ''/'' cookies st a cu cl cc s = JobsPage p
    \<and> map jl_ID (pd_Jobs p) = map j_id (take 50 R)
    \<and> pd_NextCursor p = (if 50 < length R then j_id (last (take 50 R)) else [])"
proof -
  obtain view :: "job \<Rightarrow> job_row" where v: "\<And>r. j_id (view r) = j_id r"
    and rows: "fst (d_ListJobs D [] (status_filter st) 51 a cl s) = Inr (map view (take 51 R))"
    using driver_page [OF assms(1,3), of "status_filter st" a s] unfolding assms(4) by blast
  have fst51: "int jobsPageSize + 1 = 51" by (simp add: jobsPageSize_def)
  have len: "jobsPageSize < length (map view (take 51 R)) \<longleftrightarrow> 50 < length R"
    by (simp add: jobsPageSize_def)
  have cut: "take jobsPageSize (map view (take 51 R)) = map view (take 50 R)"
    by (simp add: jobsPageSize_def take_map)
  show ?thesis
  proof (cases "50 < length R")
    case True
    then have "take 50 R \<noteq> []" by auto
    then have last: "j_id (last (map view (take 50 R))) = j_id (last (take 50 R))"
      by (subst last_map) (simp_all only: v not_False_eq_True)
    show ?thesis
      unfolding web_Index_def Let_def assms(2) fst51 rows sum.case option.case len cut
      by (cases "fst (d_JobCountsByStatus D cc s)")
        (simp_all only: True last, simp_all add: to_list_row_def v comp_def)
  next
    case False
    then have all: "take 51 R = take 50 R" by simp
    show ?thesis
      unfolding web_Index_def Let_def assms(2) fst51 rows sum.case option.case len cut
      by (cases "fst (d_JobCountsByStatus D cc s)")
        (simp_all only: False all, simp_all add: to_list_row_def v comp_def)
  qed
qed

lemma browse_all:
  assumes fetch: "\<And>a. \<exists>p. fetch a = JobsPage p
      \<and> map jl_ID (pd_Jobs p) = map j_id (take 50 (after_cursor a L))
      \<and> pd_NextCursor p = (if 50 < length (after_cursor a L) then j_id (last (take 50 (after_cursor a L))) else [])"
    and "descending L" and "\<forall>r \<in> set L. j_id r \<noteq> []"
  shows "L = pre @ R \<Longrightarrow> after_cursor a L = R \<Longrightarrow> length R < n \<Longrightarrow> map jl_ID (browse n fetch a) = map j_id R"
proof (induction n arbitrary: pre R a)
  case 0
  then show ?case by simp
next
  case (Suc n)
  obtain p where p: "fetch a = JobsPage p" "map jl_ID (pd_Jobs p) = map j_id (take 50 R)"
    "pd_NextCursor p = (if 50 < length R then j_id (last (take 50 R)) else [])"
    using fetch [of a] unfolding Suc.prems(2) by blast
  show ?case
  proof (cases "50 < length R")
    case False
    with p show ?thesis by simp
  next
    case True
    have ids: "\<forall>r \<in> set R. j_id r \<noteq> []" using Suc.prems(1) assms(3) by auto
    have ne: "R \<noteq> []" "(0 :: nat) < 50" using True by auto
    note next_page = after_last_page [OF assms(2) [unfolded Suc.prems(1)] ne(2,1) ids]
    have "last (take 50 R) \<in> set R" using ne by (metis in_set_takeD last_in_set less_numeral_extra(3) take_eq_Nil)
    then have cursor: "pd_NextCursor p \<noteq> []" "pd_NextCursor p = j_id (last (take 50 R))"
      using p(3) True ids by simp_all
    have "map jl_ID (browse n fetch (pd_NextCursor p)) = map j_id (drop 50 R)"
    proof (rule Suc.IH)
      show "L = (pre @ take 50 R) @ drop 50 R" using next_page(2) Suc.prems(1) by simp
      show "after_cursor (pd_NextCursor p) L = drop 50 R"
        using next_page(1) unfolding cursor(2) Suc.prems(1) .
      show "length (drop 50 R) < n" using Suc.prems(3) True by simp
    qed
    moreover have "map j_id (take 50 R) @ map j_id (drop 50 R) = map j_id R"
      unfolding map_append [symmetric] append_take_drop_id ..
    ultimately show ?thesis using p(1,2) cursor(1) by simp
  qed
qed

text \<open>In the dashboard, following the link to the next page while there is one shows a
  signed-in user, on a table that does not change, every job with the chosen status (every job
  when the status is none of the eight) exactly once, newest id first, and the last page has no
  link; the counters may fail meanwhile.\<close>

theorem web_paging_complete:
  assumes "is_backend D" and "currentUser mac cookies cu s = Some u" and "fault cl 0 = None"
    and "ids_ok (jobs s)" and "\<forall>r \<in> set (jobs s). j_id r \<noteq> []" and "length (jobs s) < n"
  shows "map jl_ID (browse n (\<lambda>a. web_Index D mac fmt ''/'' cookies st a cu cl cc s) [])
    = rev (sort (map j_id (filter (list_cond [] (status_filter st) []) (jobs s))))"
proof -
  let ?L = "matching_desc [] (status_filter st) (jobs s)"
  have "map jl_ID (browse n (\<lambda>a. web_Index D mac fmt ''/'' cookies st a cu cl cc s) []) = map j_id ?L"
  proof (rule browse_all [where pre = "[]"])
    show "\<exists>p. web_Index D mac fmt ''/'' cookies st a cu cl cc s = JobsPage p
      \<and> map jl_ID (pd_Jobs p) = map j_id (take 50 (after_cursor a ?L))
      \<and> pd_NextCursor p = (if 50 < length (after_cursor a ?L) then j_id (last (take 50 (after_cursor a ?L))) else [])" for a
      by (rule web_Index_page [OF assms(1-3) refl])
    show "descending ?L" using assms(4) by (rule descending_matching)
    show "\<forall>r \<in> set ?L. j_id r \<noteq> []" using assms(5) by (simp add: set_matching)
    show "length ?L < n"
      using le_less_trans [OF length_filter_le assms(6)] by (simp add: matching_desc_def)
  qed (simp_all add: after_cursor_start)
  then show ?thesis
    by (simp add: matching_desc_def rev_map sort_key_map [of "\<lambda>x. x" j_id])
qed

lemma web_paging_complete_witness:
  "map jl_ID (browse 5 (\<lambda>a. web_Index (pg_driver sample_pg) sample_sha (\<lambda>_. ''t'') ''/''
     [(''queue_session'', ''u.hash:u'')] ''available'' a sample_env sample_env sample_env sample_db) [])
   = [''b'', ''a'']"
proof -
  have u: "currentUser sample_sha [(''queue_session'', ''u.hash:u'')] sample_env sample_db
      = Some \<lparr>u_id = ''u'', u_google_id = ''g'', u_email = ''a@b.c'', u_name = ''n'', u_created_at = 1\<rparr>"
    by code_simp
  have "map jl_ID (browse 5 (\<lambda>a. web_Index (pg_driver sample_pg) sample_sha (\<lambda>_. ''t'') ''/''
      [(''queue_session'', ''u.hash:u'')] ''available'' a sample_env sample_env sample_env sample_db) [])
      = rev (sort (map j_id (filter (list_cond [] (status_filter ''available'') []) (jobs sample_db))))"
    by (rule web_paging_complete [OF is_backend_intros(1) u]) (use sample_ids_ok in \<open>simp_all add: sample_jobs\<close>)
  also have "\<dots> = [''b'', ''a'']" by code_simp
  finally show ?thesis .
qed

end
