(* ===== verification/Life_Spec.thy ===== *)
theory Life_Spec
  imports Driver_Pg Driver_Sqlite
begin

text \<open>
  The abstract specification of the job table: of every id, only its status, its attempts and
  its allowance of attempts, changed by a small automaton (\<open>next_life\<close>) whose events are fixed by
  the call. Every driver that keeps the contract refines it; and because each event other than a
  heartbeat lowers a natural number, no job changes for ever.
\<close>

type_synonym life = "status \<times> int \<times> int"

definition life_of :: "job \<Rightarrow> life" where
  "life_of r = (j_status r, j_attempt r, j_max_attempts r)"

definition lives :: "job list \<Rightarrow> string \<Rightarrow> life option" where
  "lives xs i = map_option life_of (lookup_job i xs)"

fun next_life :: "event \<Rightarrow> life \<Rightarrow> life list" where
  "next_life Claim (Available, n, m) = [(Running, n + 1, m)]"
| "next_life Complete (Running, n, m) = [(Completed, n, m)]"
| "next_life Fail (Running, n, m) = [(if m \<le> n then Discarded else Retryable, n, m)]"
| "next_life Expire (Running, n, m) = [(if m \<le> n then Discarded else Retryable, n, m)]"
| "next_life Heartbeat (Running, n, m) = [(Running, n, m)]"
| "next_life Cancel (st, n, m) = (if terminal st then [] else [(Cancelled, n, m)])"
| "next_life Release (Pending, n, m) = [(Scheduled, n, m), (Available, n, m)]"
| "next_life Promote (Scheduled, n, m) = [(Available, n, m)]"
| "next_life Promote (Retryable, n, m) = [(Available, n, m)]"
| "next_life _ _ = []"

text \<open>The events a call may cause, and the job it is about, if it is about one.\<close>

fun call_event :: "driver_call \<Rightarrow> event option" where
  "call_event (CallCreate _) = None"
| "call_event (CallClaim _ _) = Some Claim"
| "call_event (CallComplete _ _) = Some Complete"
| "call_event (CallFail _ _ _) = Some Fail"
| "call_event (CallHeartbeat _ _) = Some Heartbeat"
| "call_event (CallCancel _) = Some Cancel"
| "call_event (CallPromote _) = Some Release"
| "call_event (CallPause _) = None"
| "call_event (CallResume _) = None"
| "call_event (CallPromoteScheduled _) = Some Promote"
| "call_event (CallFailExpired _) = Some Expire"

fun call_about :: "driver_call \<Rightarrow> string \<Rightarrow> bool" where
  "call_about (CallComplete i _) j = (j = i)"
| "call_about (CallFail i _ _) j = (j = i)"
| "call_about (CallHeartbeat i _) j = (j = i)"
| "call_about (CallCancel i) j = (j = i)"
| "call_about (CallPromote i) j = (j = i)"
| "call_about _ j = True"

fun born :: "driver_call \<Rightarrow> life \<Rightarrow> bool" where
  "born (CallCreate opts) (st, n, m) = (st \<in> {Pending, Scheduled, Available} \<and> n = 0 \<and> 1 \<le> m)"
| "born _ _ = False"

text \<open>One step of the specification: every id keeps its life or takes the call's event, if the call
  is about it; an id without a life may be born.\<close>

definition spec_step :: "driver_call \<Rightarrow> (string \<Rightarrow> life option) \<Rightarrow> (string \<Rightarrow> life option) \<Rightarrow> bool" where
  "spec_step x A B \<longleftrightarrow> (\<forall>i.
     B i = A i
     \<or> (\<exists>a b e. A i = Some a \<and> B i = Some b \<and> call_about x i \<and> call_event x = Some e \<and> b \<in> set (next_life e a))
     \<or> (\<exists>b. A i = None \<and> B i = Some b \<and> born x b))"

lemma job_trans_life: "job_trans e r r' \<Longrightarrow> life_of r' \<in> set (next_life e (life_of r))"
  by (cases "j_status r"; erule job_transE) (auto simp: life_of_def terminal_def)

lemma rows_step_lives:
  assumes "rows_step E P xs ys"
  shows "lives ys i = lives xs i \<or>
    (\<exists>r e. lookup_job i xs = Some r \<and> P r \<and> e \<in> E \<and> lives xs i = Some (life_of r)
       \<and> (\<exists>b. lives ys i = Some b \<and> b \<in> set (next_life e (life_of r))))"
  using assms unfolding rows_step_def
proof (induction xs ys rule: list_all2_induct)
  case Nil
  show ?case by simp
next
  case (Cons x xs y ys)
  show ?case
  proof (cases "j_id x = i")
    case True
    have "j_id y = i" using Cons.hyps(1) True by (auto dest: job_trans_same_job simp: same_job_def)
    with True Cons.hyps(1) job_trans_life show ?thesis
      by (auto simp: lives_def find_key_def)
  next
    case False
    have "j_id y \<noteq> i" using Cons.hyps(1) False by (auto dest: job_trans_same_job simp: same_job_def)
    with False Cons.IH show ?thesis by (simp add: lives_def find_key_def)
  qed
qed

subsection \<open>The measure\<close>

fun status_rank :: "status \<Rightarrow> int" where
  "status_rank Pending = 3"
| "status_rank Scheduled = 2"
| "status_rank Available = 1"
| "status_rank Running = 3"
| "status_rank Retryable = 2"
| "status_rank _ = 0"

fun life_measure :: "life \<Rightarrow> nat" where
  "life_measure (st, n, m) = nat (3 * (m - n) + status_rank st)"

lemma next_life_measure:
  assumes "(st', n', m') \<in> set (next_life e (st, n, m))" and "e \<noteq> Heartbeat" and "n' \<le> m'"
  shows "life_measure (st', n', m') < life_measure (st, n, m)"
  using assms by (cases e; cases st) (auto simp: terminal_def split: if_splits)

lemma next_life_heartbeat:
  assumes "b \<in> set (next_life Heartbeat a)"
  shows "b = a"
proof -
  obtain st n m where "a = (st, n, m)" by (cases a rule: prod_cases3)
  with assms show ?thesis by (cases st) simp_all
qed

subsection \<open>Drivers refine the specification\<close>

lemma spec_step_refl: "spec_step x A A"
  by (simp add: spec_step_def)

lemma rows_step_refines:
  assumes "rows_step {e} P (xs :: job list) ys" and "call_event x = Some e"
    and "\<And>r. P r \<Longrightarrow> call_about x (j_id r)"
  shows "spec_step x (lives xs) (lives ys)"
  unfolding spec_step_def
proof
  fix i
  from rows_step_lives [OF assms(1), of i]
  show "lives ys i = lives xs i
     \<or> (\<exists>a b e. lives xs i = Some a \<and> lives ys i = Some b \<and> call_about x i \<and> call_event x = Some e
          \<and> b \<in> set (next_life e a))
     \<or> (\<exists>b. lives xs i = None \<and> lives ys i = Some b \<and> born x b)"
  proof (elim disjE)
    assume "\<exists>r f. lookup_job i xs = Some r \<and> P r \<and> f \<in> {e} \<and> lives xs i = Some (life_of r)
       \<and> (\<exists>b. lives ys i = Some b \<and> b \<in> set (next_life f (life_of r)))"
    then obtain r b where "lookup_job i xs = Some r" "P r" "lives xs i = Some (life_of r)"
      "lives ys i = Some b" "b \<in> set (next_life e (life_of r))" by auto
    with assms(2,3) find_key_Some [of j_id i xs r] show ?thesis by auto
  qed simp
qed

lemma appends_fresh_refines:
  assumes "appends_fresh xs ys"
  shows "spec_step (CallCreate opts) (lives xs) (lives ys)"
proof -
  have one: "lookup_job i [r] = (if j_id r = i then Some r else None)" for r i
    by (simp add: find_key_def)
  have "lives (xs @ [r]) i = lives xs i \<or> (lives xs i = None \<and> lives (xs @ [r]) i = Some (life_of r))" for r i
    by (cases "lookup_job i xs") (simp_all add: lives_def find_key_append one)
  moreover have "born (CallCreate opts) (life_of r)" if "fresh_job r" for r
    using that by (auto simp: life_of_def fresh_job_def)
  ultimately show ?thesis using assms unfolding appends_fresh_def spec_step_def by blast
qed

context job_driver begin

lemma apply_refines:
  assumes "call_ok x" and "ids_ok (table s)"
  shows "spec_step x (lives (table s)) (lives (table (apply_call D c x s)))"
proof (cases x)
  case (CallCreate opts)
  with assms(1) show ?thesis using appends_fresh_refines [OF create_rows] by simp
next
  case (CallClaim q w)
  then show ?thesis using rows_step_refines [OF claim_rows [OF assms(2)], of x] by simp
next
  case (CallComplete i v)
  then show ?thesis using rows_step_refines [OF complete_rows, of x i] by simp
next
  case (CallFail i m b)
  then show ?thesis using rows_step_refines [OF fail_rows, of x i] by simp
next
  case (CallHeartbeat i p)
  then show ?thesis using rows_step_refines [OF heartbeat_rows, of x i] by simp
next
  case (CallCancel i)
  then show ?thesis using rows_step_refines [OF cancel_rows, of x i] by simp
next
  case (CallPromote i)
  then show ?thesis using rows_step_refines [OF promote_rows, of x i] by simp
next
  case (CallPromoteScheduled n)
  then show ?thesis using rows_step_refines [OF promote_scheduled_rows [OF assms(2)], of x] by simp
next
  case (CallFailExpired n)
  then show ?thesis using rows_step_refines [OF fail_expired_rows [OF assms(2)], of x] by simp
qed (simp_all add: pause_step resume_step spec_step_refl)

end

subsection \<open>How often a life can change\<close>

text \<open>The number of calls of a run that change the life of job \<open>i\<close>.\<close>

fun life_changes ::
  "'s driver \<Rightarrow> ('s \<Rightarrow> job list) \<Rightarrow> string \<Rightarrow> (call_env \<times> driver_call) list \<Rightarrow> 's \<Rightarrow> nat" where
  "life_changes D table i [] s = 0"
| "life_changes D table i ((c, x) # xs) s =
     (let s' = apply_call D c x s in
      (if lives (table s') i = lives (table s) i then 0 else 1) + life_changes D table i xs s')"

lemma lives_ok:
  assumes "table_ok xs" and "lives xs i = Some (st, n, m)"
  shows "n \<le> m"
proof -
  from assms(2) obtain r where "lookup_job i xs = Some r" and r: "life_of r = (st, n, m)"
    by (auto simp: lives_def)
  with assms(1) find_key_Some [of j_id i xs r] have "job_ok r" by (auto simp: table_ok_def)
  with r show ?thesis by (auto simp: life_of_def job_ok_def)
qed

lemma spec_step_measure:
  assumes "spec_step x (lives xs) (lives ys)" and "table_ok ys" and "lives xs i = Some a"
  obtains "lives ys i = Some a" | b where "lives ys i = Some b" and "life_measure b < life_measure a"
proof (cases "lives ys i = lives xs i")
  case True
  with assms(3) that(1) show ?thesis by simp
next
  case False
  with assms(1,3) obtain b e where b: "lives ys i = Some b" "b \<in> set (next_life e a)"
    unfolding spec_step_def by (metis option.distinct(1) option.inject)
  with False assms(3) next_life_heartbeat [of b a] have e: "e \<noteq> Heartbeat" by (cases e) simp_all
  obtain st n m st' n' m' where ab: "a = (st, n, m)" "b = (st', n', m')"
    by (cases a rule: prod_cases3; cases b rule: prod_cases3)
  with b(1) assms(2) have "n' \<le> m'" by (auto dest: lives_ok)
  with b(2) e next_life_measure have "life_measure b < life_measure a" by (simp only: ab)
  with b(1) that(2) show ?thesis by simp
qed

context job_driver begin

lemma life_changes_bound:
  assumes "\<forall>x \<in> set xs. call_ok (snd x)" and "table_ok (table s)" and "lives (table s) i = Some a"
  shows "life_changes D table i xs s \<le> life_measure a"
  using assms
proof (induction xs arbitrary: s a)
  case (Cons z xs)
  obtain c x where z: "z = (c, x)" by (cases z)
  let ?s' = "apply_call D c x s"
  from Cons.prems z have x: "call_ok x" and xs: "\<forall>x \<in> set xs. call_ok (snd x)" by simp_all
  have ids: "ids_ok (table s)" using Cons.prems(2) by (rule table_ok_ids)
  have ok: "table_ok (table ?s')"
    using apply_call_step [OF x ids] Cons.prems(2) by (rule table_step_ok)
  show ?case
  proof (rule spec_step_measure [OF apply_refines [OF x ids] ok Cons.prems(3)])
    assume "lives (table ?s') i = Some a"
    with Cons.IH [OF xs ok this] Cons.prems(3) z show ?thesis by (simp add: Let_def)
  next
    fix b
    assume "lives (table ?s') i = Some b" and "life_measure b < life_measure a"
    with Cons.IH [OF xs ok this(1)] z show ?thesis by (simp add: Let_def)
  qed
qed simp

end

end
