(* ===== verification/Life_Props.thy ===== *)
theory Life_Props
  imports Life_Spec Service_Props
begin

text \<open>
  The life cycle of README.md as a specification that both drivers refine, and its consequence
  that no job is worked on for ever.
\<close>

text \<open>C5. Refinement of the life cycle: seen through the abstraction that keeps of every job only
  its status, its attempts and its allowance, any call of either driver, whatever the database
  does to it, is one step of the abstract automaton: a job that the call is about takes exactly
  the event of that call (a claim counts one attempt; a failure or an expired lock leads to a
  retry or, with no attempt left, to discarded), every other job keeps its life, and only
  creating brings a new life, unclaimed and in one of the three initial statuses.\<close>

theorem driver_refines_spec:
  assumes "is_backend D" and "call_ok x" and "ids_ok (jobs s)"
  shows "spec_step x (lives (jobs s)) (lives (jobs (apply_call D c x s)))"
  using assms by (auto elim!: is_backendE intro: pg.apply_refines sqlite.apply_refines)

lemma driver_refines_spec_witness:
  "spec_step (CallFail ''r'' ''boom'' 500) (lives (jobs sample_db))
     (lives (jobs (apply_call (pg_driver sample_pg) sample_env (CallFail ''r'' ''boom'' 500) sample_db)))
   \<and> lives (jobs sample_db) ''r'' = Some (Running, 1, 3)
   \<and> lives (jobs (apply_call (pg_driver sample_pg) sample_env (CallFail ''r'' ''boom'' 500) sample_db)) ''r''
       = Some (Retryable, 1, 3)"
proof (intro conjI)
  show "spec_step (CallFail ''r'' ''boom'' 500) (lives (jobs sample_db))
     (lives (jobs (apply_call (pg_driver sample_pg) sample_env (CallFail ''r'' ''boom'' 500) sample_db)))"
    by (rule driver_refines_spec) (simp_all add: sample_ids_ok)
  show "lives (jobs sample_db) ''r'' = Some (Running, 1, 3)" by code_simp
  show "lives (jobs (apply_call (pg_driver sample_pg) sample_env (CallFail ''r'' ''boom'' 500) sample_db)) ''r''
       = Some (Retryable, 1, 3)" by code_simp
qed

text \<open>C6. Termination of the life cycle: on either backend and under any sequence of calls, of
  clients, workers and schedulers, in any order and with any failures, the life of a job
  (status, attempts) changes at most three times for every attempt it has left, and at most
  three times more, fewer by its status; from then on no call changes it. In particular no
  failing job is retried for ever.\<close>

theorem job_life_bounded:
  assumes "is_backend D" and "\<forall>x \<in> set xs. call_ok (snd x)" and "table_ok (jobs s)"
    and "lookup_job i (jobs s) = Some r"
  shows "int (life_changes D jobs i xs s)
    \<le> 3 * (j_max_attempts r - j_attempt r) + status_rank (j_status r)"
proof -
  have a: "lives (jobs s) i = Some (j_status r, j_attempt r, j_max_attempts r)"
    using assms(4) by (simp add: lives_def life_of_def)
  have "life_changes D jobs i xs s \<le> life_measure (j_status r, j_attempt r, j_max_attempts r)"
    using assms(1) pg.life_changes_bound [OF assms(2,3) a] sqlite.life_changes_bound [OF assms(2,3) a]
    by (auto elim!: is_backendE)
  moreover have "j_attempt r \<le> j_max_attempts r" using lives_ok [OF assms(3) a] .
  moreover have "0 \<le> status_rank (j_status r)" by (cases "j_status r") simp_all
  ultimately show ?thesis by simp
qed

lemma job_life_bounded_witness:
  "int (life_changes (pg_driver sample_pg) jobs ''01j''
       [(sample_env, CallClaim ''q'' ''w''), (sample_env, CallFail ''01j'' ''boom'' 0),
        (sample_env, CallPromoteScheduled 10), (sample_env, CallClaim ''q'' ''w''),
        (sample_env, CallFail ''01j'' ''boom'' 0), (sample_env, CallPromoteScheduled 10)]
       (apply_call (pg_driver sample_pg) sample_env (CallCreate sample_opts) empty_db)) \<le> 7
   \<and> life_changes (pg_driver sample_pg) jobs ''01j''
       [(sample_env, CallClaim ''q'' ''w''), (sample_env, CallFail ''01j'' ''boom'' 0),
        (sample_env, CallPromoteScheduled 10), (sample_env, CallClaim ''q'' ''w''),
        (sample_env, CallFail ''01j'' ''boom'' 0), (sample_env, CallPromoteScheduled 10)]
       (apply_call (pg_driver sample_pg) sample_env (CallCreate sample_opts) empty_db) = 5"
  (is "?A \<and> ?B")
proof
  let ?s = "apply_call (pg_driver sample_pg) sample_env (CallCreate sample_opts) empty_db"
  have ok: "table_ok (jobs ?s)"
    by (rule table_step_ok [OF pg.apply_call_step]) (simp_all add: sample_opts_def empty_db_def ids_ok_def)
  have "map_option (\<lambda>r. (j_status r, j_attempt r, j_max_attempts r)) (lookup_job ''01j'' (jobs ?s))
      = Some (Available, 0, 2)" by code_simp
  then obtain r where "lookup_job ''01j'' (jobs ?s) = Some r"
    and "j_status r = Available" "j_attempt r = 0" "j_max_attempts r = 2" by auto
  with job_life_bounded [OF _ _ ok this(1), of "pg_driver sample_pg"
      "[(sample_env, CallClaim ''q'' ''w''), (sample_env, CallFail ''01j'' ''boom'' 0),
        (sample_env, CallPromoteScheduled 10), (sample_env, CallClaim ''q'' ''w''),
        (sample_env, CallFail ''01j'' ''boom'' 0), (sample_env, CallPromoteScheduled 10)]"]
  show ?A by simp
  show ?B by code_simp
qed

end
