(* ===== verification/Validate.thy ===== *)
theory Validate
  imports Auth Queue_Service
begin

text \<open>
  The request messages with the rules that \<open>proto/stevy/v1/*.proto\<close> annotates them with, and
  the interceptor \<open>internal/middleware/validate.go\<close> that has every received message checked. The
  checker is the third-party \<open>protovalidate\<close>, a parameter: \<open>None\<close> when it accepts a message, else
  the text of its error.
\<close>

datatype request_message =
    CreateJobRequest create_job_request
  | ClaimJobRequest string
  | CompleteJobRequest string "(string \<times> json) list"
  | FailJobRequest string string
  | HeartbeatJobRequest string "int option"
  | CancelJobRequest string
  | PromoteJobRequest string
  | ListJobsRequest "string option" "string option" "int option" "string option"
  | GetJobRequest string
  | GetJobStateRequest string
  | ListQueuesRequest
  | GetQueueRequest string
  | PauseQueueRequest string
  | ResumeQueueRequest string

subsection \<open>The patterns\<close>

definition char_in :: "char \<Rightarrow> char \<Rightarrow> char \<Rightarrow> bool" where
  "char_in lo hi c \<longleftrightarrow> (of_char lo :: nat) \<le> of_char c \<and> of_char c \<le> (of_char hi :: nat)"

text \<open>\<open>^[a-z0-9]+(?:[_-][a-z0-9]+)*$\<close>: \<open>word_first\<close> before the first character of a word,
  \<open>word_rest\<close> after it.\<close>

definition name_char :: "char \<Rightarrow> bool" where
  "name_char c \<longleftrightarrow> char_in CHR ''a'' CHR ''z'' c \<or> char_in CHR ''0'' CHR ''9'' c"

fun word_first :: "string \<Rightarrow> bool" and word_rest :: "string \<Rightarrow> bool" where
  "word_first [] = False"
| "word_first (c # s) = (name_char c \<and> word_rest s)"
| "word_rest [] = True"
| "word_rest (c # s) = ((name_char c \<and> word_rest s) \<or> ((c = CHR ''_'' \<or> c = CHR ''-'') \<and> word_first s))"

definition queue_name_ok :: "string \<Rightarrow> bool" where
  "queue_name_ok s \<longleftrightarrow> word_first s \<and> 1 \<le> length s \<and> length s \<le> 64"

text \<open>\<open>^[0-7][0-9a-hjkmnp-tv-z]{25}$\<close>.\<close>

definition ulid_char :: "char \<Rightarrow> bool" where
  "ulid_char c \<longleftrightarrow> char_in CHR ''0'' CHR ''9'' c \<or> char_in CHR ''a'' CHR ''h'' c \<or> c = CHR ''j''
     \<or> c = CHR ''k'' \<or> c = CHR ''m'' \<or> c = CHR ''n'' \<or> char_in CHR ''p'' CHR ''t'' c
     \<or> char_in CHR ''v'' CHR ''z'' c"

fun job_id_ok :: "string \<Rightarrow> bool" where
  "job_id_ok [] = False"
| "job_id_ok (c # s) = (char_in CHR ''0'' CHR ''7'' c \<and> length s = 25 \<and> list_all ulid_char s)"

definition status_in :: "string \<Rightarrow> bool" where
  "status_in s \<longleftrightarrow> s \<in> set (map status_name all_statuses)"

subsection \<open>The rules of each message\<close>

definition backoff_rules :: "backoff_options \<Rightarrow> bool" where
  "backoff_rules bo \<longleftrightarrow> bo_type bo \<in> {''fixed'', ''exponential''} \<and> 0 \<le> bo_delay bo"

definition options_rules :: "job_options \<Rightarrow> bool" where
  "options_rules jo \<longleftrightarrow> 0 \<le> jo_delay jo \<and> 0 \<le> jo_attempts jo
     \<and> 0 \<le> jo_priority jo \<and> jo_priority jo \<le> 100
     \<and> (case jo_backoff jo of None \<Rightarrow> True | Some bo \<Rightarrow> backoff_rules bo)"

definition create_rules :: "create_job_request \<Rightarrow> bool" where
  "create_rules m \<longleftrightarrow> queue_name_ok (cr_queue m) \<and> cr_kind m \<noteq> []
     \<and> (case cr_options m of None \<Rightarrow> True | Some jo \<Rightarrow> options_rules jo)"

text \<open>A rule on an \<open>optional\<close> field applies only when the field is set.\<close>

definition when_set :: "('a \<Rightarrow> bool) \<Rightarrow> 'a option \<Rightarrow> bool" where
  "when_set P v = (case v of None \<Rightarrow> True | Some x \<Rightarrow> P x)"

fun message_rules :: "request_message \<Rightarrow> bool" where
  "message_rules (CreateJobRequest m) = create_rules m"
| "message_rules (ClaimJobRequest q) = queue_name_ok q"
| "message_rules (CompleteJobRequest i _) = job_id_ok i"
| "message_rules (FailJobRequest i msg) = (job_id_ok i \<and> msg \<noteq> [])"
| "message_rules (HeartbeatJobRequest i p) = (job_id_ok i \<and> when_set (\<lambda>x. 0 \<le> x \<and> x \<le> 100) p)"
| "message_rules (CancelJobRequest i) = job_id_ok i"
| "message_rules (PromoteJobRequest i) = job_id_ok i"
| "message_rules (ListJobsRequest st q lim a) =
     (when_set status_in st \<and> when_set queue_name_ok q \<and> when_set (\<lambda>x. 1 \<le> x \<and> x \<le> 250) lim
      \<and> when_set job_id_ok a)"
| "message_rules (GetJobRequest i) = job_id_ok i"
| "message_rules (GetJobStateRequest i) = job_id_ok i"
| "message_rules ListQueuesRequest = True"
| "message_rules (GetQueueRequest q) = queue_name_ok q"
| "message_rules (PauseQueueRequest q) = queue_name_ok q"
| "message_rules (ResumeQueueRequest q) = queue_name_ok q"

subsection \<open>The interceptor\<close>

text \<open>\<open>validatingStream.Receive\<close>, over the \<open>Receive\<close> of the wrapped stream.\<close>

definition validating_Receive ::
  "(request_message \<Rightarrow> string option) \<Rightarrow> rpc_error + request_message \<Rightarrow> rpc_error + request_message" where
  "validating_Receive validate inner =
     (case inner of Inl e \<Rightarrow> Inl e
      | Inr m \<Rightarrow> (case validate m of Some e \<Rightarrow> Inl (RpcError CodeInvalidArgument e) | None \<Rightarrow> Inr m))"

text \<open>What the rules promise of a validator: it accepts no message that breaks them.\<close>

definition enforces_rules :: "(request_message \<Rightarrow> string option) \<Rightarrow> bool" where
  "enforces_rules validate \<longleftrightarrow> (\<forall>m. validate m = None \<longrightarrow> message_rules m)"

end
