(* ===== verification/Server.thy ===== *)
theory Server
  imports Main_Cmd Validate
begin

text \<open>
  The process of \<open>stevy serve\<close> (\<open>cmdServe\<close> in \<open>cmd/stevy/main.go\<close>): the RPC server with its two
  interceptors, the routes of the HTTP server with \<open>net/http\<close>'s choice between them, and what
  each endpoint does to the database. Decoding an RPC from its HTTP form is the work of the
  Connect and Vanguard libraries: a request carries the decoded message.
\<close>

subsection \<open>The RPC server\<close>

datatype rpc_response =
    JobResponse proto_job
  | ClaimResponse "proto_job option"
  | JobsResponse "proto_job list"
  | StateResponse job_state
  | QueuesResponse "proto_queue list"
  | QueueResponse proto_queue
  | EmptyResponse

text \<open>What a request observes: the environments of its database calls in their order, the clock
  of its handler, what others do to the database between the first call and the second, and
  the random bytes drawn.\<close>

record exec_env =
  x_first :: call_env
  x_second :: call_env
  x_third :: call_env
  x_now :: int
  x_between :: "database \<Rightarrow> database"
  x_random :: "string option"

definition map_response ::
  "('a \<Rightarrow> 'b) \<Rightarrow> ('s, 'e, 'a) call_result \<Rightarrow> ('s, 'e, 'b) call_result" where
  "map_response f x = (case x of (Inl e, s) \<Rightarrow> (Inl e, s) | (Inr v, s) \<Rightarrow> (Inr (f v), s))"

text \<open>The getter of an unset \<open>optional\<close> string is empty.\<close>

definition get_string :: "string option \<Rightarrow> string" where
  "get_string v = (case v of None \<Rightarrow> [] | Some s \<Rightarrow> s)"

definition get_int :: "int option \<Rightarrow> int" where
  "get_int v = (case v of None \<Rightarrow> 0 | Some n \<Rightarrow> n)"

text \<open>The generated handlers call the method of the service with the received message.\<close>

fun dispatch ::
  "database driver \<Rightarrow> go_rt \<Rightarrow> exec_env \<Rightarrow> req_context \<Rightarrow> request_message \<Rightarrow> (database, rpc_response) handler" where
  "dispatch D rt x ctx (CreateJobRequest m) s =
     map_response JobResponse (svc_CreateJob D rt m (x_now x) (x_second x) s)"
| "dispatch D rt x ctx (ClaimJobRequest q) s =
     map_response ClaimResponse (svc_ClaimJob D rt ctx q (x_second x) s)"
| "dispatch D rt x ctx (CompleteJobRequest i v) s =
     map_response (\<lambda>_. EmptyResponse) (svc_CompleteJob D i v (x_second x) s)"
| "dispatch D rt x ctx (FailJobRequest i m) s =
     map_response (\<lambda>_. EmptyResponse) (svc_FailJob D rt i m (x_second x) (x_between x) (x_third x) s)"
| "dispatch D rt x ctx (HeartbeatJobRequest i p) s =
     map_response (\<lambda>_. EmptyResponse) (svc_HeartbeatJob D i p (x_second x) s)"
| "dispatch D rt x ctx (CancelJobRequest i) s =
     map_response (\<lambda>_. EmptyResponse) (svc_CancelJob D i (x_second x) s)"
| "dispatch D rt x ctx (PromoteJobRequest i) s =
     map_response (\<lambda>_. EmptyResponse) (svc_PromoteJob D i (x_second x) s)"
| "dispatch D rt x ctx (ListJobsRequest st q lim a) s =
     map_response JobsResponse
       (svc_ListJobs D rt (get_string q) (get_string st) (get_int lim) (get_string a) (x_second x) s)"
| "dispatch D rt x ctx (GetJobRequest i) s =
     map_response JobResponse (svc_GetJob D rt i (x_second x) s)"
| "dispatch D rt x ctx (GetJobStateRequest i) s =
     map_response StateResponse (svc_GetJobState D i (x_second x) s)"
| "dispatch D rt x ctx ListQueuesRequest s =
     map_response QueuesResponse (svc_ListQueues D (x_second x) s)"
| "dispatch D rt x ctx (GetQueueRequest q) s =
     map_response QueueResponse (svc_GetQueue D q (x_second x) s)"
| "dispatch D rt x ctx (PauseQueueRequest q) s =
     map_response (\<lambda>_. EmptyResponse) (svc_PauseQueue D q (x_second x) s)"
| "dispatch D rt x ctx (ResumeQueueRequest q) s =
     map_response (\<lambda>_. EmptyResponse) (svc_ResumeQueue D q (x_second x) s)"

fun procedure_of :: "request_message \<Rightarrow> string" where
  "procedure_of (CreateJobRequest _) = ''/stevy.v1.JobService/CreateJob''"
| "procedure_of (ClaimJobRequest _) = ''/stevy.v1.JobService/ClaimJob''"
| "procedure_of (CompleteJobRequest _ _) = ''/stevy.v1.JobService/CompleteJob''"
| "procedure_of (FailJobRequest _ _) = ''/stevy.v1.JobService/FailJob''"
| "procedure_of (HeartbeatJobRequest _ _) = ''/stevy.v1.JobService/HeartbeatJob''"
| "procedure_of (CancelJobRequest _) = ''/stevy.v1.JobService/CancelJob''"
| "procedure_of (PromoteJobRequest _) = ''/stevy.v1.JobService/PromoteJob''"
| "procedure_of (ListJobsRequest _ _ _ _) = ''/stevy.v1.JobService/ListJobs''"
| "procedure_of (GetJobRequest _) = ''/stevy.v1.JobService/GetJob''"
| "procedure_of (GetJobStateRequest _) = ''/stevy.v1.JobService/GetJobState''"
| "procedure_of ListQueuesRequest = ''/stevy.v1.QueueService/ListQueues''"
| "procedure_of (GetQueueRequest _) = ''/stevy.v1.QueueService/GetQueue''"
| "procedure_of (PauseQueueRequest _) = ''/stevy.v1.QueueService/PauseQueue''"
| "procedure_of (ResumeQueueRequest _) = ''/stevy.v1.QueueService/ResumeQueue''"

text \<open>What \<open>cmdServe\<close> puts together: backend, keys, validator, sign-in client, the
  patterns that the Connect library mounts, and the names in the \<open>public\<close> directory.\<close>

record app =
  a_dialect :: dialect
  a_driver :: "database driver"
  a_mac :: "string \<Rightarrow> string"
  a_sha :: "string \<Rightarrow> string"
  a_rt :: go_rt
  a_validate :: "request_message \<Rightarrow> string option"
  a_domains :: "string list"
  a_exchange :: "string \<Rightarrow> string + string"
  a_userinfo :: "string \<Rightarrow> string + google_user"
  a_auth_url :: "string \<Rightarrow> string"
  a_fmt :: "int \<Rightarrow> string"
  a_time_text :: "int \<Rightarrow> string option"
  a_float_text :: "string \<Rightarrow> string option"
  a_column_text :: "json \<Rightarrow> string"
  a_mounts :: "string list"
  a_public :: "string list"
  a_openapi :: bool

text \<open>\<open>connect.NewServer(apiAuth, validate)\<close>: the first interceptor is the outer one; the message
  is received, and checked, inside the call of the handler. \<open>received\<close> is what the stream of the
  call for procedure \<open>proc\<close> gives.\<close>

definition rpc_call ::
  "app \<Rightarrow> exec_env \<Rightarrow> string \<Rightarrow> string \<Rightarrow> rpc_error + request_message \<Rightarrow> (database, rpc_response) handler" where
  "rpc_call a x authHdr proc received s =
     APIKeyInterceptor (a_dialect a) (a_sha a)
       (\<lambda>ctx s1. case validating_Receive (a_validate a) received of
           Inl e \<Rightarrow> (Inl e, s1)
         | Inr m \<Rightarrow> dispatch (a_driver a) (a_rt a) x ctx m s1)
       empty_context authHdr proc (x_first x) s"

subsection \<open>Patterns of the HTTP server\<close>

text \<open>The patterns of \<open>http.ServeMux\<close>: an optional method, and a path of literal segments and
  wildcards that names one resource or, when it ends in a slash, everything below it.\<close>

datatype segment = Lit string | Wild

record route =
  r_method :: "string option"
  r_segs :: "segment list"
  r_subtree :: bool

definition parse_segment :: "string \<Rightarrow> segment" where
  "parse_segment s = (if has_prefix s ''{'' \<and> has_suffix s ''}'' then Wild else Lit s)"

text \<open>A path without its leading slash, cut at the slashes; a trailing slash leaves an empty last
  segment.\<close>

definition path_segments :: "string \<Rightarrow> string list" where
  "path_segments path = split_on CHR ''/'' (trim_prefix path ''/'')"

definition parse_pattern :: "string \<Rightarrow> route" where
  "parse_pattern pat =
     (let (m, path) = (case cut pat CHR '' '' of None \<Rightarrow> (None, pat) | Some (a, b) \<Rightarrow> (Some a, b));
          segs = path_segments path
      in \<lparr>r_method = m, r_segs = map parse_segment (if last segs = [] then butlast segs else segs),
          r_subtree = (last segs = [])\<rparr>)"

fun segs_match :: "segment list \<Rightarrow> bool \<Rightarrow> string list \<Rightarrow> bool" where
  "segs_match [] sub path = (if sub then path \<noteq> [] else path = [])"
| "segs_match (p # ps) sub [] = False"
| "segs_match (Lit l # ps) sub (s # path) = (l = s \<and> segs_match ps sub path)"
| "segs_match (Wild # ps) sub (s # path) = (s \<noteq> [] \<and> segs_match ps sub path)"

text \<open>Literals go before wildcards, and those before the end of a subtree pattern, from left to
  right.\<close>

definition specificity :: "route \<Rightarrow> nat list" where
  "specificity r = map (\<lambda>g. case g of Lit _ \<Rightarrow> 0 | Wild \<Rightarrow> 1) (r_segs r) @ (if r_subtree r then [2] else [])"

text \<open>The routes of the request's own method come first, then for \<open>HEAD\<close> those of \<open>GET\<close>, then those
  of any method.\<close>

definition with_method :: "string option \<Rightarrow> (route \<times> 'e) list \<Rightarrow> string list \<Rightarrow> (route \<times> 'e) list" where
  "with_method m rs path =
     filter (\<lambda>(r, e). r_method r = m \<and> segs_match (r_segs r) (r_subtree r) path) rs"

definition best_match :: "(route \<times> 'e) list \<Rightarrow> (route \<times> 'e) option" where
  "best_match rs = (case sort_key (\<lambda>(r, e). specificity r) rs of [] \<Rightarrow> None | x # _ \<Rightarrow> Some x)"

definition mux_match :: "(route \<times> 'e) list \<Rightarrow> string \<Rightarrow> string list \<Rightarrow> (route \<times> 'e) option" where
  "mux_match rs meth path =
     (case best_match (with_method (Some meth) rs path) of Some x \<Rightarrow> Some x
      | None \<Rightarrow>
        (case (if meth = ''HEAD'' then best_match (with_method (Some ''GET'') rs path) else None) of
           Some x \<Rightarrow> Some x
         | None \<Rightarrow> best_match (with_method None rs path)))"

text \<open>\<open>cleanPath\<close> leaves a path alone when no segment is \<open>.\<close> or \<open>..\<close> and only the last may be
  empty.\<close>

definition clean_segments :: "string list \<Rightarrow> bool" where
  "clean_segments path \<longleftrightarrow> (\<forall>s \<in> set path. s \<noteq> ''.'' \<and> s \<noteq> ''..'') \<and> [] \<notin> set (butlast path)"

definition exact_match :: "route \<Rightarrow> string list \<Rightarrow> bool" where
  "exact_match r path \<longleftrightarrow> \<not> r_subtree r \<or> (last path = [] \<and> length path = length (r_segs r) + 1)"

datatype 'e mux_choice = MuxRedirect | MuxNotFound | MuxHandler route 'e

text \<open>\<open>findHandler\<close>: a path that is not clean is redirected; so is one without a trailing slash
  that only names something with it.\<close>

definition mux_route :: "(route \<times> 'e) list \<Rightarrow> string \<Rightarrow> string \<Rightarrow> 'e mux_choice" where
  "mux_route rs meth path =
     (let p = path_segments path;
          slash = (case mux_match rs meth (p @ [[]]) of None \<Rightarrow> False | Some (r, e) \<Rightarrow> exact_match r (p @ [[]]))
      in if \<not> clean_segments p then MuxRedirect
         else (case mux_match rs meth p of
             None \<Rightarrow> if last p \<noteq> [] \<and> slash then MuxRedirect else MuxNotFound
           | Some (r, e) \<Rightarrow>
               if \<not> exact_match r p \<and> last p \<noteq> [] \<and> slash then MuxRedirect
               else MuxHandler r e))"

text \<open>The values of the wildcards, in their order.\<close>

fun wild_values :: "segment list \<Rightarrow> string list \<Rightarrow> string list" where
  "wild_values (Wild # ps) (s # path) = s # wild_values ps path"
| "wild_values (Lit _ # ps) (s # path) = wild_values ps path"
| "wild_values _ _ = []"

subsection \<open>The routes\<close>

datatype endpoint = EpRpc | EpRest | EpLogin | EpCallback | EpLogout
  | EpKeysCreate | EpKeysList | EpKeysDelete | EpRunScheduler | EpPauseQueue | EpResumeQueue
  | EpQueuesPage | EpWorkersPage | EpWorkersJSON | EpCreateWorker | EpDeleteWorker
  | EpKeysPage | EpJobPage | EpIndex | EpOpenAPI | EpPublic

definition oauth_RegisterRoutes :: "(string \<times> endpoint) list" where
  "oauth_RegisterRoutes =
     [(''/auth/google/login'', EpLogin), (''/auth/google/callback'', EpCallback),
      (''/auth/logout'', EpLogout)]"

definition keys_RegisterRoutes :: "(string \<times> endpoint) list" where
  "keys_RegisterRoutes =
     [(''POST /keys'', EpKeysCreate), (''GET /keys/list'', EpKeysList),
      (''DELETE /keys/{id}'', EpKeysDelete)]"

text \<open>The routes of \<open>cmdServe\<close> in the order of their registration. A public file is served under
  its name unless that begins with a dot or is the API description, which has its own route.\<close>

definition web_patterns :: "(string \<times> endpoint) list" where
  "web_patterns =
     [(''POST /scheduler/run'', EpRunScheduler),
      (''POST /queues/{name}/pause'', EpPauseQueue),
      (''POST /queues/{name}/resume'', EpResumeQueue),
      (''GET /queues'', EpQueuesPage),
      (''GET /workers'', EpWorkersPage),
      (''GET /workers/list'', EpWorkersJSON),
      (''POST /workers'', EpCreateWorker),
      (''DELETE /workers/{id}'', EpDeleteWorker),
      (''GET /keys'', EpKeysPage),
      (''GET /{id}'', EpJobPage),
      (''/'', EpIndex)]"

definition public_patterns :: "app \<Rightarrow> (string \<times> endpoint) list" where
  "public_patterns a =
     (if a_openapi a then [(''GET /openapi.yaml'', EpOpenAPI)] else []) @
     map (\<lambda>n. (''GET /'' @ n, EpPublic))
       (filter (\<lambda>n. \<not> has_prefix n ''.'' \<and> n \<noteq> ''openapi.yaml'') (a_public a))"

definition serve_patterns :: "app \<Rightarrow> (string \<times> endpoint) list" where
  "serve_patterns a =
     map (\<lambda>p. (p, EpRpc)) (a_mounts a) @ [(''/v1/'', EpRest)] @
     oauth_RegisterRoutes @ keys_RegisterRoutes @ web_patterns @ public_patterns a"

definition serve_routes :: "app \<Rightarrow> (route \<times> endpoint) list" where
  "serve_routes a = map (\<lambda>(p, e). (parse_pattern p, e)) (serve_patterns a)"

subsection \<open>One request\<close>

text \<open>What the handlers read of a request: cookies, the \<open>Authorization\<close> header, the query
  parameters, the body, and, for an RPC, the procedure with what its
  stream gives (\<open>None\<close> when Connect or Vanguard find no procedure for it).\<close>

record http_request =
  hr_method :: string
  hr_path :: string
  hr_cookies :: request_cookies
  hr_auth :: string
  hr_state :: string
  hr_code :: string
  hr_status :: string
  hr_after :: string
  hr_body :: string
  hr_rpc :: "(string \<times> (rpc_error + request_message)) option"

datatype page = QueuesPage "proto_queue list" | WorkersPage user_row | KeysPage user_row | JobPage job_page_data

text \<open>An answer of the API with status and body, one of the pages with the data handed to its
  template, or one of the others.\<close>

datatype outcome =
    HttpOutcome nat string
  | PageOutcome "page http_response"
  | CookieOutcome nat "cookie option"
  | RpcOutcome "rpc_error + rpc_response"
  | NoProcedure
  | RedirectOutcome
  | FileOutcome
  | IndexOutcome index_page

fun status_code :: "'b http_response \<Rightarrow> nat" where
  "status_code (HttpError n _) = n"
| "status_code (HttpBody n _) = n"
| "status_code HttpNoContent = 204"
| "status_code (HttpRedirect n _) = n"

lemma status_code_map [simp]: "status_code (map_http_response f r) = status_code r"
  by (cases r) simp_all

text \<open>\<open>http.Error\<close> ends its text with a newline; a redirect of a POST has no body.\<close>

fun body_text :: "string http_response \<Rightarrow> string" where
  "body_text (HttpError _ m) = m @ [CHR 0x0A]"
| "body_text (HttpBody _ b) = b"
| "body_text HttpNoContent = []"
| "body_text (HttpRedirect _ _) = []"

definition http_outcome :: "string http_response \<times> database \<Rightarrow> outcome \<times> database" where
  "http_outcome x = (HttpOutcome (status_code (fst x)) (body_text (fst x)), snd x)"

definition page_outcome :: "('b \<Rightarrow> page) \<Rightarrow> 'b http_response \<times> database \<Rightarrow> outcome \<times> database" where
  "page_outcome f x = (PageOutcome (map_http_response f (fst x)), snd x)"

definition cookie_outcome ::
  "('b http_response \<times> cookie option) \<times> database \<Rightarrow> outcome \<times> database" where
  "cookie_outcome x = (CookieOutcome (status_code (fst (fst x))) (snd (fst x)), snd x)"

text \<open>The pages rendered: the handlers name one of the composed pages, the sign-in page stands alone.\<close>

datatype view = JobsView page_data | PageView page | LoginView

fun page_name :: "page \<Rightarrow> string" where
  "page_name (QueuesPage _) = ''queues''"
| "page_name (WorkersPage _) = ''workers''"
| "page_name (KeysPage _) = ''keys''"
| "page_name (JobPage _) = ''job''"

fun rendered_page ::
  "(string list \<Rightarrow> view \<Rightarrow> string \<times> string option) \<Rightarrow> page http_response \<Rightarrow> string http_response" where
  "rendered_page ex (HttpBody n p) = renderPage ex (page_name p) (PageView p)"
| "rendered_page ex (HttpError n m) = HttpError n m"
| "rendered_page ex HttpNoContent = HttpNoContent"
| "rendered_page ex (HttpRedirect n to) = HttpRedirect n to"

fun rendered ::
  "(string list \<Rightarrow> view \<Rightarrow> string \<times> string option) \<Rightarrow> outcome \<Rightarrow> string http_response option" where
  "rendered ex (PageOutcome r) = Some (rendered_page ex r)"
| "rendered ex (IndexOutcome PageNotFound) = Some (HttpError 404 ''404 page not found'')"
| "rendered ex (IndexOutcome LoginPage) = Some (renderStandalone ex ''login.html'' LoginView)"
| "rendered ex (IndexOutcome (JobsPage d)) = Some (renderPage ex ''jobs'' (JobsView d))"
| "rendered ex _ = None"

definition rpc_endpoint :: "app \<Rightarrow> exec_env \<Rightarrow> http_request \<Rightarrow> database \<Rightarrow> outcome \<times> database" where
  "rpc_endpoint a x r s =
     (case hr_rpc r of None \<Rightarrow> (NoProcedure, s)
      | Some (proc, received) \<Rightarrow>
          (case rpc_call a x (hr_auth r) proc received s of (res, s1) \<Rightarrow> (RpcOutcome res, s1)))"

text \<open>\<open>arg\<close> is the value of the pattern's wildcard.\<close>

fun serve_endpoint ::
  "app \<Rightarrow> exec_env \<Rightarrow> http_request \<Rightarrow> string \<Rightarrow> endpoint \<Rightarrow> database \<Rightarrow> outcome \<times> database" where
  "serve_endpoint a x r arg EpRpc s = rpc_endpoint a x r s"
| "serve_endpoint a x r arg EpRest s = rpc_endpoint a x r s"
| "serve_endpoint a x r arg EpLogin s = cookie_outcome (oauth_Login (a_auth_url a) (x_random x), s)"
| "serve_endpoint a x r arg EpCallback s =
     cookie_outcome (oauth_Callback (a_mac a) (a_dialect a) (a_domains a) (a_exchange a) (a_userinfo a)
       (hr_cookies r) (hr_state r) (hr_code r) (x_first x) s)"
| "serve_endpoint a x r arg EpLogout s = cookie_outcome (oauth_Logout, s)"
| "serve_endpoint a x r arg EpKeysCreate s =
     http_outcome (keys_create (a_mac a) (a_dialect a) (a_sha a) (x_random x) (hr_cookies r) (hr_body r) (x_first x) s)"
| "serve_endpoint a x r arg EpKeysList s = 
     http_outcome (keys_list (a_mac a) (a_dialect a) (a_time_text a) (hr_cookies r) (x_first x) s)"
| "serve_endpoint a x r arg EpKeysDelete s =
     http_outcome (keys_delete (a_mac a) (hr_cookies r) arg (x_first x) s)"
| "serve_endpoint a x r arg EpRunScheduler s = http_outcome (web_RunScheduler (a_driver a) (x_first x) s)"
| "serve_endpoint a x r arg EpPauseQueue s =
     http_outcome (web_PauseQueue (a_driver a) (a_mac a) (hr_cookies r) arg (x_first x) s)"
| "serve_endpoint a x r arg EpResumeQueue s =
     http_outcome (web_ResumeQueue (a_driver a) (a_mac a) (hr_cookies r) arg (x_first x) s)"
| "serve_endpoint a x r arg EpQueuesPage s =
     page_outcome QueuesPage (web_QueuesPage (a_driver a) (a_mac a) (hr_cookies r) (x_first x) (x_second x) s, s)"
| "serve_endpoint a x r arg EpWorkersPage s =
     page_outcome WorkersPage (web_WorkersPage (a_mac a) (hr_cookies r) (x_first x) s, s)"
| "serve_endpoint a x r arg EpWorkersJSON s =
     http_outcome (web_WorkersJSON (a_dialect a) (a_mac a) (a_fmt a) (x_now x) (hr_cookies r) (x_first x) s, s)"
| "serve_endpoint a x r arg EpCreateWorker s =
     http_outcome (web_CreateWorker (a_dialect a) (a_mac a) (a_sha a) (x_random x) (hr_cookies r) (hr_body r) (x_first x) s)"
| "serve_endpoint a x r arg EpDeleteWorker s =
     http_outcome (web_DeleteWorker (a_mac a) (hr_cookies r) arg (x_first x) s)"
| "serve_endpoint a x r arg EpKeysPage s =
     page_outcome KeysPage (web_KeysPage (a_mac a) (hr_cookies r) (x_first x) s, s)"
| "serve_endpoint a x r arg EpJobPage s =
     page_outcome JobPage (web_JobPage (a_driver a) (a_mac a) parse_rfc3339 (a_fmt a) (a_float_text a)
       (a_column_text a) (hr_cookies r) arg (x_first x) (x_second x) s, s)"
| "serve_endpoint a x r arg EpIndex s =
     (IndexOutcome (web_Index (a_driver a) (a_mac a) (a_fmt a) (hr_path r) (hr_cookies r)
        (hr_status r) (hr_after r) (x_first x) (x_second x) (x_third x) s), s)"
| "serve_endpoint a x r arg EpOpenAPI s = (FileOutcome, s)"
| "serve_endpoint a x r arg EpPublic s = (FileOutcome, s)"

definition first_or_empty :: "string list \<Rightarrow> string" where
  "first_or_empty xs = (case xs of [] \<Rightarrow> [] | x # _ \<Rightarrow> x)"

definition http_serve :: "app \<Rightarrow> exec_env \<Rightarrow> http_request \<Rightarrow> database \<Rightarrow> outcome \<times> database" where
  "http_serve a x r s =
     (case mux_route (serve_routes a) (hr_method r) (hr_path r) of
        MuxRedirect \<Rightarrow> (RedirectOutcome, s)
      | MuxNotFound \<Rightarrow> (HttpOutcome 404 (''404 page not found'' @ [CHR 0x0A]), s)
      | MuxHandler rt e \<Rightarrow>
          serve_endpoint a x r (first_or_empty (wild_values (r_segs rt) (path_segments (hr_path r)))) e s)"

subsection \<open>Starting the server\<close>

text \<open>\<open>strconv.ParseBool\<close> and the parsing of a flag set with the one boolean flag \<open>migrate\<close>: it
  stops at the first argument that is no flag; an unknown or malformed flag ends the process
  with status 2, a request for help with 0.\<close>

definition ParseBool :: "string \<Rightarrow> bool option" where
  "ParseBool s =
     (if s \<in> {''1'', ''t'', ''T'', ''true'', ''TRUE'', ''True''} then Some True
      else if s \<in> {''0'', ''f'', ''F'', ''false'', ''FALSE'', ''False''} then Some False else None)"

datatype flag_result = FlagExit nat | FlagOk bool

fun parse_flags :: "bool \<Rightarrow> string list \<Rightarrow> flag_result" where
  "parse_flags migrate [] = FlagOk migrate"
| "parse_flags migrate (a # args) =
     (if \<not> has_prefix a ''-'' \<or> a = ''-'' \<or> a = ''--'' then FlagOk migrate
      else
        (let name = (if has_prefix a ''--'' then drop 2 a else drop 1 a) in
         if has_prefix name ''-'' \<or> has_prefix name ''='' then FlagExit 2
         else
           (case cut name CHR ''='' of
              None \<Rightarrow>
                if name = ''migrate'' then parse_flags True args
                else if name = ''help'' \<or> name = ''h'' then FlagExit 0
                else FlagExit 2
            | Some (n, v) \<Rightarrow>
                if n = ''migrate'' then
                  (case ParseBool v of None \<Rightarrow> FlagExit 2 | Some b \<Rightarrow> parse_flags b args)
                else if n = ''help'' \<or> n = ''h'' then FlagExit 0
                else FlagExit 2)))"

text \<open>What the process takes from libraries and files: the driver parameters, the outcome of
  opening the database and of the migrations, the validator, the
  OAuth client, and the app's remaining parts.\<close>

record outside =
  out_dur_fraction :: "int \<Rightarrow> int \<Rightarrow> int \<Rightarrow> int"
  out_pg :: pg_cfg
  out_sqlite :: sqlite_cfg
  out_open_fault :: "string option"
  out_set_dialect :: "string \<Rightarrow> string option"
  out_goose_up :: "string \<Rightarrow> string option"
  out_validator :: "string + (request_message \<Rightarrow> string option)"
  out_auth_url :: "string \<Rightarrow> string \<Rightarrow> string \<Rightarrow> string"
  out_exchange :: "string \<Rightarrow> string \<Rightarrow> string \<Rightarrow> string \<Rightarrow> string + string"
  out_userinfo :: "string \<Rightarrow> string + string"
  out_rt :: go_rt
  out_fmt :: "int \<Rightarrow> string"
  out_time_text :: "int \<Rightarrow> string option"
  out_float_text :: "string \<Rightarrow> string option"
  out_column_text :: "json \<Rightarrow> string"
  out_mounts :: "string list"
  out_public :: "string list"
  out_openapi :: bool

text \<open>\<open>Migrate\<close> of \<open>internal/db/migrate.go\<close>: directory and name of the dialect for goose, whose two
  calls are parameters (\<open>Some\<close> is an error).\<close>

fun migrate_target :: "dialect \<Rightarrow> string \<times> string" where
  "migrate_target Postgres = (''migrations/postgres'', ''postgres'')"
| "migrate_target SQLite = (''migrations/sqlite'', ''sqlite3'')"

definition Migrate :: "outside \<Rightarrow> dialect \<Rightarrow> string option" where
  "Migrate out d =
     (let (dir, gooseDialect) = migrate_target d in
      case out_set_dialect out gooseDialect of Some e \<Rightarrow> Some e | None \<Rightarrow> out_goose_up out dir)"

definition runMigrations :: "outside \<Rightarrow> backend \<Rightarrow> string option" where
  "runMigrations out b =
     (case Migrate out (b_dialect b) of Some e \<Rightarrow> Some (''migrate: '' @ e) | None \<Rightarrow> None)"

datatype serve_result =
    ServeExit nat
  | ServePanic bool
  | ServeError string bool
  | Serving app string bool

text \<open>The arguments of \<open>Serving\<close>: what is served, the address, and whether migrations were run; a
  panic or an error also tells whether they had been.\<close>

definition cmdServe :: "outside \<Rightarrow> environment \<Rightarrow> string list \<Rightarrow> serve_result" where
  "cmdServe out env args =
     (case serveArgs args of Inl _ \<Rightarrow> ServePanic False
      | Inr flags \<Rightarrow>
        (case parse_flags False flags of FlagExit n \<Rightarrow> ServeExit n
         | FlagOk migrate \<Rightarrow>
           (case mustEnv env ''DATABASE_URL'' of Inl _ \<Rightarrow> ServePanic False
            | Inr dsn \<Rightarrow>
              (case openBackend (out_dur_fraction out) env (out_pg out) (out_sqlite out) (out_open_fault out) dsn of
                 Inl e \<Rightarrow> ServeError e False
               | Inr b \<Rightarrow>
                 (let migrated = (migrate \<or> env ''MIGRATE'' = ''true'') in
                  case (if migrated then runMigrations out b else None) of
                    Some e \<Rightarrow> ServeError e False
                  | None \<Rightarrow>
                    (let hostname = getenv env ''HOSTNAME'' ''http://localhost:8080'';
                         redirect = hostname @ ''/auth/google/callback'' in
                     case (mustEnv env ''SESSION_SECRET'', mustEnv env ''GOOGLE_CLIENT_ID'',
                           mustEnv env ''GOOGLE_CLIENT_SECRET'') of
                       (Inr secret, Inr clientID, Inr clientSecret) \<Rightarrow>
                         (case out_validator out of Inl e \<Rightarrow> ServeError e migrated
                          | Inr validate \<Rightarrow>
                            Serving
                              \<lparr>a_dialect = b_dialect b, a_driver = b_driver b, a_mac = session_sign secret,
                               a_sha = sha256Hex, a_rt = out_rt out, a_validate = validate,
                               a_domains = splitCSV (env ''ALLOWED_DOMAINS''),
                               a_exchange = out_exchange out clientID clientSecret redirect,
                               a_userinfo = fetchUserInfo (out_userinfo out),
                               a_auth_url = out_auth_url out clientID redirect,
                               a_fmt = out_fmt out, a_time_text = out_time_text out,
                               a_float_text = out_float_text out, a_column_text = out_column_text out,
                               a_mounts = out_mounts out,
                               a_public = out_public out, a_openapi = out_openapi out\<rparr>
                              ('':'' @ getenv env ''PORT'' ''8080'') migrated)
                     | _ \<Rightarrow> ServePanic migrated))))))"

text \<open>The other commands and \<open>main\<close>. A process prints and exits, panics, ends with an error, has
  migrated, or goes on as scheduler or server.\<close>

datatype process =
    Exited nat
  | Panicked
  | Failed string
  | Migrated
  | SchedulerRuns "database driver" int
  | ServerRuns app string

definition cmdMigrate :: "outside \<Rightarrow> environment \<Rightarrow> process" where
  "cmdMigrate out env =
     (case mustEnv env ''DATABASE_URL'' of Inl _ \<Rightarrow> Panicked
      | Inr dsn \<Rightarrow>
        (case openBackend (out_dur_fraction out) env (out_pg out) (out_sqlite out) (out_open_fault out) dsn of
           Inl e \<Rightarrow> Failed e
         | Inr b \<Rightarrow> (case runMigrations out b of Some e \<Rightarrow> Failed e | None \<Rightarrow> Migrated)))"

definition cmdScheduler :: "outside \<Rightarrow> environment \<Rightarrow> process" where
  "cmdScheduler out env =
     (case mustEnv env ''DATABASE_URL'' of Inl _ \<Rightarrow> Panicked
      | Inr dsn \<Rightarrow>
        (case openBackend (out_dur_fraction out) env (out_pg out) (out_sqlite out) (out_open_fault out) dsn of
           Inl e \<Rightarrow> Failed e
         | Inr b \<Rightarrow>
           (case scheduler_interval (out_dur_fraction out) env of
              Inl _ \<Rightarrow> Panicked | Inr tick \<Rightarrow> SchedulerRuns (b_driver b) tick)))"

fun serve_process :: "serve_result \<Rightarrow> process" where
  "serve_process (ServeExit n) = Exited n"
| "serve_process (ServePanic _) = Panicked"
| "serve_process (ServeError e _) = Failed e"
| "serve_process (Serving a addr _) = ServerRuns a addr"

definition stevy_main :: "outside \<Rightarrow> environment \<Rightarrow> string list \<Rightarrow> process" where
  "stevy_main out env args =
     (case command_of args of
        CmdMigrate \<Rightarrow> cmdMigrate out env
      | CmdScheduler \<Rightarrow> cmdScheduler out env
      | CmdServe \<Rightarrow> serve_process (cmdServe out env args)
      | CmdVersion \<Rightarrow> Exited 0
      | CmdHelp \<Rightarrow> Exited 0
      | CmdUnknown _ \<Rightarrow> Exited 2)"

end
