(* ===== verification/Conform.thy ===== *)
theory Conform
  imports Server Retry_Props Account_Props
begin

text \<open>
  What holds of the database and of the answers because every request passes the validation: the
  rules of \<open>job.proto\<close> as an invariant of the rows, the steps that any request may take
  (\<open>db_step\<close>), and which rules of the response messages an answer can break.
\<close>

subsection \<open>Rows that conform\<close>

abbreviation max_int32 :: int where
  "max_int32 \<equiv> 2147483647"

definition job_conforms :: "job \<Rightarrow> bool" where
  "job_conforms r \<longleftrightarrow> job_id_ok (j_id r) \<and> queue_name_ok (j_queue r) \<and> j_kind r \<noteq> []
     \<and> 1 \<le> j_priority r \<and> j_priority r \<le> 4 \<and> j_max_attempts r \<le> max_int32 \<and> is_object (j_payload r)"

definition jobs_conform :: "job list \<Rightarrow> bool" where
  "jobs_conform xs \<longleftrightarrow> (\<forall>r \<in> set xs. job_conforms r)"

text \<open>A ULID is 26 characters of Crockford's base 32, of which the first is at most 7.\<close>

definition ulid_ok :: "call_env \<Rightarrow> bool" where
  "ulid_ok c \<longleftrightarrow> (case fresh_ulid c of Inl _ \<Rightarrow> True | Inr u \<Rightarrow> job_id_ok (to_lower u))"

definition opts_conform :: "create_opts \<Rightarrow> bool" where
  "opts_conform opts \<longleftrightarrow> queue_name_ok (o_Queue opts) \<and> o_Kind opts \<noteq> []
     \<and> 0 \<le> o_Priority opts \<and> o_Priority opts \<le> 4 \<and> 0 \<le> o_MaxAttempts opts
     \<and> o_MaxAttempts opts \<le> max_int32 \<and> is_object (o_PayloadJSON opts)"

text \<open>What the decoder of the wire format can produce for an \<open>int32\<close> that is kept.\<close>

fun wire_ok :: "request_message \<Rightarrow> bool" where
  "wire_ok (CreateJobRequest m) =
     (case cr_options m of None \<Rightarrow> True | Some jo \<Rightarrow> jo_attempts jo \<le> max_int32)"
| "wire_ok _ = True"

lemma same_job_conforms: "same_job r r' \<Longrightarrow> job_conforms r \<Longrightarrow> job_conforms r'"
  by (simp add: same_job_def job_conforms_def)

lemma made_from_conforms: "made_from c opts r \<Longrightarrow> opts_conform opts \<Longrightarrow> ulid_ok c \<Longrightarrow> job_conforms r"
  by (auto simp: made_from_def opts_conform_def ulid_ok_def job_conforms_def)

lemma clampPriority_bounds: "0 \<le> clampPriority p" "clampPriority p \<le> 4"
  by (simp_all add: clampPriority_def)

lemma create_opts_conform:
  assumes "create_rules m" and "wire_ok (CreateJobRequest m)"
  shows "opts_conform (create_opts_of m now)"
  using assms clampPriority_bounds
  by (auto simp: create_rules_def create_opts_of_def opts_conform_def is_object_def Let_def split: option.splits)

subsection \<open>Steps of the database\<close>

definition db_step :: "(string \<Rightarrow> string) \<Rightarrow> database \<Rightarrow> database \<Rightarrow> bool" where
  "db_step sha s s' \<longleftrightarrow> accounts_step sha s s'
     \<and> (ids_ok (jobs s) \<longrightarrow>
          table_reach (jobs s) (jobs s') \<and> (jobs_conform (jobs s) \<longrightarrow> jobs_conform (jobs s')))"

lemma db_step_refl [simp]: "db_step sha s s"
  by (simp add: db_step_def reach_refl)

lemma db_step_trans: "db_step sha a b \<Longrightarrow> db_step sha b c \<Longrightarrow> db_step sha a c"
  unfolding db_step_def using accounts_step_trans table_reach_trans table_reach_ids by metis

lemma db_step_account: "accounts_step sha s s' \<Longrightarrow> jobs s' = jobs s \<Longrightarrow> db_step sha s s'"
  by (simp add: db_step_def reach_refl)

lemma account_ops_jobs:
  "jobs (snd (UpsertUser d g e n c s)) = jobs s" "jobs (snd (CreateAPIKey d sha b u l c s)) = jobs s"
  "jobs (snd (DeleteAPIKey u k c s)) = jobs s" "jobs (snd (LookupAPIKey d sha t c s)) = jobs s"
  "jobs (snd (CreateWorkerKey d sha b u n c s)) = jobs s" "jobs (snd (DeleteWorker u w c s)) = jobs s"
  by (simp_all add: UpsertUser_def CreateAPIKey_def DeleteAPIKey_def LookupAPIKey_def
      CreateWorkerKey_def DeleteWorker_def Let_def split: option.split sum.split)

lemma account_db_steps:
  "db_step sha s (snd (UpsertUser d g e n c s))" "db_step sha s (snd (CreateAPIKey d sha b u l c s))"
  "db_step sha s (snd (DeleteAPIKey u k c s))" "db_step sha s (snd (LookupAPIKey d sha t c s))"
  "db_step sha s (snd (CreateWorkerKey d sha b u n c s))" "db_step sha s (snd (DeleteWorker u w c s))"
  by (rule db_step_account, rule upsert_step create_key_step delete_steps lookup_step create_worker_step,
      rule account_ops_jobs)+

fun call_conforms :: "call_env \<Rightarrow> driver_call \<Rightarrow> bool" where
  "call_conforms c (CallCreate opts) = (opts_conform opts \<and> ulid_ok c)"
| "call_conforms c _ = True"

lemma call_conforms_ok: "call_conforms c x \<Longrightarrow> call_ok x"
  by (cases x) (simp_all add: opts_conform_def)

lemma rows_step_conform: "rows_step E P xs ys \<Longrightarrow> jobs_conform xs \<Longrightarrow> jobs_conform ys"
  unfolding rows_step_def jobs_conform_def
  by (induction rule: list_all2_induct) (auto dest: job_trans_same_job same_job_conforms)

context job_driver_rows begin

lemma apply_conform:
  assumes "call_conforms c x" and "ids_ok (table s)" and "jobs_conform (table s)"
  shows "jobs_conform (table (apply_call D c x s))"
proof (cases x)
  case (CallCreate opts)
  with assms create_made [of opts c s] show ?thesis
    by (auto simp: jobs_conform_def dest: made_from_conforms)
next
  case (CallClaim q w)
  with assms rows_step_conform [OF claim_rows] show ?thesis by simp
next
  case (CallComplete i v)
  with assms rows_step_conform [OF complete_rows] show ?thesis by simp
next
  case (CallFail i m b)
  with assms rows_step_conform [OF fail_rows] show ?thesis by simp
next
  case (CallHeartbeat i p)
  with assms rows_step_conform [OF heartbeat_rows] show ?thesis by simp
next
  case (CallCancel i)
  with assms rows_step_conform [OF cancel_rows] show ?thesis by simp
next
  case (CallPromote i)
  with assms rows_step_conform [OF promote_rows] show ?thesis by simp
next
  case (CallPromoteScheduled n)
  with assms rows_step_conform [OF promote_scheduled_rows] show ?thesis by simp
next
  case (CallFailExpired n)
  with assms rows_step_conform [OF fail_expired_rows] show ?thesis by simp
qed (simp_all add: assms pause_step resume_step)

end

lemma driver_db_step:
  assumes "is_backend D" and "call_conforms c x"
  shows "db_step sha s (apply_call D c x s)"
proof -
  have "table_step (jobs s) (jobs (apply_call D c x s))" if "ids_ok (jobs s)"
    using assms(1) pg.apply_call_step sqlite.apply_call_step call_conforms_ok [OF assms(2)] that
    by (auto elim!: is_backendE)
  moreover have "jobs_conform (jobs (apply_call D c x s))" if "ids_ok (jobs s)" "jobs_conform (jobs s)"
    using assms pgv.apply_conform [OF assms(2) that] sqlitev.apply_conform [OF assms(2) that]
    by (auto elim!: is_backendE)
  moreover have "same_accounts s (apply_call D c x s)"
    using assms(1) pg_same_accounts sqlite_same_accounts by (auto elim!: is_backendE)
  ultimately show ?thesis by (auto simp: db_step_def table_step_reach same_accounts_step)
qed

lemmas driver_db_steps =
  driver_db_step [where x = "CallCreate opts" for opts, simplified]
  driver_db_step [where x = "CallClaim q w" for q w, simplified]
  driver_db_step [where x = "CallComplete i v" for i v, simplified]
  driver_db_step [where x = "CallFail i m b" for i m b, simplified]
  driver_db_step [where x = "CallHeartbeat i p" for i p, simplified]
  driver_db_step [where x = "CallCancel i" for i, simplified]
  driver_db_step [where x = "CallPromote i" for i, simplified]
  driver_db_step [where x = "CallPause q" for q, simplified]
  driver_db_step [where x = "CallResume q" for q, simplified]
  driver_db_step [where x = "CallPromoteScheduled n" for n, simplified]
  driver_db_step [where x = "CallFailExpired n" for n, simplified]

subsection \<open>Steps of the RPC server\<close>

lemma snd_map_response [simp]: "snd (map_response f x) = snd x"
  by (simp add: map_response_def split: prod.split sum.split)

lemma map_response_Inr:
  "fst (map_response f x) = Inr v \<longleftrightarrow> (\<exists>w. fst x = Inr w \<and> v = f w)"
  by (auto simp: map_response_def split: prod.split sum.split)

lemma map_response_Inl: "fst (map_response f x) = Inl e \<longleftrightarrow> fst x = Inl e"
  by (auto simp: map_response_def split: prod.split sum.split)

context job_driver begin

lemma svc_fail_state:
  "snd (svc_FailJob D rt i m c0 mid c s) = s
   \<or> (\<exists>b. snd (svc_FailJob D rt i m c0 mid c s) = snd (d_FailJob D i m b c (mid s)))"
proof (cases "i = []")
  case True
  then show ?thesis by (simp add: svc_FailJob_def parseJobID_def)
next
  case False
  obtain res where "d_GetJob D i c0 s = (res, s)" using get_state [of i c0 s] by (metis prod.collapse)
  with False show ?thesis
    by (auto simp: svc_FailJob_def parseJobID_def split: prod.splits sum.splits) (metis snd_conv)+
qed

lemma svc_reads:
  "snd (svc_GetJob D rt i c s) = s" "snd (svc_GetJobState D i c s) = s"
  "snd (svc_ListJobs D rt q st n a c s) = s" "snd (svc_ListQueues D c s) = s"
  "snd (svc_GetQueue D q c s) = s"
proof -
  show "snd (svc_GetJob D rt i c s) = s"
    by (cases "i = []") (simp_all add: svc_states svc_empty_id get_state)
  show "snd (svc_ListJobs D rt q st n a c s) = s" by (simp add: svc_states list_state)
  show "snd (svc_GetJobState D i c s) = s"
    using status_state [of i c s]
    by (auto simp: svc_GetJobState_def parseJobID_def split: prod.split sum.split)
  show "snd (svc_ListQueues D c s) = s"
    using queues_state [of c s] by (auto simp: svc_ListQueues_def split: prod.split sum.split)
  show "snd (svc_GetQueue D q c s) = s"
    using info_state [of q c s] by (auto simp: svc_GetQueue_def split: prod.split sum.split)
qed

end

lemma backend_fail_state:
  "is_backend D \<Longrightarrow> snd (svc_FailJob D rt i m c0 mid c s) = s
   \<or> (\<exists>b. snd (svc_FailJob D rt i m c0 mid c s) = snd (d_FailJob D i m b c (mid s)))"
  by (elim is_backendE) (simp_all only: pg.svc_fail_state sqlite.svc_fail_state)

lemma backend_reads:
  assumes "is_backend D"
  shows "snd (svc_GetJob D rt i c s) = s" "snd (svc_GetJobState D i c s) = s"
    "snd (svc_ListJobs D rt q st n a c s) = s" "snd (svc_ListQueues D c s) = s"
    "snd (svc_GetQueue D q c s) = s"
  using assms by (auto elim!: is_backendE simp: pg.svc_reads sqlite.svc_reads)

lemma dispatch_db_step:
  assumes "is_backend D" and "message_rules m" and "wire_ok m" and "ulid_ok (x_second x)"
    and "\<And>s. db_step sha s (x_between x s)"
  shows "db_step sha s (snd (dispatch D rt x ctx m s))"
proof -
  note steps = driver_db_steps [OF assms(1), where sha = sha]
  have nonempty: "job_id_ok i \<Longrightarrow> i \<noteq> []" for i by auto
  show ?thesis
  proof (cases m)
    case (CreateJobRequest r)
    with assms(2-4) create_opts_conform [of r "x_now x"] steps(1) show ?thesis
      by (simp add: svc_states)
  next
    case (FailJobRequest i e)
    have "db_step sha s (snd (d_FailJob D i e b (x_third x) (x_between x s)))" for b
      using assms(5) steps(4) by (rule db_step_trans)
    with FailJobRequest backend_fail_state [OF assms(1), of rt i e "x_second x" "x_between x" "x_third x" s]
    show ?thesis by (auto simp del: job_id_ok.simps)
  next
    case (ListJobsRequest st q n a)
    then show ?thesis by (simp add: backend_reads [OF assms(1)])
  qed (use assms(2) nonempty steps in \<open>auto simp: svc_states backend_reads [OF assms(1)] simp del: job_id_ok.simps\<close>)
qed

subsection \<open>Responses\<close>

text \<open>The rules that \<open>job.proto\<close> and \<open>queue.proto\<close> annotate the fields of the answers with, and those that an
  answer breaks: \<open>Required\<close> excludes the zero value of a field (zero, false, the empty text, an unset
  message), \<open>Rule\<close> stands for its pattern or range. A status is one of the eight by its type, the
  times \<open>created_at\<close> and \<open>errors.at\<close> are always set, and counters are not negative.\<close>

datatype proto_rule = Required string | Rule string

definition check :: "proto_rule \<Rightarrow> bool \<Rightarrow> proto_rule list" where
  "check r ok = (if ok then [] else [r])"

definition error_breaks :: "attempt_error \<Rightarrow> proto_rule list" where
  "error_breaks e = check (Required ''errors.message'') (ae_message e \<noteq> [])"

definition job_breaks :: "proto_job \<Rightarrow> proto_rule list" where
  "job_breaks p =
     check (Required ''id'') (p_id p \<noteq> []) @ check (Rule ''id'') (job_id_ok (p_id p))
     @ check (Required ''queue'') (p_queue p \<noteq> []) @ check (Rule ''queue'') (queue_name_ok (p_queue p))
     @ check (Required ''kind'') (p_kind p \<noteq> [])
     @ check (Rule ''status'') (status_in (status_name (p_status p)))
     @ check (Required ''attempt'') (p_attempt p \<noteq> 0) @ check (Rule ''attempt'') (0 \<le> p_attempt p)
     @ check (Required ''progress'') (p_progress p \<noteq> 0)
     @ check (Rule ''progress'') (0 \<le> p_progress p \<and> p_progress p \<le> 100)
     @ concat (map error_breaks (p_errors p))
     @ check (Required ''scheduled_at'') (p_scheduled_at p \<noteq> None)"

definition stats_breaks :: "queue_stats \<Rightarrow> proto_rule list" where
  "stats_breaks st =
     check (Required ''pending'') (st_pending st \<noteq> 0) @ check (Required ''scheduled'') (st_scheduled st \<noteq> 0)
     @ check (Required ''available'') (st_available st \<noteq> 0) @ check (Required ''running'') (st_running st \<noteq> 0)
     @ check (Required ''retryable'') (st_retryable st \<noteq> 0) @ check (Required ''cancelled'') (st_cancelled st \<noteq> 0)
     @ check (Required ''discarded'') (st_discarded st \<noteq> 0) @ check (Required ''completed'') (st_completed st \<noteq> 0)"

definition queue_breaks :: "proto_queue \<Rightarrow> proto_rule list" where
  "queue_breaks q =
     check (Required ''name'') (pq_name q \<noteq> []) @ check (Rule ''name'') (queue_name_ok (pq_name q))
     @ check (Required ''paused'') (pq_paused q) @ stats_breaks (pq_stats q)"

fun response_breaks :: "rpc_response \<Rightarrow> proto_rule list" where
  "response_breaks (JobResponse p) = job_breaks p"
| "response_breaks (ClaimResponse None) = [Required ''job'']"
| "response_breaks (ClaimResponse (Some p)) = job_breaks p"
| "response_breaks (JobsResponse ps) = concat (map job_breaks ps)"
| "response_breaks (StateResponse st) =
     check (Rule ''status'') (status_in (status_name (js_status st)))
     @ check (Rule ''progress'') (0 \<le> js_progress st \<and> js_progress st \<le> 100)"
| "response_breaks (QueuesResponse qs) = concat (map queue_breaks qs)"
| "response_breaks (QueueResponse q) = queue_breaks q"
| "response_breaks EmptyResponse = []"

text \<open>The rules that an answer may break: every \<open>Required\<close> on a field that may be zero, and, in the list of
  queues, the rules on names, because the dashboard pauses (and so inserts) any name.\<close>

definition job_unkept :: "proto_rule set" where
  "job_unkept = Required ` {''attempt'', ''progress'', ''errors.message'', ''scheduled_at''}"

definition queue_unkept :: "proto_rule set" where
  "queue_unkept = Required ` insert ''paused'' (status_name ` set all_statuses)"

fun unkept :: "rpc_response \<Rightarrow> proto_rule set" where
  "unkept (ClaimResponse None) = {Required ''job''}"
| "unkept (QueuesResponse _) = queue_unkept \<union> {Required ''name'', Rule ''name''}"
| "unkept (QueueResponse _) = queue_unkept"
| "unkept (StateResponse _) = {}"
| "unkept EmptyResponse = {}"
| "unkept _ = job_unkept"

definition response_ok :: "rpc_response \<Rightarrow> bool" where
  "response_ok resp \<longleftrightarrow> set (response_breaks resp) \<subseteq> unkept resp"

lemma set_check: "set (check r ok) = (if ok then {} else {r})"
  by (simp add: check_def)

lemma status_in_name [simp]: "status_in (status_name st)"
  by (simp add: status_in_def del: status_name.simps)

definition job_kept :: "proto_job \<Rightarrow> bool" where
  "job_kept p \<longleftrightarrow> set (job_breaks p) \<subseteq> job_unkept"

lemma job_breaks_unkept:
  assumes "job_id_ok (p_id p)" and "queue_name_ok (p_queue p)" and "p_kind p \<noteq> []"
    and "0 \<le> p_attempt p" and "0 \<le> p_progress p" and "p_progress p \<le> 100"
  shows "job_kept p"
proof -
  have "p_id p \<noteq> []" "p_queue p \<noteq> []" using assms(1,2) by (auto simp: queue_name_ok_def)
  with assms show ?thesis
    by (auto simp: job_kept_def job_breaks_def job_unkept_def error_breaks_def set_check split: if_splits)
qed

lemma stats_breaks_unkept: "set (stats_breaks st) \<subseteq> queue_unkept"
  by (auto simp: stats_breaks_def queue_unkept_def all_statuses_def set_check)

lemma queue_breaks_unkept:
  "set (queue_breaks q) \<subseteq> queue_unkept \<union> {Required ''name'', Rule ''name''}"
  "queue_name_ok (pq_name q) \<Longrightarrow> set (queue_breaks q) \<subseteq> queue_unkept"
  using stats_breaks_unkept [of "pq_stats q"]
  by (auto simp: queue_breaks_def set_check queue_name_ok_def) (auto simp: queue_unkept_def)

definition table_conforms :: "job list \<Rightarrow> bool" where
  "table_conforms xs \<longleftrightarrow> table_ok xs \<and> jobs_conform xs"

lemma table_conforms_ids: "table_conforms xs \<Longrightarrow> ids_ok xs"
  by (simp add: table_conforms_def table_ok_ids)

lemma db_step_table_conforms: "db_step sha s s' \<Longrightarrow> table_conforms (jobs s) \<Longrightarrow> table_conforms (jobs s')"
  using table_reach_ok table_ok_ids by (auto simp: db_step_def table_conforms_def)

context job_driver_rows begin

lemma row_response:
  assumes "table_conforms xs" and "v \<in> view ` set xs"
  shows "job_kept (rowToProto rt v)"
proof -
  from assms(2) obtain r where r: "r \<in> set xs" and v: "v = view r" by blast
  with assms(1) have ok: "job_ok r" "job_conforms r"
    by (auto simp: table_conforms_def table_ok_def jobs_conform_def)
  then have "in_int32 (j_attempt r)" "in_int32 (j_progress r)"
    by (simp_all add: job_ok_def job_conforms_def in_int32_def)
  with ok show ?thesis
    by (intro job_breaks_unkept) (simp_all add: v rowToProto_def view_id view_queue view_kind view_attempt
        view_progress wrap32_id job_ok_def job_conforms_def)
qed

lemma svc_create_response:
  assumes "table_conforms (table (snd (svc_CreateJob D rt m now c s)))" and "fst (svc_CreateJob D rt m now c s) = Inr p"
  shows "job_kept p"
  using assms create_row [of "create_opts_of m now" c s] row_response
  by (auto simp: svc_CreateJob_def split: prod.splits sum.splits)

lemma svc_claim_response:
  assumes "table_conforms (table (snd (svc_ClaimJob D rt ctx q c s)))"
    and "fst (svc_ClaimJob D rt ctx q c s) = Inr (Some p)"
  shows "job_kept p"
  using assms claim_row [of q "workerIDFromCtx ctx" c s] row_response
  by (auto simp: svc_ClaimJob_def split: prod.splits sum.splits option.splits)

lemma svc_get_response:
  assumes "table_conforms (table s)" and "fst (svc_GetJob D rt i c s) = Inr p"
  shows "job_kept p"
proof -
  from assms(2) obtain j v s' where v: "d_GetJob D j c s = (Inr v, s')" and p: "p = rowToProto rt v"
    by (auto simp: svc_GetJob_def split: prod.splits sum.splits)
  from v have "v \<in> view ` set (table s)" using get_row [of j c s v] by simp
  with p show ?thesis using row_response [OF assms(1)] by simp
qed

lemma svc_list_response:
  assumes "table_conforms (table s)" and "fst (svc_ListJobs D rt q st n a c s) = Inr ps"
  shows "list_all job_kept ps"
proof -
  obtain res s' where d: "d_ListJobs D q st ((if n = 0 then 50 else n) + 1) a c s = (res, s')"
    by (cases "d_ListJobs D q st ((if n = 0 then 50 else n) + 1) a c s")
  with assms(2) obtain vs where vs: "res = Inr vs"
    by (cases res) (simp_all add: svc_ListJobs_def)
  with d assms(2) have "set ps \<subseteq> rowToProto rt ` set vs"
    by (auto simp: svc_ListJobs_def Let_def split: if_splits dest!: in_set_takeD intro!: imageI)
  moreover have "set vs \<subseteq> view ` set (table s)"
    using list_rows [of q st "(if n = 0 then 50 else n) + 1" a c s vs] d vs by simp
  ultimately show ?thesis using row_response [OF assms(1)] by (fastforce simp: list_all_iff)
qed

lemma svc_state_response:
  assumes "table_conforms (table s)" and "fst (svc_GetJobState D i c s) = Inr st"
  shows "0 \<le> js_progress st \<and> js_progress st \<le> 100"
proof -
  from assms(2) obtain sv j s' where sv: "d_GetJobStatus D j c s = (Inr sv, s')" "js_progress st = wrap32 (s_progress sv)"
    by (auto simp: svc_GetJobState_def Let_def split: prod.splits sum.splits)
  then have "fst (d_GetJobStatus D j c s) = Inr sv" by simp
  then obtain r where r: "r \<in> set (table s)" "s_progress sv = j_progress r" using status_row by blast
  with assms(1) have "0 \<le> j_progress r" "j_progress r \<le> 100"
    by (auto simp: table_conforms_def table_ok_def job_ok_def)
  with sv(2) r(2) show ?thesis by (simp add: wrap32_id in_int32_def)
qed

end

lemma kept_response_ok:
  "job_kept p \<Longrightarrow> response_ok (JobResponse p)" "job_kept p \<Longrightarrow> response_ok (ClaimResponse (Some p))"
  "response_ok (ClaimResponse None)" "list_all job_kept ps \<Longrightarrow> response_ok (JobsResponse ps)"
  "0 \<le> js_progress st \<and> js_progress st \<le> 100 \<Longrightarrow> response_ok (StateResponse st)"
  "response_ok (QueuesResponse qs)" "queue_name_ok (pq_name q) \<Longrightarrow> response_ok (QueueResponse q)"
  "response_ok EmptyResponse"
  using queue_breaks_unkept
  by (auto simp: response_ok_def job_kept_def list_all_iff set_check)

lemma svc_queue_response: "fst (svc_GetQueue D q c s) = Inr pq \<Longrightarrow> pq_name pq = q"
  by (auto simp: svc_GetQueue_def split: prod.splits sum.splits)

lemma dispatch_response:
  assumes "is_backend D" and "message_rules m" and "table_conforms (jobs s)"
    and "table_conforms (jobs (snd (dispatch D rt x ctx m s)))"
    and "fst (dispatch D rt x ctx m s) = Inr resp"
  shows "response_ok resp"
  using assms
proof (cases m)
  case (ClaimJobRequest q)
  with assms(5) obtain w where w: "fst (svc_ClaimJob D rt ctx q (x_second x) s) = Inr w" "resp = ClaimResponse w"
    by (auto simp: map_response_Inr)
  with ClaimJobRequest assms(1,4) show ?thesis
    by (cases w) (auto elim!: is_backendE intro: kept_response_ok
        dest: pgv.svc_claim_response sqlitev.svc_claim_response)
qed (auto elim!: is_backendE simp: map_response_Inr intro!: kept_response_ok
      dest: pgv.svc_create_response sqlitev.svc_create_response
      pgv.svc_get_response sqlitev.svc_get_response pgv.svc_list_response sqlitev.svc_list_response
      pgv.svc_state_response sqlitev.svc_state_response svc_queue_response)

end
