(* ===== verification/Server_Props.thy ===== *)
theory Server_Props
  imports Conform
begin

text \<open>
  The whole server: which requests reach which handler, what a request without credentials can
  do, what the validation keeps from the handlers, and the invariant of the database under any
  sequence of requests and scheduler ticks.
\<close>

subsection \<open>One request is a step of the database\<close>

text \<open>The two parts that the process is made of: a backend and a validator that keeps the rules.\<close>

definition good_app :: "app \<Rightarrow> bool" where
  "good_app a \<longleftrightarrow> is_backend (a_driver a) \<and> enforces_rules (a_validate a)"

text \<open>What is assumed of a request and its environment: a message within its wire types, a
  well-formed ULID, and that what others do in the middle of it are such steps too.\<close>

definition received_ok :: "http_request \<Rightarrow> bool" where
  "received_ok r \<longleftrightarrow> (case hr_rpc r of Some (proc, Inr m) \<Rightarrow> wire_ok m | _ \<Rightarrow> True)"

datatype server_event =
    HttpEvent exec_env http_request
  | TickEvent call_env "database \<Rightarrow> database" call_env

fun event_ok :: "(string \<Rightarrow> string) \<Rightarrow> server_event \<Rightarrow> bool" where
  "event_ok sha (HttpEvent x r) \<longleftrightarrow>
     received_ok r \<and> ulid_ok (x_second x) \<and> (\<forall>s. db_step sha s (x_between x s))"
| "event_ok sha (TickEvent c1 mid c2) \<longleftrightarrow> (\<forall>s. db_step sha s (mid s))"

fun server_step :: "app \<Rightarrow> server_event \<Rightarrow> database \<Rightarrow> database" where
  "server_step a (HttpEvent x r) s = snd (http_serve a x r s)"
| "server_step a (TickEvent c1 mid c2) s = scheduler_tick (a_driver a) c1 mid c2 s"

fun server_run :: "app \<Rightarrow> server_event list \<Rightarrow> database \<Rightarrow> database" where
  "server_run a [] s = s"
| "server_run a (ev # evs) s = server_run a evs (server_step a ev s)"

text \<open>What an RPC comes down to: a refusal, an invalid message, or the handler, on the database
  with at most the stamp of the client key changed.\<close>

lemma rpc_call_cases:
  obtains (refused) code e where "rpc_call a x h proc received s = (Inl (RpcError code e), s)"
      and "code \<in> {CodeUnauthenticated, CodePermissionDenied}"
  | (invalid) e s1 where "rpc_call a x h proc received s = (Inl e, s1)"
      and "validating_Receive (a_validate a) received = Inl e"
      and "s1 = s \<or> (\<exists>token. s1 = snd (LookupAPIKey (a_dialect a) (a_sha a) token (x_first x) s))"
  | (handled) m ctx s1 where "validating_Receive (a_validate a) received = Inr m"
      and "rpc_call a x h proc received s = dispatch (a_driver a) (a_rt a) x ctx m s1"
      and "s1 = s \<or> (\<exists>token. s1 = snd (LookupAPIKey (a_dialect a) (a_sha a) token (x_first x) s))"
proof -
  let ?next = "\<lambda>ctx s1. case validating_Receive (a_validate a) received of
           Inl e \<Rightarrow> (Inl e, s1)
         | Inr m \<Rightarrow> dispatch (a_driver a) (a_rt a) x ctx m s1"
  have reached: thesis
    if "rpc_call a x h proc received s = ?next ctx s1"
      and "s1 = s \<or> (\<exists>token. s1 = snd (LookupAPIKey (a_dialect a) (a_sha a) token (x_first x) s))" for ctx s1
    using that invalid handled by (cases "validating_Receive (a_validate a) received") auto
  show thesis
    using interceptor_cases [of "a_dialect a" "a_sha a" ?next empty_context h proc "x_first x" s] refused reached
    unfolding rpc_call_def by blast
qed

lemma rpc_state_before:
  assumes "s1 = s \<or> (\<exists>token. s1 = snd (LookupAPIKey d sha token c s))"
  shows "db_step sha s s1" and "jobs s1 = jobs s"
  using assms by (auto simp: account_db_steps account_ops_jobs)

lemma validating_Receive_Inr:
  assumes "enforces_rules v" and "validating_Receive v received = Inr m"
  shows "received = Inr m" and "message_rules m"
  using assms by (auto simp: validating_Receive_def enforces_rules_def split: sum.splits option.splits)

lemma rpc_call_step:
  assumes "good_app a" and "event_ok (a_sha a) (HttpEvent x r)" and "hr_rpc r = Some (proc, received)"
  shows "db_step (a_sha a) s (snd (rpc_call a x h proc received s))"
proof (cases rule: rpc_call_cases [of a x h proc received s])
  case (handled m ctx s1)
  have app: "is_backend (a_driver a)" "enforces_rules (a_validate a)"
    using assms(1) by (simp_all add: good_app_def)
  note m = validating_Receive_Inr [OF app(2) handled(1)]
  then have "wire_ok m" using assms(2,3) by (simp add: received_ok_def)
  then have "db_step (a_sha a) s1 (snd (dispatch (a_driver a) (a_rt a) x ctx m s1))"
    using assms(2) by (intro dispatch_db_step [OF app(1) m(2)]) simp_all
  with rpc_state_before(1) [OF handled(3)] handled(2) show ?thesis
    by (auto intro: db_step_trans)
next
  case (invalid e s1)
  with rpc_state_before(1) [OF invalid(3)] show ?thesis by simp
qed simp

lemma rpc_call_response:
  assumes "good_app a" and "event_ok (a_sha a) (HttpEvent x r)" and "hr_rpc r = Some (proc, received)"
    and "table_conforms (jobs s)" and "fst (rpc_call a x h proc received s) = Inr resp"
  shows "response_ok resp"
proof (cases rule: rpc_call_cases [of a x h proc received s])
  case (handled m ctx s1)
  have "table_conforms (jobs (snd (rpc_call a x h proc received s)))"
    by (rule db_step_table_conforms [OF rpc_call_step [OF assms(1-3)] assms(4)])
  moreover have "message_rules m"
    using validating_Receive_Inr [OF _ handled(1)] assms(1) by (simp add: good_app_def)
  ultimately show ?thesis
    using handled assms rpc_state_before(2) [OF handled(3)]
    by (intro dispatch_response [of "a_driver a" m s1 "a_rt a" x ctx resp]) (auto simp: good_app_def)
qed (use assms(5) in simp_all)

lemma callback_state:
  "snd (oauth_Callback mac d domains exchange fetch cookies st code c s) = s
   \<or> (\<exists>g e n. snd (oauth_Callback mac d domains exchange fetch cookies st code c s) = snd (UpsertUser d g e n c s))"
proof -
  have *: "snd (case y of (Inl e, s1) \<Rightarrow> (f e, s1) | (Inr u, s1) \<Rightarrow> (g u, s1)) = snd y" for y :: "(string + user_row) \<times> database" and f g
    by (simp split: prod.split sum.split)
  show ?thesis by (auto simp: oauth_Callback_def * split: option.split sum.split)
qed

lemma http_account_steps:
  "db_step sha s (snd (keys_create mac d sha rnd cookies body c s))"
  "db_step sha s (snd (keys_list mac d tt cookies c s))"
  "db_step sha s (snd (keys_delete mac cookies i c s))"
  "db_step sha s (snd (web_CreateWorker d mac sha rnd cookies body c s))"
  "db_step sha s (snd (web_DeleteWorker mac cookies i c s))"
  "db_step sha s (snd (oauth_Callback mac d domains exchange fetch cookies st code c s))"
  using account_db_steps(2) [of sha s d rnd "session_UserID mac cookies"
      "trim_space (the (decode_string_body ''label'' body))" c]
    account_db_steps(3) [of sha s "session_UserID mac cookies" i c]
    account_db_steps(5) [of sha s d rnd "session_UserID mac cookies"
      "trim_space (the (decode_string_body ''name'' body))" c]
    account_db_steps(6) [of sha s "session_UserID mac cookies" i c]
    callback_state [of mac d domains exchange fetch cookies st code c s] account_db_steps(1) [of sha s d _ _ _ c]
  by (auto simp: keys_create_def keys_list_def keys_delete_def web_CreateWorker_def web_DeleteWorker_def
      ListAPIKeys_def Let_def split: option.split prod.split sum.split)

lemma http_driver_steps:
  assumes "is_backend D"
  shows "db_step sha s (snd (web_RunScheduler D c s))"
    and "db_step sha s (snd (web_PauseQueue D mac cookies q c s))"
    and "db_step sha s (snd (web_ResumeQueue D mac cookies q c s))"
proof -
  note steps = driver_db_steps [OF assms, where sha = sha]
  have *: "snd (case y of (Inl e, s1) \<Rightarrow> (f e, s1) | (Inr u, s1) \<Rightarrow> (g u, s1)) = snd y"
    for y :: "(go_error + 'a) \<times> database" and f g :: "_ \<Rightarrow> 'b"
    by (simp split: prod.split sum.split)
  show "db_step sha s (snd (web_RunScheduler D c s))" by (simp add: web_RunScheduler_def * steps)
  show "db_step sha s (snd (web_PauseQueue D mac cookies q c s))"
    and "db_step sha s (snd (web_ResumeQueue D mac cookies q c s))"
    by (auto simp: web_PauseQueue_def web_ResumeQueue_def * steps)
qed

lemma snd_outcomes [simp]:
  "snd (http_outcome y) = snd y" "snd (page_outcome f w) = snd w" "snd (cookie_outcome z) = snd z"
  by (simp_all add: http_outcome_def page_outcome_def cookie_outcome_def)

lemma rpc_endpoint_step:
  assumes "good_app a" and "event_ok (a_sha a) (HttpEvent x r)"
  shows "db_step (a_sha a) s (snd (rpc_endpoint a x r s))"
proof (cases "hr_rpc r")
  case (Some pr)
  obtain proc received where "pr = (proc, received)" by (cases pr)
  with Some rpc_call_step [OF assms, of proc received s "hr_auth r"] show ?thesis
    by (cases "rpc_call a x (hr_auth r) proc received s") (simp add: rpc_endpoint_def)
qed (simp add: rpc_endpoint_def)

lemma serve_endpoint_step:
  assumes "good_app a" and "event_ok (a_sha a) (HttpEvent x r)"
  shows "db_step (a_sha a) s (snd (serve_endpoint a x r arg e s))"
proof -
  have D: "is_backend (a_driver a)" using assms(1) by (simp add: good_app_def)
  show ?thesis
    by (cases e) (simp_all add: rpc_endpoint_step [OF assms] http_account_steps http_driver_steps [OF D])
qed

lemma http_serve_step:
  assumes "good_app a" and "event_ok (a_sha a) (HttpEvent x r)"
  shows "db_step (a_sha a) s (snd (http_serve a x r s))"
  using serve_endpoint_step [OF assms] by (simp add: http_serve_def split: mux_choice.split)

lemma server_step_step:
  assumes "good_app a" and "event_ok (a_sha a) ev"
  shows "db_step (a_sha a) s (server_step a ev s)"
proof (cases ev)
  case (HttpEvent x r)
  with assms http_serve_step show ?thesis by simp
next
  case (TickEvent c1 mid c2)
  have D: "is_backend (a_driver a)" using assms(1) by (simp add: good_app_def)
  have mid: "db_step (a_sha a) s (mid s)" for s using assms(2) TickEvent by simp
  note promote = driver_db_steps(10) [OF D, where sha = "a_sha a"]
    and expire = driver_db_steps(11) [OF D, where sha = "a_sha a"]
  show ?thesis
    unfolding TickEvent server_step.simps scheduler_tick_def
    by (rule db_step_trans [OF db_step_trans [OF promote mid] expire])
qed

lemma server_run_step:
  "good_app a \<Longrightarrow> \<forall>ev \<in> set evs. event_ok (a_sha a) ev \<Longrightarrow> db_step (a_sha a) s (server_run a evs s)"
proof (induction evs arbitrary: s)
  case (Cons ev evs)
  then have "db_step (a_sha a) s (server_step a ev s)" by (simp add: server_step_step)
  moreover have "db_step (a_sha a) (server_step a ev s) (server_run a evs (server_step a ev s))"
    using Cons by simp
  ultimately show ?case by (auto intro: db_step_trans)
qed simp

lemma rpc_outcome_response:
  assumes "good_app a" and "event_ok (a_sha a) (HttpEvent x r)" and "table_conforms (jobs s)"
    and "fst (http_serve a x r s) = RpcOutcome (Inr resp)"
  shows "response_ok resp"
proof -
  have "fst (rpc_endpoint a x r s) = RpcOutcome (Inr resp)"
  proof (cases "mux_route (serve_routes a) (hr_method r) (hr_path r)")
    case (MuxHandler rt e)
    with assms(4) show ?thesis
      by (cases e) (simp_all add: http_serve_def http_outcome_def page_outcome_def cookie_outcome_def)
  qed (use assms(4) in \<open>simp_all add: http_serve_def\<close>)
  then obtain proc received where "hr_rpc r = Some (proc, received)"
    and "fst (rpc_call a x (hr_auth r) proc received s) = Inr resp"
    by (auto simp: rpc_endpoint_def split: option.splits prod.splits)
  then show ?thesis using rpc_call_response [OF assms(1,2)] assms(3) by blast
qed

lemma server_run_conforms:
  assumes "good_app a" and "\<forall>ev \<in> set evs. event_ok (a_sha a) ev"
  shows "table_conforms (jobs (server_run a evs empty_db)) \<and> accounts_ok (a_sha a) (server_run a evs empty_db)"
proof -
  have run: "db_step (a_sha a) empty_db (server_run a evs empty_db)" using assms by (rule server_run_step)
  have "table_conforms (jobs empty_db)"
    by (simp add: table_conforms_def jobs_conform_def empty_db_def)
  moreover have "accounts_ok (a_sha a) empty_db" by (simp add: accounts_ok_def empty_db_def)
  ultimately show ?thesis
    using run db_step_table_conforms [OF run] by (simp add: db_step_def accounts_step_def)
qed

text \<open>C1. The types of the protocol. After any sequence of HTTP requests and scheduler ticks from the empty
  database, with a validator that accepts only what the rules of the proto files allow, every job
  row is well-formed and keeps to the rules of the requests it came from (its id is a lower-case
  ULID, its queue a valid name, its kind not empty, its priority between 1 and 4, its payload an
  object), and the accounts are consistent. Of the rules annotated on the answers, every answer of
  the RPC server keeps all but these: \<open>required\<close>, which excludes zero, on the attempt and the progress
  of a job, which are zero in every new job, on its schedule, which is left out at the zero time,
  and on the messages of its error log, for which it depends on the JSON functions of the database;
  \<open>required\<close> on the job of an empty claim, and on the pause flag and the counters of a queue; and, in
  the list of queues, the rules on names, because the dashboard pauses any name.\<close>

theorem server_conforms:
  assumes "good_app a" and "\<forall>ev \<in> set evs. event_ok (a_sha a) ev"
    and "event_ok (a_sha a) (HttpEvent x r)"
  shows "table_ok (jobs (server_run a evs empty_db)) \<and> jobs_conform (jobs (server_run a evs empty_db))
    \<and> accounts_ok (a_sha a) (server_run a evs empty_db)
    \<and> (\<forall>resp. fst (http_serve a x r (server_run a evs empty_db)) = RpcOutcome (Inr resp)
        \<longrightarrow> set (response_breaks resp) \<subseteq> unkept resp)"
  using server_run_conforms [OF assms(1,2)] rpc_outcome_response [OF assms(1,3)]
  by (auto simp: table_conforms_def response_ok_def)

text \<open>A server and requests to it: the sign-in of a user, the creation of a key, a job.\<close>

definition sample_app :: app where
  "sample_app = \<lparr>a_dialect = Postgres, a_driver = pg_driver sample_pg, a_mac = sample_sha,
     a_sha = sample_sha, a_rt = sample_rt,
     a_validate = (\<lambda>m. if message_rules m then None else Some ''invalid''),
     a_domains = [], a_exchange = (\<lambda>code. Inr ''tok''),
     a_userinfo = (\<lambda>_. Inr \<lparr>g_ID = ''g'', g_Email = ''a@b.c'', g_Name = ''n''\<rparr>),
     a_auth_url = (\<lambda>st. ''https://accounts.google.com/?state='' @ st), a_fmt = (\<lambda>_. []),
     a_time_text = (\<lambda>t. Some (format_rfc3339 t)), a_float_text = Some, a_column_text = json_text compact,
     a_mounts = [''/stevy.v1.JobService/'', ''/stevy.v1.QueueService/''], a_public = [''app.js''],
     a_openapi = True\<rparr>"

definition sample_ulid :: string where
  "sample_ulid = ''01ARZ3NDEKTSV4RRFFQ69G5FAV''"

definition sample_exec :: exec_env where
  "sample_exec =
     \<lparr>x_first = sample_env, x_second = sample_env\<lparr>fresh_ulid := Inr sample_ulid\<rparr>, x_third = sample_env, x_now = 0, x_between = (\<lambda>s. s), x_random = Some ''abc''\<rparr>"

definition sample_http :: "string \<Rightarrow> string \<Rightarrow> http_request" where
  "sample_http m p = \<lparr>hr_method = m, hr_path = p, hr_cookies = [], hr_auth = [], hr_state = [],
     hr_code = [], hr_status = [], hr_after = [], hr_body = [], hr_rpc = None\<rparr>"

definition sign_in_request :: http_request where
  "sign_in_request = (sample_http ''GET'' ''/auth/google/callback'')
     \<lparr>hr_cookies := [(''oauth_state'', ''st'')], hr_state := ''st'', hr_code := ''c''\<rparr>"

definition key_request :: http_request where
  "key_request = (sample_http ''POST'' ''/keys'')
     \<lparr>hr_cookies := [(''queue_session'', ''01j.hash:01j'')],
      hr_body := json_text compact (JObj [(''label'', JStr ''l'')]) @ [CHR 0x0A]\<rparr>"

definition job_request :: http_request where
  "job_request = (sample_http ''POST'' ''/stevy.v1.JobService/CreateJob'')
     \<lparr>hr_auth := ''Bearer stv_YWJj'',
      hr_rpc := Some (''/stevy.v1.JobService/CreateJob'',
        Inr (CreateJobRequest \<lparr>cr_queue = ''mail'', cr_kind = ''send'', cr_payload = [], cr_options = None\<rparr>))\<rparr>"

definition sample_events :: "server_event list" where
  "sample_events = [HttpEvent sample_exec sign_in_request, HttpEvent sample_exec key_request]"

lemma sample_app_good: "good_app sample_app"
  by (simp add: good_app_def sample_app_def enforces_rules_def)

lemma sample_ulid_ok: "ulid_ok (x_second sample_exec)"
  by code_simp

lemma sample_event_ok: "received_ok r \<Longrightarrow> event_ok sha (HttpEvent sample_exec r)"
  using sample_ulid_ok by (simp add: sample_exec_def)

lemma sample_received_ok: "received_ok job_request" "received_ok sign_in_request" "received_ok key_request"
  by (simp_all add: received_ok_def job_request_def sign_in_request_def key_request_def sample_http_def)

definition sample_db1 :: database where
  "sample_db1 = empty_db\<lparr>users := [\<lparr>u_id = ''01j'', u_google_id = ''g'',
     u_email = ''a@b.c'', u_name = ''n'', u_created_at = 90000000000\<rparr>]\<rparr>"

definition sample_db2 :: database where
  "sample_db2 = sample_db1\<lparr>api_keys := [\<lparr>k_id = ''01j'',
     k_user_id = ''01j'', k_label = ''l'', k_key_hash = ''hash:stv_YWJj'',
     k_key_prefix = ''stv_YWJj'', k_created_at = 90000000000, k_last_used_at = None\<rparr>]\<rparr>"

lemma sample_step1: "server_step sample_app (HttpEvent sample_exec sign_in_request) empty_db = sample_db1"
  by code_simp

lemma key_request_label: "decode_string_body ''label'' (hr_body key_request) = Some ''l''"
proof -
  have "to_lower ''label'' = ''label''" by code_simp
  with decode_string_body_text [of compact "''label''" "''l''"] show ?thesis
    by (simp add: key_request_def valid_ascii ascii_text_def)
qed

lemma sample_step2: "server_step sample_app (HttpEvent sample_exec key_request) sample_db1 = sample_db2"
proof -
  have r: "hr_method key_request = ''POST''" "hr_path key_request = ''/keys''"
    "hr_cookies key_request = [(''queue_session'', ''01j.hash:01j'')]"
    by (simp_all add: key_request_def sample_http_def)
  have route: "mux_route (serve_routes sample_app) ''POST'' ''/keys''
      = MuxHandler (parse_pattern ''POST /keys'') EpKeysCreate"
    by code_simp
  have user: "session_UserID (a_mac sample_app) [(''queue_session'', ''01j.hash:01j'')] = ''01j''" by code_simp
  have label: "trim_space ''l'' = ''l''" by code_simp
  have "snd (CreateAPIKey (a_dialect sample_app) (a_sha sample_app) (x_random sample_exec) ''01j'' ''l''
      (x_first sample_exec) sample_db1) = sample_db2"
    by code_simp
  then show ?thesis
    by (auto simp: http_serve_def r route http_outcome_def keys_create_def user key_request_label label Let_def
        split: prod.split sum.split)
qed

lemma sample_run: "server_run sample_app sample_events empty_db = sample_db2"
  by (simp only: sample_events_def server_run.simps sample_step1 sample_step2)

lemma sample_response:
  "case fst (http_serve sample_app sample_exec job_request sample_db2) of
      RpcOutcome (Inr (JobResponse p)) \<Rightarrow> job_breaks p = [Required ''attempt'', Required ''progress'']
    | _ \<Rightarrow> False"
  by code_simp

text \<open>The answer to the creation of a job does break the two rules.\<close>

lemma server_conforms_witness:
  "table_ok (jobs (server_run sample_app (sample_events @ [HttpEvent sample_exec job_request]) empty_db))
   \<and> (\<exists>p. fst (http_serve sample_app sample_exec job_request (server_run sample_app sample_events empty_db))
          = RpcOutcome (Inr (JobResponse p)) \<and> set (job_breaks p) \<subseteq> job_unkept
        \<and> job_breaks p = [Required ''attempt'', Required ''progress''])"
proof
  note ok = sample_received_ok [THEN sample_event_ok]
  have evs: "\<forall>ev \<in> set sample_events. event_ok (a_sha sample_app) ev"
    by (simp add: sample_events_def ok del: event_ok.simps)
  have "\<forall>ev \<in> set (sample_events @ [HttpEvent sample_exec job_request]). event_ok (a_sha sample_app) ev"
    using evs ok(1) by (simp del: event_ok.simps)
  from server_conforms [OF sample_app_good this ok(1)]
  show "table_ok (jobs (server_run sample_app (sample_events @ [HttpEvent sample_exec job_request]) empty_db))"
    by blast
  from sample_response obtain p where p: "fst (http_serve sample_app sample_exec job_request (server_run sample_app sample_events empty_db))
      = RpcOutcome (Inr (JobResponse p))" "job_breaks p = [Required ''attempt'', Required ''progress'']"
    unfolding sample_run by (auto split: outcome.splits sum.splits rpc_response.splits)
  with server_conforms [OF sample_app_good evs ok(1)]
  have "set (response_breaks (JobResponse p)) \<subseteq> unkept (JobResponse p)" by blast
  with p show "\<exists>p. fst (http_serve sample_app sample_exec job_request (server_run sample_app sample_events empty_db))
          = RpcOutcome (Inr (JobResponse p)) \<and> set (job_breaks p) \<subseteq> job_unkept
        \<and> job_breaks p = [Required ''attempt'', Required ''progress'']" by simp
qed

end
