(* ===== verification/Access_Props.thy ===== *)
theory Access_Props
  imports Server_Props
begin

text \<open>
  What a request can do without credentials, what the validation keeps from the handlers, and
  which request reaches which handler.
\<close>

subsection \<open>The chosen handler fits the request\<close>

lemma best_match_Some: "best_match rs = Some x \<Longrightarrow> x \<in> set rs"
  by (auto simp: best_match_def split: list.splits) (metis list.set_intros(1) set_sort)

lemma mux_match_sound:
  assumes "mux_match rs meth path = Some (r, e)"
  shows "(r, e) \<in> set rs \<and> segs_match (r_segs r) (r_subtree r) path
    \<and> (r_method r = None \<or> r_method r = Some meth \<or> (meth = ''HEAD'' \<and> r_method r = Some ''GET''))"
proof -
  have *: "(r, e) \<in> set rs \<and> r_method r = m \<and> segs_match (r_segs r) (r_subtree r) path"
    if "best_match (with_method m rs path) = Some (r, e)" for m
    using best_match_Some [OF that] by (auto simp: with_method_def)
  show ?thesis
    using assms * by (auto simp: mux_match_def split: option.splits if_splits)
qed

lemma mux_route_sound:
  assumes "mux_route rs meth path = MuxHandler r e"
  shows "(r, e) \<in> set rs \<and> segs_match (r_segs r) (r_subtree r) (path_segments path)
    \<and> (r_method r = None \<or> r_method r = Some meth \<or> (meth = ''HEAD'' \<and> r_method r = Some ''GET''))"
  using assms mux_match_sound [of rs meth "path_segments path" r e]
  by (auto simp: mux_route_def Let_def split: if_splits option.splits)

lemma scheduler_route:
  assumes "(r, EpRunScheduler) \<in> set (serve_routes a)"
  shows "r = \<lparr>r_method = Some ''POST'', r_segs = [Lit ''scheduler'', Lit ''run''], r_subtree = False\<rparr>"
proof -
  have "r = parse_pattern ''POST /scheduler/run''"
    using assms by (auto simp: serve_routes_def serve_patterns_def oauth_RegisterRoutes_def keys_RegisterRoutes_def
      web_patterns_def public_patterns_def)
  then show ?thesis by (simp only:) code_simp
qed

lemma segs_match_literals: "segs_match (map Lit ls) False path \<longleftrightarrow> path = ls"
proof (induction ls arbitrary: path)
  case (Cons l ls)
  then show ?case by (cases path) auto
qed simp

subsection \<open>Without credentials\<close>

definition known_key :: "app \<Rightarrow> http_request \<Rightarrow> database \<Rightarrow> bool" where
  "known_key a r s \<longleftrightarrow> has_prefix (hr_auth r) ''Bearer ''
     \<and> a_sha a (trim_prefix (hr_auth r) ''Bearer '') \<in> w_key_hash ` set (workers s) \<union> k_key_hash ` set (api_keys s)"

text \<open>No session, no known key, and not the return from a sign-in that was begun here.\<close>

definition anonymous :: "app \<Rightarrow> http_request \<Rightarrow> database \<Rightarrow> bool" where
  "anonymous a r s \<longleftrightarrow> session_UserID (a_mac a) (hr_cookies r) = [] \<and> \<not> known_key a r s
     \<and> (hr_state r = [] \<or> map_of (hr_cookies r) oauth_state \<noteq> Some (hr_state r))"

text \<open>The refusals. \<open>e\<close> is the failure of the first database call, if it fails: the interceptor passes
  its text on to the caller.\<close>

definition refusal :: "string option \<Rightarrow> string \<Rightarrow> string \<Rightarrow> rpc_error" where
  "refusal e authHdr proc =
     (let token = trim_prefix authHdr ''Bearer '' in
      if has_prefix authHdr ''Bearer '' \<and> has_prefix token ''stw_'' \<and> proc \<notin> set workerMethods
      then RpcError CodePermissionDenied []
      else if has_prefix authHdr ''Bearer '' \<and> (has_prefix token ''stw_'' \<or> has_prefix token ''stv_'')
      then RpcError CodeUnauthenticated (case e of Some t \<Rightarrow> t | None \<Rightarrow> ''invalid key'')
      else RpcError CodeUnauthenticated [])"

text \<open>Answers with fixed contents, no data of the database and no session.\<close>

fun anonymous_outcome :: "string option \<Rightarrow> outcome \<Rightarrow> bool" where
  "anonymous_outcome e (HttpOutcome n b) =
     (n = 401 \<and> b = ''unauthorized'' @ [CHR 0x0A] \<or> n = 404 \<and> b = ''404 page not found'' @ [CHR 0x0A])"
| "anonymous_outcome e (PageOutcome p) = (p = HttpRedirect 303 ''/'')"
| "anonymous_outcome e (CookieOutcome n ck) =
     (n \<in> {302, 400, 500} \<and> (case ck of None \<Rightarrow> True | Some k \<Rightarrow> k = session_Clear \<or> ck_Name k = oauth_state))"
| "anonymous_outcome e (RpcOutcome (Inl (RpcError code m))) =
     ((code = CodeUnauthenticated \<or> code = CodePermissionDenied) \<and> (m = [] \<or> m = ''invalid key'' \<or> e = Some m))"
| "anonymous_outcome e (RpcOutcome _) = False"
| "anonymous_outcome e (IndexOutcome p) = (p = LoginPage \<or> p = PageNotFound)"
| "anonymous_outcome e _ = True"

lemma refusal_outcome: "anonymous_outcome e (RpcOutcome (Inl (refusal e authHdr proc)))"
  by (simp add: refusal_def Let_def split: option.split)

lemma anonymous_rpc:
  assumes "\<not> known_key a r s"
  shows "rpc_call a x (hr_auth r) proc received s = (Inl (refusal (fault (x_first x) 0) (hr_auth r) proc), s)"
proof -
  let ?h = "a_sha a (trim_prefix (hr_auth r) ''Bearer '')"
  have "find_key w_key_hash ?h (workers s) = None" "find_key k_key_hash ?h (api_keys s) = None"
    if "has_prefix (hr_auth r) ''Bearer ''"
    using assms that by (simp_all add: known_key_def find_key_None)
  then show ?thesis
    by (simp add: rpc_call_def APIKeyInterceptor_def refusal_def LookupWorkerKey_def LookupAPIKey_def Let_def
        split: option.split)
qed

lemma anonymous_pages:
  assumes "session_UserID mac cookies = []"
  shows "web_Index D mac fmt path cookies q af cu cl cc s = (if path \<noteq> ''/'' then PageNotFound else LoginPage)"
    and "web_QueuesPage D mac cookies cu c s = HttpRedirect 303 ''/''"
    and "web_WorkersPage mac cookies cu s = HttpRedirect 303 ''/''"
    and "web_KeysPage mac cookies cu s = HttpRedirect 303 ''/''"
    and "web_JobPage D mac pt fmt ft raw cookies i cu c s = HttpRedirect 303 ''/''"
    and "web_WorkersJSON d mac fmt now cookies c s = HttpError 401 ''unauthorized''"
  using assms
  by (simp_all add: web_Index_def web_QueuesPage_def web_WorkersPage_def web_KeysPage_def web_JobPage_def
      web_WorkersJSON_def requireUser_def currentUser_def Let_def)

lemma anonymous_actions:
  assumes "session_UserID mac cookies = []"
  shows "keys_create mac d sha rnd cookies body c s = (HttpError 401 ''unauthorized'', s)"
    and "keys_list mac d tt cookies c s = (HttpError 401 ''unauthorized'', s)"
    and "keys_delete mac cookies i c s = (HttpError 401 ''unauthorized'', s)"
    and "web_PauseQueue D mac cookies i c t = (HttpError 401 ''unauthorized'', t)"
    and "web_ResumeQueue D mac cookies i c t = (HttpError 401 ''unauthorized'', t)"
    and "web_CreateWorker d mac sha rnd cookies body c s = (HttpError 401 ''unauthorized'', s)"
    and "web_DeleteWorker mac cookies i c s = (HttpError 401 ''unauthorized'', s)"
  using assms
  by (simp_all add: keys_create_def keys_list_def keys_delete_def web_PauseQueue_def web_ResumeQueue_def
      web_CreateWorker_def web_DeleteWorker_def Let_def)

lemma anonymous_callback:
  assumes "st = [] \<or> map_of cookies oauth_state \<noteq> Some st"
  shows "oauth_Callback mac d domains exchange fetch cookies st code c s
    = (fst (oauth_Callback mac d domains exchange fetch cookies st code c empty_db), s)"
    and "\<exists>m. fst (oauth_Callback mac d domains exchange fetch cookies st code c s) = (HttpError 400 m, None)"
  using assms by (auto simp: oauth_Callback_def split: option.split)

lemma anonymous_empty: "anonymous a r s \<Longrightarrow> anonymous a r empty_db"
  by (simp add: anonymous_def known_key_def empty_db_def)

lemma anonymous_endpoint:
  assumes "anonymous a r s" and "e \<noteq> EpRunScheduler"
  shows "serve_endpoint a x r arg e s = (fst (serve_endpoint a x r arg e empty_db), s)"
    and "anonymous_outcome (fault (x_first x) 0) (fst (serve_endpoint a x r arg e s))"
proof -
  have ses: "session_UserID (a_mac a) (hr_cookies r) = []" and key: "\<not> known_key a r s"
    and key0: "\<not> known_key a r empty_db"
    and st: "hr_state r = [] \<or> map_of (hr_cookies r) oauth_state \<noteq> Some (hr_state r)"
    using assms(1) anonymous_empty [OF assms(1)] by (simp_all add: anonymous_def)
  have rpc: "rpc_endpoint a x r s = (fst (rpc_endpoint a x r empty_db), s)"
    "anonymous_outcome (fault (x_first x) 0) (fst (rpc_endpoint a x r s))"
    by (simp_all add: rpc_endpoint_def anonymous_rpc [OF key] anonymous_rpc [OF key0] refusal_outcome
        split: option.split prod.split)
  note callback = anonymous_callback [OF st, of "a_mac a" "a_dialect a" "a_domains a" "a_exchange a"
      "a_userinfo a" "hr_code r" "x_first x" s]
  note simps = anonymous_pages [OF ses] anonymous_actions [OF ses] http_outcome_def page_outcome_def
    cookie_outcome_def oauth_Login_def oauth_Logout_def
  have "serve_endpoint a x r arg e s = (fst (serve_endpoint a x r arg e empty_db), s)
      \<and> anonymous_outcome (fault (x_first x) 0) (fst (serve_endpoint a x r arg e s))"
  proof (cases e)
    case EpCallback
    with callback show ?thesis by (auto simp: cookie_outcome_def)
  qed (use assms(2) rpc in \<open>simp_all add: simps split: option.split\<close>)
  then show "serve_endpoint a x r arg e s = (fst (serve_endpoint a x r arg e empty_db), s)"
    and "anonymous_outcome (fault (x_first x) 0) (fst (serve_endpoint a x r arg e s))"
    by blast+
qed

text \<open>C3. Without credentials nothing is learned and nothing is changed, with one exception. Take a request
  that carries no valid session, no known key and is not the return of a sign-in begun here. It
  leaves the database as it is, and its answer does not depend on the database: status, body and
  error text are those that the same request gets from the empty database. The answer is the fixed
  text of a 401 or 404, a redirect, the sign-in page, a file, or a refusal of the RPC whose text is
  empty, \<open>invalid key\<close> or that of a failing key lookup, which the interceptor passes on; no session
  cookie is set. Only \<open>POST /scheduler/run\<close>, which asks for no credentials, runs the promotion of
  due jobs and answers their number.\<close>

theorem http_unauthenticated:
  assumes "anonymous a r s"
  shows "(http_serve a x r s = (fst (http_serve a x r empty_db), s)
      \<and> anonymous_outcome (fault (x_first x) 0) (fst (http_serve a x r s)))
    \<or> (hr_method r = ''POST'' \<and> path_segments (hr_path r) = [''scheduler'', ''run'']
        \<and> http_serve a x r s = http_outcome (web_RunScheduler (a_driver a) (x_first x) s)
        \<and> snd (http_serve a x r s) = snd (d_PromoteScheduledJobs (a_driver a) 1000 (x_first x) s))"
proof (cases "mux_route (serve_routes a) (hr_method r) (hr_path r)")
  case (MuxHandler rt e)
  show ?thesis
  proof (cases "e = EpRunScheduler")
    case True
    with MuxHandler mux_route_sound [OF MuxHandler] scheduler_route [of rt a]
    have rt: "rt = \<lparr>r_method = Some ''POST'', r_segs = [Lit ''scheduler'', Lit ''run''], r_subtree = False\<rparr>"
      and m: "hr_method r = ''POST''" and sm: "segs_match (r_segs rt) (r_subtree rt) (path_segments (hr_path r))"
      by auto
    have "path_segments (hr_path r) = [''scheduler'', ''run'']"
      using sm segs_match_literals [of "[''scheduler'', ''run'']" "path_segments (hr_path r)"] by (simp add: rt)
    moreover have serve: "http_serve a x r s = http_outcome (web_RunScheduler (a_driver a) (x_first x) s)"
      using MuxHandler True by (simp add: http_serve_def)
    moreover have "snd (http_serve a x r s) = snd (d_PromoteScheduledJobs (a_driver a) 1000 (x_first x) s)"
      by (simp add: serve http_outcome_def web_RunScheduler_def split: prod.split sum.split)
    ultimately show ?thesis using m by blast
  next
    case False
    with anonymous_endpoint [OF assms False] MuxHandler show ?thesis
      by (simp only: http_serve_def mux_choice.case) blast
  qed
qed (simp_all add: http_serve_def)

lemma http_unauthenticated_witness:
  "http_serve sample_app sample_exec job_request sample_db
    = (fst (http_serve sample_app sample_exec job_request empty_db), sample_db)"
proof -
  have "anonymous sample_app job_request sample_db" by code_simp
  moreover have "path_segments (hr_path job_request) \<noteq> [''scheduler'', ''run'']" by code_simp
  ultimately show ?thesis using http_unauthenticated [of sample_app job_request sample_db sample_exec] by blast
qed

subsection \<open>What the validation keeps from the handlers\<close>

lemma mapErr_no_panic [simp]: "mapErr e opname i \<noteq> Panic" "internal_error e \<noteq> Panic"
  by (simp_all add: mapErr_def internal_error_def split: go_error.split)

lemma svc_no_panic:
  "fst (svc_CreateJob D rt m now c s) \<noteq> Inl Panic" "fst (svc_ClaimJob D rt ctx q c s) \<noteq> Inl Panic"
  "fst (svc_CompleteJob D i v c s) \<noteq> Inl Panic" "fst (svc_HeartbeatJob D i p c s) \<noteq> Inl Panic"
  "fst (svc_CancelJob D i c s) \<noteq> Inl Panic" "fst (svc_PromoteJob D i c s) \<noteq> Inl Panic"
  "fst (svc_GetJob D rt i c s) \<noteq> Inl Panic" "fst (svc_GetJobState D i c s) \<noteq> Inl Panic"
  "fst (svc_ListQueues D c s) \<noteq> Inl Panic" "fst (svc_GetQueue D q c s) \<noteq> Inl Panic"
  "fst (svc_PauseQueue D q c s) \<noteq> Inl Panic" "fst (svc_ResumeQueue D q c s) \<noteq> Inl Panic"
  by (auto simp: svc_CreateJob_def svc_ClaimJob_def svc_CompleteJob_def svc_HeartbeatJob_def
      svc_CancelJob_def svc_PromoteJob_def svc_GetJob_def svc_GetJobState_def svc_ListQueues_def
      svc_GetQueue_def svc_PauseQueue_def svc_ResumeQueue_def parseJobID_def
      split: prod.split sum.split option.split)

lemma svc_list_no_panic: "0 \<le> n \<Longrightarrow> fst (svc_ListJobs D rt q st n a c s) \<noteq> Inl Panic"
  by (auto simp: svc_ListJobs_def Let_def split: prod.split sum.split)

text \<open>The delay of a failed job before jitter is computed on 64 bits and may wrap.\<close>

definition jitter_overflow :: "go_rt \<Rightarrow> job_row \<Rightarrow> bool" where
  "jitter_overflow rt row \<longleftrightarrow> as_bool (json_map (j_metadata row) ''backoff_jitter'')
     \<and> raw_backoff rt (json_map (j_metadata row)) (j_attempt row) \<le> - 2"

lemma backoff_ms_panic: "backoff_ms rt rnd row = Inl e \<longleftrightarrow> e = Panic \<and> jitter_overflow rt row"
proof -
  have "go_div ms 2 + 1 \<le> 0 \<longleftrightarrow> ms \<le> - 2" for ms using go_div_2_less_iff [of ms] by linarith
  then show ?thesis by (auto simp: backoff_ms_def add_jitter_def jitter_overflow_def Let_def)
qed

lemma svc_fail_panic:
  assumes "fst (svc_FailJob D rt i m c0 mid c s) = Inl Panic"
  shows "\<exists>v. fst (d_GetJob D i c0 s) = Inr v \<and> jitter_overflow rt v"
proof -
  obtain res s1 where g: "d_GetJob D i c0 s = (res, s1)" by (cases "d_GetJob D i c0 s")
  with assms obtain v where v: "res = Inr v"
    by (cases res) (auto simp: svc_FailJob_def parseJobID_def split: if_splits)
  with g assms have "backoff_ms rt (rand_src c0) v = Inl Panic"
    by (auto simp: svc_FailJob_def parseJobID_def backoff_ms_panic split: if_splits sum.splits prod.splits)
  then have "jitter_overflow rt v" by (simp add: backoff_ms_panic)
  with g v show ?thesis by simp
qed

lemma dispatch_panic:
  assumes "message_rules m" and "fst (dispatch D rt x ctx m s) = Inl Panic"
  shows "\<exists>i e v. m = FailJobRequest i e \<and> fst (d_GetJob D i (x_second x) s) = Inr v \<and> jitter_overflow rt v"
proof (cases m)
  case (FailJobRequest i e)
  with assms(2) show ?thesis by (auto simp: map_response_Inl dest: svc_fail_panic)
next
  case (ListJobsRequest st q lim a)
  with assms have "0 \<le> get_int lim" by (auto simp: get_int_def when_set_def split: option.splits)
  with assms(2) ListJobsRequest show ?thesis by (simp add: map_response_Inl svc_list_no_panic)
qed (use assms(2) in \<open>simp_all add: map_response_Inl svc_no_panic\<close>)

lemma lookup_other_tables:
  assumes "s1 = s \<or> (\<exists>token. s1 = snd (LookupAPIKey d sha token c s))"
  shows "jobs s1 = jobs s \<and> queues s1 = queues s \<and> users s1 = users s \<and> workers s1 = workers s"
  using assms by (auto simp: LookupAPIKey_def split: option.split)

text \<open>C10. The validation stands before every handler: a message that breaks a rule of the proto
  files is refused (as invalid, or before that for its key), and of the database only the time
  stamp of the client key can change; and a message that keeps the rules makes the server panic
  in no other way than a failure report of a job with a jittered delay that has wrapped below
  zero. The negative page size that makes \<open>ListJobs\<close> panic, and an empty job id, never arrive.\<close>

theorem rpc_validated:
  assumes "good_app a" and "received = Inr m"
  shows "(\<not> message_rules m \<longrightarrow>
      (\<exists>code e s1. rpc_call a x h proc received s = (Inl (RpcError code e), s1)
        \<and> code \<in> {CodeUnauthenticated, CodePermissionDenied, CodeInvalidArgument}
        \<and> jobs s1 = jobs s \<and> queues s1 = queues s \<and> users s1 = users s \<and> workers s1 = workers s))
    \<and> (fst (rpc_call a x h proc received s) = Inl Panic \<longrightarrow>
        (\<exists>i e v s1. m = FailJobRequest i e \<and> job_id_ok i \<and> jobs s1 = jobs s
           \<and> fst (d_GetJob (a_driver a) i (x_second x) s1) = Inr v \<and> jitter_overflow (a_rt a) v))"
proof (cases rule: rpc_call_cases [of a x h proc received s])
  case (refused code e)
  then show ?thesis by auto
next
  case (invalid e s1)
  then have "\<exists>t. e = RpcError CodeInvalidArgument t"
    using assms(2) by (auto simp: validating_Receive_def split: option.splits)
  with invalid(1) lookup_other_tables [OF invalid(3)] show ?thesis by auto
next
  case (handled m' ctx s1)
  have "enforces_rules (a_validate a)" using assms(1) by (simp add: good_app_def)
  from validating_Receive_Inr [OF this handled(1)] assms(2) have m: "m' = m" "message_rules m" by auto
  have "\<exists>i e v s1. m = FailJobRequest i e \<and> job_id_ok i \<and> jobs s1 = jobs s
      \<and> fst (d_GetJob (a_driver a) i (x_second x) s1) = Inr v \<and> jitter_overflow (a_rt a) v"
    if "fst (rpc_call a x h proc received s) = Inl Panic"
  proof -
    from that handled(2) m(1) have "fst (dispatch (a_driver a) (a_rt a) x ctx m s1) = Inl Panic" by simp
    then obtain i e v where "m = FailJobRequest i e"
      and "fst (d_GetJob (a_driver a) i (x_second x) s1) = Inr v" and "jitter_overflow (a_rt a) v"
      using dispatch_panic [OF m(2)] by blast
    moreover from this(1) m(2) have "job_id_ok i" by simp
    ultimately show ?thesis using lookup_other_tables [OF handled(3)] by blast
  qed
  with m(2) show ?thesis by blast
qed

lemma rpc_validated_witness:
  "\<exists>code e s1. rpc_call sample_app sample_exec ''Bearer stv_abc'' ''/stevy.v1.JobService/ListJobs''
       (Inr (ListJobsRequest None None (Some (-5)) None)) sample_db2 = (Inl (RpcError code e), s1)
     \<and> code \<in> {CodeUnauthenticated, CodePermissionDenied, CodeInvalidArgument}"
proof -
  have "\<not> message_rules (ListJobsRequest None None (Some (-5)) None)" by (simp add: when_set_def)
  with rpc_validated [OF sample_app_good refl, of "ListJobsRequest None None (Some (-5)) None" sample_exec
      "''Bearer stv_abc''" "''/stevy.v1.JobService/ListJobs''" sample_db2]
  show ?thesis by blast
qed

end
