(* ===== verification/Route_Props.thy ===== *)
theory Route_Props
  imports Access_Props
begin

text \<open>
  Which request reaches which handler, and when \<open>stevy serve\<close> serves at all.
\<close>

subsection \<open>Patterns of the routes\<close>

text \<open>The mount paths of the RPC server name a service, with a dot; public files have plain names,
  none of which looks like a job id.\<close>

definition mounts_ok :: "app \<Rightarrow> bool" where
  "mounts_ok a \<longleftrightarrow>
     (\<forall>p \<in> set (a_mounts a). r_method (parse_pattern p) = None
        \<and> (\<exists>svc. r_segs (parse_pattern p) = [Lit svc] \<and> CHR ''.'' \<in> set svc) \<and> r_subtree (parse_pattern p))
     \<and> (\<forall>n \<in> set (a_public a). n \<noteq> [] \<and> CHR ''/'' \<notin> set n \<and> CHR ''{'' \<notin> set n \<and> \<not> job_id_ok n)"

abbreviation parsed :: "(string \<times> endpoint) list \<Rightarrow> (route \<times> endpoint) list" where
  "parsed ps \<equiv> map (\<lambda>(p, e). (parse_pattern p, e)) ps"

lemma fixed_routes:
  "parsed ([(''/v1/'', EpRest)] @ oauth_RegisterRoutes @ keys_RegisterRoutes @ web_patterns)
   = [(\<lparr>r_method = None, r_segs = [Lit ''v1''], r_subtree = True\<rparr>, EpRest),
      (\<lparr>r_method = None, r_segs = [Lit ''auth'', Lit ''google'', Lit ''login''], r_subtree = False\<rparr>, EpLogin),
      (\<lparr>r_method = None, r_segs = [Lit ''auth'', Lit ''google'', Lit ''callback''], r_subtree = False\<rparr>, EpCallback),
      (\<lparr>r_method = None, r_segs = [Lit ''auth'', Lit ''logout''], r_subtree = False\<rparr>, EpLogout),
      (\<lparr>r_method = Some ''POST'', r_segs = [Lit ''keys''], r_subtree = False\<rparr>, EpKeysCreate),
      (\<lparr>r_method = Some ''GET'', r_segs = [Lit ''keys'', Lit ''list''], r_subtree = False\<rparr>, EpKeysList),
      (\<lparr>r_method = Some ''DELETE'', r_segs = [Lit ''keys'', Wild], r_subtree = False\<rparr>, EpKeysDelete),
      (\<lparr>r_method = Some ''POST'', r_segs = [Lit ''scheduler'', Lit ''run''], r_subtree = False\<rparr>, EpRunScheduler),
      (\<lparr>r_method = Some ''POST'', r_segs = [Lit ''queues'', Wild, Lit ''pause''], r_subtree = False\<rparr>, EpPauseQueue),
      (\<lparr>r_method = Some ''POST'', r_segs = [Lit ''queues'', Wild, Lit ''resume''], r_subtree = False\<rparr>, EpResumeQueue),
      (\<lparr>r_method = Some ''GET'', r_segs = [Lit ''queues''], r_subtree = False\<rparr>, EpQueuesPage),
      (\<lparr>r_method = Some ''GET'', r_segs = [Lit ''workers''], r_subtree = False\<rparr>, EpWorkersPage),
      (\<lparr>r_method = Some ''GET'', r_segs = [Lit ''workers'', Lit ''list''], r_subtree = False\<rparr>, EpWorkersJSON),
      (\<lparr>r_method = Some ''POST'', r_segs = [Lit ''workers''], r_subtree = False\<rparr>, EpCreateWorker),
      (\<lparr>r_method = Some ''DELETE'', r_segs = [Lit ''workers'', Wild], r_subtree = False\<rparr>, EpDeleteWorker),
      (\<lparr>r_method = Some ''GET'', r_segs = [Lit ''keys''], r_subtree = False\<rparr>, EpKeysPage),
      (\<lparr>r_method = Some ''GET'', r_segs = [Wild], r_subtree = False\<rparr>, EpJobPage),
      (\<lparr>r_method = None, r_segs = [], r_subtree = True\<rparr>, EpIndex)]"
  by code_simp

lemma path_segments_one: "CHR ''/'' \<notin> set n \<Longrightarrow> path_segments (''/'' @ n) = [n]"
  unfolding path_segments_def trim_prefix_append by (rule split_on_single)

lemma parse_public:
  assumes "n \<noteq> []" and "CHR ''/'' \<notin> set n" and "CHR ''{'' \<notin> set n"
  shows "parse_pattern (''GET /'' @ n) = \<lparr>r_method = Some ''GET'', r_segs = [Lit n], r_subtree = False\<rparr>"
proof -
  have "cut (''GET'' @ CHR '' '' # (''/'' @ n)) CHR '' '' = Some (''GET'', ''/'' @ n)"
    by (rule cut_append) simp
  then have c: "cut (''GET /'' @ n) CHR '' '' = Some (''GET'', ''/'' @ n)" by simp
  have "\<not> has_prefix n ''{''" using assms(3) by (auto simp: has_prefix_iff)
  with assms(1) show ?thesis
    by (simp only: parse_pattern_def c option.case prod.case Let_def path_segments_one [OF assms(2)])
      (simp add: parse_segment_def)
qed

lemma serve_routes_parts:
  "serve_routes a = parsed (map (\<lambda>p. (p, EpRpc)) (a_mounts a))
     @ parsed ([(''/v1/'', EpRest)] @ oauth_RegisterRoutes @ keys_RegisterRoutes @ web_patterns)
     @ parsed (public_patterns a)"
  by (simp add: serve_routes_def serve_patterns_def)

lemma with_method_append: "with_method m (xs @ ys) path = with_method m xs path @ with_method m ys path"
  by (simp add: with_method_def)

lemma mounts_other_method:
  assumes "mounts_ok a"
  shows "with_method (Some meth) (parsed (map (\<lambda>p. (p, EpRpc)) (a_mounts a))) path = []"
  using assms by (auto simp: with_method_def mounts_ok_def filter_empty_conv)

lemma public_no_match:
  assumes "mounts_ok a" and "meth \<noteq> ''GET'' \<or> (\<forall>n. path = [n] \<longrightarrow> job_id_ok n)"
  shows "with_method (Some meth) (parsed (public_patterns a)) path = []"
proof -
  have api: "parse_pattern ''GET /openapi.yaml'' =
      \<lparr>r_method = Some ''GET'', r_segs = [Lit ''openapi.yaml''], r_subtree = False\<rparr>" by code_simp
  have no: "\<not> job_id_ok ''openapi.yaml''" by simp
  have lit: "segs_match [Lit n] False path \<longleftrightarrow> path = [n]" for n
    using segs_match_literals [of "[n]" path] by simp
  have r: "r_method r \<noteq> Some meth \<or> \<not> segs_match (r_segs r) (r_subtree r) path"
    if re: "(r, e) \<in> set (parsed (public_patterns a))" for r e
  proof -
    from re consider "r = parse_pattern ''GET /openapi.yaml''"
      | n where "n \<in> set (a_public a)" "r = parse_pattern (''GET /'' @ n)"
      by (auto simp: public_patterns_def split: if_splits)
    then show ?thesis
    proof cases
      case 1
      with assms(2) no show ?thesis by (auto simp: api lit simp del: segs_match.simps)
    next
      case (2 n)
      with assms(1) have "n \<noteq> []" "CHR ''/'' \<notin> set n" "CHR ''{'' \<notin> set n" "\<not> job_id_ok n"
        by (auto simp: mounts_ok_def)
      with 2 assms(2) show ?thesis by (auto simp only: parse_public route.simps lit)
    qed
  qed
  show ?thesis
    unfolding with_method_def filter_empty_conv
  proof
    fix x
    assume x: "x \<in> set (parsed (public_patterns a))"
    obtain q e where qe: "x = (q, e)" by (cases x)
    with x r [of q e] show "\<not> (case x of (r, e) \<Rightarrow> r_method r = Some meth \<and> segs_match (r_segs r) (r_subtree r) path)"
      by (simp only: prod.case) blast
  qed
qed

lemma job_id_chars:
  assumes "job_id_ok i"
  shows "length i = 26" and "CHR ''/'' \<notin> set i" and "CHR ''.'' \<notin> set i"
proof -
  have *: "\<not> ulid_char CHR ''/''" "\<not> ulid_char CHR ''.''" by code_simp+
  have **: "\<not> char_in CHR ''0'' CHR ''7'' CHR ''/''" "\<not> char_in CHR ''0'' CHR ''7'' CHR ''.''" by code_simp+
  obtain c t where "i = c # t" using assms by (cases i) auto
  with assms * ** show "length i = 26" "CHR ''/'' \<notin> set i" "CHR ''.'' \<notin> set i"
    by (auto simp: list_all_iff)
qed

lemma queue_name_chars:
  assumes "queue_name_ok q"
  shows "q \<noteq> []" and "CHR ''/'' \<notin> set q" and "CHR ''.'' \<notin> set q"
proof -
  have *: "\<not> name_char CHR ''/''" "\<not> name_char CHR ''.''" by code_simp+
  have "(word_first s \<longrightarrow> CHR ''/'' \<notin> set s \<and> CHR ''.'' \<notin> set s)
      \<and> (word_rest s \<longrightarrow> CHR ''/'' \<notin> set s \<and> CHR ''.'' \<notin> set s)" for s
    by (induction s) (use * in auto)
  with assms show "q \<noteq> []" "CHR ''/'' \<notin> set q" "CHR ''.'' \<notin> set q"
    by (auto simp: queue_name_ok_def)
qed

lemma single_match:
  assumes "path_segments path = p" and "clean_segments p" and "last p \<noteq> []"
    and "with_method (Some meth) rs p = [(r, e)]" and "\<not> r_subtree r"
  shows "mux_route rs meth path = MuxHandler r e"
  using assms by (simp add: mux_route_def mux_match_def best_match_def exact_match_def)

lemma only_fixed_match:
  assumes "mounts_ok a" and "meth \<noteq> ''GET'' \<or> (\<forall>n. path = [n] \<longrightarrow> job_id_ok n)"
  shows "with_method (Some meth) (serve_routes a) path = with_method (Some meth)
     (parsed ([(''/v1/'', EpRest)] @ oauth_RegisterRoutes @ keys_RegisterRoutes @ web_patterns)) path"
  by (simp only: serve_routes_parts with_method_append mounts_other_method [OF assms(1)]
      public_no_match [OF assms] append_Nil append_Nil2)

lemma job_page_route:
  assumes "mounts_ok a" and "job_id_ok i"
  shows "mux_route (serve_routes a) ''GET'' (''/'' @ i) =
    MuxHandler \<lparr>r_method = Some ''GET'', r_segs = [Wild], r_subtree = False\<rparr> EpJobPage"
proof (rule single_match)
  note chars = job_id_chars [OF assms(2)]
  show "path_segments (''/'' @ i) = [i]" using chars(2) by (rule path_segments_one)
  show "clean_segments [i]" using chars(3) by (auto simp: clean_segments_def)
  show "last [i] \<noteq> []" using chars(1) by auto
  have "i \<noteq> ''queues''" "i \<noteq> ''workers''" "i \<noteq> ''keys''" "i \<noteq> []" using chars(1) by auto
  then have "with_method (Some ''GET'')
     (parsed ([(''/v1/'', EpRest)] @ oauth_RegisterRoutes @ keys_RegisterRoutes @ web_patterns)) [i] =
    [(\<lparr>r_method = Some ''GET'', r_segs = [Wild], r_subtree = False\<rparr>, EpJobPage)]"
    by (simp only: fixed_routes) (simp add: with_method_def)
  then show "with_method (Some ''GET'') (serve_routes a) [i] =
    [(\<lparr>r_method = Some ''GET'', r_segs = [Wild], r_subtree = False\<rparr>, EpJobPage)]"
    using only_fixed_match [OF assms(1), of "''GET''" "[i]"] assms(2) by (simp del: job_id_ok.simps)
qed simp

lemma queue_route:
  assumes "mounts_ok a" and "queue_name_ok q" and "(act, e) \<in> {(''pause'', EpPauseQueue), (''resume'', EpResumeQueue)}"
  shows "path_segments (''/queues/'' @ q @ ''/'' @ act) = [''queues'', q, act]"
    and "mux_route (serve_routes a) ''POST'' (''/queues/'' @ q @ ''/'' @ act) =
      MuxHandler \<lparr>r_method = Some ''POST'', r_segs = [Lit ''queues'', Wild, Lit act], r_subtree = False\<rparr> e"
proof -
  note chars = queue_name_chars [OF assms(2)]
  have act: "CHR ''/'' \<notin> set act" "act \<noteq> []" "act \<noteq> ''.''" "act \<noteq> ''..''" using assms(3) by auto
  have "split_on CHR ''/'' (''queues'' @ CHR ''/'' # q @ CHR ''/'' # act) = [''queues'', q, act]"
    using chars act by (simp add: split_on_append split_on_single)
  then show segs: "path_segments (''/queues/'' @ q @ ''/'' @ act) = [''queues'', q, act]"
    by (simp add: path_segments_def trim_prefix_def has_prefix_def)
  show "mux_route (serve_routes a) ''POST'' (''/queues/'' @ q @ ''/'' @ act) =
      MuxHandler \<lparr>r_method = Some ''POST'', r_segs = [Lit ''queues'', Wild, Lit act], r_subtree = False\<rparr> e"
  proof (rule single_match [OF segs])
    show "clean_segments [''queues'', q, act]" using chars act by (auto simp: clean_segments_def)
    show "last [''queues'', q, act] \<noteq> []" using act by simp
    have "with_method (Some ''POST'')
       (parsed ([(''/v1/'', EpRest)] @ oauth_RegisterRoutes @ keys_RegisterRoutes @ web_patterns)) [''queues'', q, act] =
      [(\<lparr>r_method = Some ''POST'', r_segs = [Lit ''queues'', Wild, Lit act], r_subtree = False\<rparr>, e)]"
      using assms(3) chars(1) by (simp only: fixed_routes) (auto simp: with_method_def)
    then show "with_method (Some ''POST'') (serve_routes a) [''queues'', q, act] =
      [(\<lparr>r_method = Some ''POST'', r_segs = [Lit ''queues'', Wild, Lit act], r_subtree = False\<rparr>, e)]"
      using only_fixed_match [OF assms(1), of "''POST''" "[''queues'', q, act]"] by simp
  qed simp
qed

text \<open>C36. The routes lead where they should for every value that the validation admits: the path of
  a job id is answered by the page of exactly that job, never by another page, the RPC mounts or
  a public file; and pausing or resuming a queue through the dashboard reaches the driver with
  exactly the name of the queue in the path.\<close>

theorem job_routes:
  assumes "mounts_ok a" and "job_id_ok i" and "queue_name_ok q"
  shows "(hr_method r = ''GET'' \<and> hr_path r = ''/'' @ i \<longrightarrow> http_serve a x r s = serve_endpoint a x r i EpJobPage s)
    \<and> (hr_method r = ''POST'' \<and> hr_path r = ''/queues/'' @ q @ ''/'' @ ''pause'' \<longrightarrow>
        http_serve a x r s = serve_endpoint a x r q EpPauseQueue s)
    \<and> (hr_method r = ''POST'' \<and> hr_path r = ''/queues/'' @ q @ ''/'' @ ''resume'' \<longrightarrow>
        http_serve a x r s = serve_endpoint a x r q EpResumeQueue s)"
proof -
  have wild: "first_or_empty (wild_values [Wild] [i]) = i"
    "first_or_empty (wild_values [Lit ''queues'', Wild, Lit act] [''queues'', q, act]) = q" for act
    by (simp_all add: first_or_empty_def)
  note pause = queue_route [OF assms(1,3), of "''pause''" EpPauseQueue, simplified]
    and resume = queue_route [OF assms(1,3), of "''resume''" EpResumeQueue, simplified]
    and segs = path_segments_one [OF job_id_chars(2) [OF assms(2)]]
  show ?thesis
    using job_page_route [OF assms(1,2)] pause resume segs wild by (simp add: http_serve_def)
qed

lemma job_routes_witness:
  "http_serve sample_app sample_exec (sample_http ''GET'' ''/01arz3ndektsv4rrffq69g5fav'') sample_db
   = serve_endpoint sample_app sample_exec (sample_http ''GET'' ''/01arz3ndektsv4rrffq69g5fav'')
       ''01arz3ndektsv4rrffq69g5fav'' EpJobPage sample_db"
proof -
  have "parse_pattern ''/stevy.v1.JobService/'' = \<lparr>r_method = None, r_segs = [Lit ''stevy.v1.JobService''], r_subtree = True\<rparr>"
    "parse_pattern ''/stevy.v1.QueueService/'' = \<lparr>r_method = None, r_segs = [Lit ''stevy.v1.QueueService''], r_subtree = True\<rparr>"
    by code_simp+
  then have "mounts_ok sample_app" by (simp add: mounts_ok_def sample_app_def)
  moreover have "job_id_ok ''01arz3ndektsv4rrffq69g5fav''" "queue_name_ok ''mail''" by code_simp+
  ultimately show ?thesis
    using job_routes [of sample_app "''01arz3ndektsv4rrffq69g5fav''" "''mail''"
        "sample_http ''GET'' ''/01arz3ndektsv4rrffq69g5fav''" sample_exec sample_db]
    by (simp add: sample_http_def)
qed

subsection \<open>Starting\<close>

definition locks_jobs :: "database driver \<Rightarrow> bool" where
  "locks_jobs D \<longleftrightarrow> (\<exists>cfg. D = pg_driver cfg \<and> 0 < pg_lockDuration cfg)
     \<or> (\<exists>cfg. D = sqlite_driver cfg \<and> 0 < sq_lockDuration cfg)"

lemma jobLockDuration_pos: "0 < jobLockDuration ff env"
  by (auto simp: jobLockDuration_def Let_def split: option.split)

lemma openBackend_driver:
  assumes "openBackend ff env pg0 sq0 f dsn = Inr b"
  shows "is_backend (b_driver b) \<and> locks_jobs (b_driver b)"
  using assms jobLockDuration_pos [of ff env]
  by (auto simp: openBackend_def locks_jobs_def Let_def split: sum.splits option.splits dialect.splits)

lemma mustEnv_Inr: "mustEnv env k = Inr v \<Longrightarrow> env k = v \<and> v \<noteq> []"
  by (simp add: mustEnv_def split: if_splits)

lemma cmdServe_Serving:
  assumes "cmdServe out env args = Serving a addr migrated"
  obtains flags migrate b v where "serveArgs args = Inr flags" and "parse_flags False flags = FlagOk migrate"
    and "migrated = (migrate \<or> env ''MIGRATE'' = ''true'')"
    and "openBackend (out_dur_fraction out) env (out_pg out) (out_sqlite out) (out_open_fault out)
      (env ''DATABASE_URL'') = Inr b"
    and "a_driver a = b_driver b" and "out_validator out = Inr v" and "a_validate a = v"
    and "a_mac a = session_sign (env ''SESSION_SECRET'') \<and> a_sha a = sha256Hex"
    and "\<forall>k \<in> {''DATABASE_URL'', ''SESSION_SECRET'', ''GOOGLE_CLIENT_ID'', ''GOOGLE_CLIENT_SECRET''}. env k \<noteq> []"
proof -
  from assms obtain flags where flags: "serveArgs args = Inr flags"
    by (cases "serveArgs args") (simp_all add: cmdServe_def)
  from assms flags obtain migrate where mig: "parse_flags False flags = FlagOk migrate"
    by (cases "parse_flags False flags") (simp_all add: cmdServe_def)
  from assms flags mig obtain dsn where dsn: "mustEnv env ''DATABASE_URL'' = Inr dsn"
    by (cases "mustEnv env ''DATABASE_URL''") (simp_all add: cmdServe_def)
  from assms flags mig dsn obtain b where b: "openBackend (out_dur_fraction out) env (out_pg out)
      (out_sqlite out) (out_open_fault out) dsn = Inr b"
    by (cases "openBackend (out_dur_fraction out) env (out_pg out) (out_sqlite out) (out_open_fault out) dsn")
      (simp_all add: cmdServe_def)
  let ?m = "migrate \<or> env ''MIGRATE'' = ''true''"
  from assms flags mig dsn b have nf: "(if ?m then runMigrations out b else None) = None"
    by (cases "if ?m then runMigrations out b else None") (simp_all add: cmdServe_def Let_def)
  from assms flags mig dsn b nf obtain sec cid csec where env: "mustEnv env ''SESSION_SECRET'' = Inr sec"
    "mustEnv env ''GOOGLE_CLIENT_ID'' = Inr cid" "mustEnv env ''GOOGLE_CLIENT_SECRET'' = Inr csec"
    by (cases "mustEnv env ''SESSION_SECRET''"; cases "mustEnv env ''GOOGLE_CLIENT_ID''";
        cases "mustEnv env ''GOOGLE_CLIENT_SECRET''") (simp_all add: cmdServe_def Let_def)
  from assms flags mig dsn b nf env obtain v where v: "out_validator out = Inr v"
    by (cases "out_validator out") (simp_all add: cmdServe_def Let_def)
  have keys: "\<forall>k \<in> {''DATABASE_URL'', ''SESSION_SECRET'', ''GOOGLE_CLIENT_ID'', ''GOOGLE_CLIENT_SECRET''}. env k \<noteq> []"
    using dsn env by (auto dest!: mustEnv_Inr)
  show thesis
    using assms flags mig dsn b nf env v mustEnv_Inr [OF dsn] mustEnv_Inr [OF env(1)]
    by (intro that [OF flags mig _ _ _ v _ _ keys]) (auto simp: cmdServe_def Let_def)
qed

text \<open>A leading argument that is not the word \<open>serve\<close> is no flag of the server: with no such word
  the flags are those of an empty command line.\<close>

lemma serve_command_flags:
  assumes "command_of args = CmdServe" and "serveArgs args = Inr flags" and "parse_flags False flags = FlagOk True"
  shows "2 \<le> length args \<and> args ! 1 = ''serve''"
proof (rule ccontr)
  assume no: "\<not> ?thesis"
  with assms(1) have "length args \<le> 1 \<or> args ! 1 = []"
    by (cases args; cases "tl args") (auto simp: command_of_def firstArg_def Let_def split: if_splits)
  with no assms(2) have "flags = [] \<or> (\<exists>t. flags = [] # t)"
    by (cases args; cases "tl args") (auto simp: serveArgs_def split: if_splits)
  with assms(3) show False by (auto simp: has_prefix_def)
qed

lemma stevy_main_server:
  assumes "stevy_main out env args = ServerRuns a addr"
  obtains m where "command_of args = CmdServe" and "cmdServe out env args = Serving a addr m"
  using assms
  by (cases "cmdServe out env args")
    (auto simp: stevy_main_def cmdMigrate_def cmdScheduler_def
      split: command.splits sum.splits option.splits)

lemma stevy_main_scheduler:
  assumes "stevy_main out env args = SchedulerRuns D tick"
  shows "is_backend D \<and> locks_jobs D \<and> 0 < tick"
proof -
  have "cmdScheduler out env = SchedulerRuns D tick"
    using assms by (cases "cmdServe out env args")
      (auto simp: stevy_main_def cmdMigrate_def split: command.splits sum.splits option.splits)
  then show ?thesis
    using openBackend_driver
    by (auto simp: cmdScheduler_def scheduler_interval_def Let_def split: sum.splits option.splits if_splits)
qed

text \<open>C35. A process that starts is a good one. When \<open>stevy\<close> gets as far as serving, the four mandatory
  settings are there, the driver is one of the two with a lock duration above zero, every
  received message is checked by the validator, sessions are signed with HMAC-SHA256 under the
  configured secret and keys kept as SHA-256 digests, and the database was migrated only because the
  environment or a flag after the word \<open>serve\<close> asked for it; so whatever requests and ticks
  follow, the rows and the accounts conform. When it runs as scheduler, its driver is such a one
  too and its interval is positive.\<close>

theorem stevy_starts:
  assumes "\<forall>v. out_validator out = Inr v \<longrightarrow> enforces_rules v"
  shows "(\<forall>a addr. stevy_main out env args = ServerRuns a addr \<longrightarrow>
      good_app a \<and> locks_jobs (a_driver a)
      \<and> a_mac a = session_sign (env ''SESSION_SECRET'') \<and> a_sha a = sha256Hex
      \<and> (\<forall>k \<in> {''DATABASE_URL'', ''SESSION_SECRET'', ''GOOGLE_CLIENT_ID'', ''GOOGLE_CLIENT_SECRET''}. env k \<noteq> [])
      \<and> (cmdServe out env args = Serving a addr True \<longrightarrow>
            env ''MIGRATE'' = ''true'' \<or> (2 \<le> length args \<and> args ! 1 = ''serve''))
      \<and> (\<forall>evs. (\<forall>ev \<in> set evs. event_ok (a_sha a) ev) \<longrightarrow>
            table_conforms (jobs (server_run a evs empty_db)) \<and> accounts_ok (a_sha a) (server_run a evs empty_db)))
    \<and> (\<forall>D tick. stevy_main out env args = SchedulerRuns D tick \<longrightarrow> is_backend D \<and> locks_jobs D \<and> 0 < tick)"
proof (intro conjI allI impI ballI)
  fix D tick
  assume "stevy_main out env args = SchedulerRuns D tick"
  then show "is_backend D" "locks_jobs D" "0 < tick" using stevy_main_scheduler by blast+
next
  fix a addr
  assume "stevy_main out env args = ServerRuns a addr"
  then obtain m where cmd: "command_of args = CmdServe" and sv: "cmdServe out env args = Serving a addr m"
    by (rule stevy_main_server)
  from sv obtain flags migrate b v where
    f: "serveArgs args = Inr flags" "parse_flags False flags = FlagOk migrate"
      "m = (migrate \<or> env ''MIGRATE'' = ''true'')"
    and b: "openBackend (out_dur_fraction out) env (out_pg out) (out_sqlite out) (out_open_fault out)
      (env ''DATABASE_URL'') = Inr b" "a_driver a = b_driver b"
    and v: "out_validator out = Inr v" "a_validate a = v"
    and signed: "a_mac a = session_sign (env ''SESSION_SECRET'') \<and> a_sha a = sha256Hex"
    and keys: "\<forall>k \<in> {''DATABASE_URL'', ''SESSION_SECRET'', ''GOOGLE_CLIENT_ID'', ''GOOGLE_CLIENT_SECRET''}. env k \<noteq> []"
    by (rule cmdServe_Serving)
  show good: "good_app a" and "locks_jobs (a_driver a)"
    using openBackend_driver [OF b(1)] b(2) v assms by (auto simp: good_app_def)
  show "a_mac a = session_sign (env ''SESSION_SECRET'')" "a_sha a = sha256Hex" using signed by blast+
  show "env k \<noteq> []" if "k \<in> {''DATABASE_URL'', ''SESSION_SECRET'', ''GOOGLE_CLIENT_ID'', ''GOOGLE_CLIENT_SECRET''}" for k
    using keys that by blast
  show "env ''MIGRATE'' = ''true'' \<or> (2 \<le> length args \<and> args ! 1 = ''serve'')"
    if "cmdServe out env args = Serving a addr True"
    using that sv serve_command_flags [OF cmd f(1)] f(2,3) by auto
  show "table_conforms (jobs (server_run a evs empty_db))" "accounts_ok (a_sha a) (server_run a evs empty_db)"
    if "\<forall>ev \<in> set evs. event_ok (a_sha a) ev" for evs
    using server_run_conforms [OF good that] by blast+
qed

definition sample_outside :: outside where
  "sample_outside = \<lparr>out_dur_fraction = (\<lambda>_ _ _. 0), out_pg = sample_pg, out_sqlite = sample_sqlite,
     out_open_fault = None, out_set_dialect = (\<lambda>_. None), out_goose_up = (\<lambda>_. None),
     out_validator = Inr (\<lambda>m. if message_rules m then None else Some ''invalid''),
     out_auth_url = (\<lambda>i u st. st), out_exchange = (\<lambda>i k u code. Inr code),
     out_userinfo = (\<lambda>_. Inl ''offline''), out_rt = sample_rt, out_fmt = (\<lambda>_. []),
     out_time_text = (\<lambda>t. Some (format_rfc3339 t)), out_float_text = Some, out_column_text = json_text compact,
     out_mounts = [], out_public = [], out_openapi = False\<rparr>"

definition sample_environment :: environment where
  "sample_environment k =
     (if k = ''DATABASE_URL'' then ''sqlite://q.db''
      else if k \<in> {''SESSION_SECRET'', ''GOOGLE_CLIENT_ID'', ''GOOGLE_CLIENT_SECRET''} then ''x'' else [])"

lemma stevy_starts_witness:
  "\<exists>a addr. stevy_main sample_outside sample_environment [''stevy'', ''serve'', ''--migrate''] = ServerRuns a addr
     \<and> good_app a \<and> locks_jobs (a_driver a)"
proof -
  have "case stevy_main sample_outside sample_environment [''stevy'', ''serve'', ''--migrate''] of
      ServerRuns a addr \<Rightarrow> True | _ \<Rightarrow> False"
    by code_simp
  then obtain a addr where s: "stevy_main sample_outside sample_environment [''stevy'', ''serve'', ''--migrate''] = ServerRuns a addr"
    by (auto split: process.splits)
  have "\<forall>v. out_validator sample_outside = Inr v \<longrightarrow> enforces_rules v"
    by (auto simp: sample_outside_def enforces_rules_def)
  from stevy_starts [OF this, of sample_environment "[''stevy'', ''serve'', ''--migrate'']"] s show ?thesis by blast
qed

text \<open>The flag alone is an unknown command, although \<open>serveArgs\<close> is ready to take it.\<close>

lemma migrate_flag_alone:
  "command_of [''stevy'', ''--migrate''] = CmdUnknown ''--migrate''
   \<and> serveArgs [''stevy'', ''--migrate''] = Inr [''--migrate'']
   \<and> stevy_main out env [''stevy'', ''--migrate''] = Exited 2"
  by (simp add: stevy_main_def command_of_def serveArgs_def firstArg_def)

subsection \<open>The configured lock\<close>

lemma jobLockDuration_whole:
  assumes "unitMap u = Some m" and "env ''JOB_LOCK_DURATION'' = show_nat n @ u"
  shows "jobLockDuration ff env =
    (if 0 < int n * m \<and> int n * m < 2 ^ 63 then int n * m else 30 * 1000000000)"
  using assms by (auto simp: jobLockDuration_def Let_def ParseDuration_whole)

lemma pg_claim_lock:
  assumes "pg_ClaimJob cfg q w c s = (Inr (Some v), s1)"
  shows "\<exists>r \<in> set (jobs s1). j_id r = j_id v \<and> j_status r = Running
    \<and> j_lock_expires_at r = Some (db_now c 1 + pg_lock_interval cfg)"
proof -
  from assms obtain r rs where
    r: "select_limit (pg_claimable c q) claim_key 1 (jobs s) = r # rs"
    and v: "v = job_row.truncate (pg_claim_set cfg (db_now c 1) w r)"
    and s1: "jobs s1 = update_where (\<lambda>x. j_id x = j_id r) (pg_claim_set cfg (db_now c 1) w) (jobs s)"
    by (auto simp: pg_ClaimJob_def Let_def split: option.splits if_splits list.splits)
  have "r \<in> set (jobs s)" using select_limitD [of r "pg_claimable c q" claim_key 1 "jobs s"] r by simp
  then have "pg_claim_set cfg (db_now c 1) w r \<in> set (jobs s1)" unfolding s1 by (force simp: update_where_def)
  then show ?thesis
    by (intro bexI) (simp_all add: v pg_claim_set_def job_row.defs)
qed

text \<open>C38. From the setting to the lock of a claimed job: when \<open>JOB_LOCK_DURATION\<close> is a whole number of one of
  Go's units, a job claimed on the PostgreSQL backend that the process opens is locked for exactly
  that time in whole milliseconds, counted from the claim (so not at all for a setting below one
  millisecond); a zero or a number that does not fit 64 bits is ignored for the default of 30
  seconds.\<close>

theorem configured_lock:
  assumes "openBackend ff env pg0 sq0 None dsn = Inr b" and "b_dialect b = Postgres"
    and "env ''JOB_LOCK_DURATION'' = show_nat n @ u" and "unitMap u = Some m"
    and "d_ClaimJob (b_driver b) q w c s = (Inr (Some v), s1)"
  shows "\<exists>r \<in> set (jobs s1). j_id r = j_id v \<and> j_status r = Running
    \<and> j_lock_expires_at r = Some (db_now c 1 +
        (if 0 < int n * m \<and> int n * m < 2 ^ 63 then int n * m div 1000000 * 1000000 else 30 * 1000000000))"
proof -
  let ?d = "if 0 < int n * m \<and> int n * m < 2 ^ 63 then int n * m else 30 * 1000000000"
  have b: "b_driver b = pg_driver (pg0\<lparr>pg_lockDuration := ?d\<rparr>)"
    using assms(1,2) jobLockDuration_whole [where env = env and n = n and ff = ff, OF assms(4,3)]
    by (auto simp: openBackend_def Let_def split: sum.splits dialect.splits)
  obtain r where r: "r \<in> set (jobs s1)" "j_id r = j_id v" "j_status r = Running"
    "j_lock_expires_at r = Some (db_now c 1 + pg_lock_interval (pg0\<lparr>pg_lockDuration := ?d\<rparr>))"
    using pg_claim_lock assms(5) unfolding b pg_driver_simps by blast
  have "0 < ?d" by simp
  then have "pg_lock_interval (pg0\<lparr>pg_lockDuration := ?d\<rparr>) = ?d div 1000000 * 1000000"
    by (simp add: pg_lock_interval_def go_div_nonneg)
  with r show ?thesis by (intro bexI [OF _ r(1)]) auto
qed

definition lock_environment :: environment where
  "lock_environment k = (if k = ''JOB_LOCK_DURATION'' then ''90s'' else [])"

lemma configured_lock_witness:
  "case openBackend (\<lambda>_ _ _. 0) lock_environment sample_pg sample_sqlite None ''postgres://db'' of
     Inl _ \<Rightarrow> False
   | Inr b \<Rightarrow> (\<exists>r \<in> set (jobs (snd (d_ClaimJob (b_driver b) ''q'' ''w'' sample_env sample_db))).
       j_status r = Running \<and> j_lock_expires_at r = Some (90000000000 + 90000000000))"
proof -
  have "case openBackend (\<lambda>_ _ _. 0) lock_environment sample_pg sample_sqlite None ''postgres://db'' of
      Inl _ \<Rightarrow> False
    | Inr b \<Rightarrow> b_dialect b = Postgres
        \<and> (case fst (d_ClaimJob (b_driver b) ''q'' ''w'' sample_env sample_db) of Inr (Some v) \<Rightarrow> True | _ \<Rightarrow> False)"
    by code_simp
  then obtain b v where b: "openBackend (\<lambda>_ _ _. 0) lock_environment sample_pg sample_sqlite None ''postgres://db'' = Inr b"
    "b_dialect b = Postgres" and v: "fst (d_ClaimJob (b_driver b) ''q'' ''w'' sample_env sample_db) = Inr (Some v)"
    by (auto split: sum.splits option.splits)
  have env: "lock_environment ''JOB_LOCK_DURATION'' = show_nat 90 @ ''s''" by code_simp
  have unit: "unitMap ''s'' = Some 1000000000" by (simp add: unitMap_def)
  have "d_ClaimJob (b_driver b) ''q'' ''w'' sample_env sample_db
      = (Inr (Some v), snd (d_ClaimJob (b_driver b) ''q'' ''w'' sample_env sample_db))"
    using v by (simp add: prod_eq_iff)
  from configured_lock [OF b env unit this] b show ?thesis by auto
qed

end
