(* ===== verification/Interleave.thy ===== *)
theory Interleave
  imports Driver_Iface
begin

text \<open>
  The methods of the drivers as sequences of statements, and threads that execute them on one
  database. Every HTTP request runs in its own goroutine and the scheduler in its own process,
  so the statements of different calls interleave: \<open>CreateJob\<close> and \<open>ClaimJob\<close> are two statements
  each and no transaction, all other writing methods are one. The locale \<open>two_phase_driver\<close> has
  the argument once for both drivers: what comes before the last statement of a call changes
  nothing that a last statement reads, so the calls take effect in the order in which they end.
\<close>

subsection \<open>Programs of statements\<close>

datatype ('s, 'r) prog = Done 'r | Stmt "'s \<Rightarrow> 's" "'s \<Rightarrow> ('s, 'r) prog"

primrec run_prog :: "('s, 'r) prog \<Rightarrow> 's \<Rightarrow> 'r \<times> 's" where
  "run_prog (Done r) = (\<lambda>s. (r, s))"
| "run_prog (Stmt f k) = (\<lambda>s. run_prog (k s) (f s))"

text \<open>A statement that fails changes nothing.\<close>

abbreviation failing_stmt :: "string \<Rightarrow> ('s, go_error + 'a) prog" where
  "failing_stmt e \<equiv> Stmt (\<lambda>s. s) (\<lambda>_. Done (Inl (DBError e)))"

lemma run_map_prog [simp]: "run_prog (map_prog h p) s = (h (fst (run_prog p s)), snd (run_prog p s))"
  by (induction p arbitrary: s) simp_all

subsection \<open>The answers of the writing methods\<close>

datatype answer = AnswerRow job_row | AnswerClaim "job_row option" | AnswerUnit | AnswerCount nat

abbreviation answered :: "('a \<Rightarrow> answer) \<Rightarrow> go_error + 'a \<Rightarrow> go_error + answer" where
  "answered h \<equiv> map_sum (\<lambda>e. e) h"

fun call_answer :: "'s driver \<Rightarrow> call_env \<Rightarrow> driver_call \<Rightarrow> 's \<Rightarrow> go_error + answer" where
  "call_answer D c (CallCreate opts) s = answered AnswerRow (fst (d_CreateJob D opts c s))"
| "call_answer D c (CallClaim q w) s = answered AnswerClaim (fst (d_ClaimJob D q w c s))"
| "call_answer D c (CallComplete i v) s = answered (\<lambda>_. AnswerUnit) (fst (d_CompleteJob D i v c s))"
| "call_answer D c (CallFail i m b) s = answered (\<lambda>_. AnswerUnit) (fst (d_FailJob D i m b c s))"
| "call_answer D c (CallHeartbeat i p) s = answered (\<lambda>_. AnswerUnit) (fst (d_HeartbeatJob D i p c s))"
| "call_answer D c (CallCancel i) s = answered (\<lambda>_. AnswerUnit) (fst (d_CancelJob D i c s))"
| "call_answer D c (CallPromote i) s = answered (\<lambda>_. AnswerUnit) (fst (d_PromoteJob D i c s))"
| "call_answer D c (CallPause q) s = answered (\<lambda>_. AnswerUnit) (fst (d_PauseQueue D q c s))"
| "call_answer D c (CallResume q) s = answered (\<lambda>_. AnswerUnit) (fst (d_ResumeQueue D q c s))"
| "call_answer D c (CallPromoteScheduled n) s = answered AnswerCount (fst (d_PromoteScheduledJobs D n c s))"
| "call_answer D c (CallFailExpired n) s = answered AnswerCount (fst (d_FailExpiredJobs D n c s))"

fun run_answers :: "'s driver \<Rightarrow> (call_env \<times> driver_call) list \<Rightarrow> 's \<Rightarrow> (go_error + answer) list" where
  "run_answers D [] s = []"
| "run_answers D ((c, x) # xs) s = call_answer D c x s # run_answers D xs (apply_call D c x s)"

lemma run_calls_append: "run_calls D (xs @ ys) s = run_calls D ys (run_calls D xs s)"
  by (induction D xs s rule: run_calls.induct) simp_all

lemma run_answers_append:
  "run_answers D (xs @ ys) s = run_answers D xs s @ run_answers D ys (run_calls D xs s)"
  by (induction D xs s rule: run_calls.induct) simp_all

text \<open>The statements of a call, given those of the two methods that have more than one.\<close>

fun call_prog ::
  "'s driver \<Rightarrow> (create_opts \<Rightarrow> call_env \<Rightarrow> ('s, go_error + job_row) prog)
     \<Rightarrow> (string \<Rightarrow> string \<Rightarrow> call_env \<Rightarrow> ('s, go_error + job_row option) prog)
     \<Rightarrow> call_env \<Rightarrow> driver_call \<Rightarrow> ('s, go_error + answer) prog" where
  "call_prog D create claim c (CallCreate opts) = map_prog (answered AnswerRow) (create opts c)"
| "call_prog D create claim c (CallClaim q w) = map_prog (answered AnswerClaim) (claim q w c)"
| "call_prog D create claim c x = Stmt (apply_call D c x) (\<lambda>s. Done (call_answer D c x s))"

subsection \<open>Threads\<close>

text \<open>The database, what each thread has left to do, and the threads that have ended, in the
  order in which they did. A schedule names the thread whose next statement runs.\<close>

type_synonym ('s, 'r) threads = "'s \<times> ('s, 'r) prog list \<times> nat list"

fun is_done :: "('s, 'r) prog \<Rightarrow> bool" where
  "is_done (Done r) = True"
| "is_done (Stmt f k) = False"

fun thread_step :: "nat \<Rightarrow> ('s, 'r) threads \<Rightarrow> ('s, 'r) threads" where
  "thread_step i (s, ps, ended) =
     (if i < length ps then
        (case ps ! i of
           Done r \<Rightarrow> (s, ps, ended)
         | Stmt f k \<Rightarrow> (f s, ps[i := k s], if is_done (k s) then ended @ [i] else ended))
      else (s, ps, ended))"

fun run_schedule :: "nat list \<Rightarrow> ('s, 'r) threads \<Rightarrow> ('s, 'r) threads" where
  "run_schedule [] t = t"
| "run_schedule (i # is) t = run_schedule is (thread_step i t)"

lemma run_schedule_snoc: "run_schedule (is @ [i]) t = thread_step i (run_schedule is t)"
  by (induction "is" arbitrary: t) simp_all

subsection \<open>Calls that take effect at their last statement\<close>

text \<open>The last statement reads and leaves no more than the view, and so does what comes after it.\<close>

definition determined :: "('s \<Rightarrow> 'v) \<Rightarrow> ('s \<Rightarrow> 's) \<Rightarrow> ('s \<Rightarrow> 'p) \<Rightarrow> bool" where
  "determined view f k \<longleftrightarrow> (\<forall>s t. view s = view t \<longrightarrow> view (f s) = view (f t) \<and> k s = k t)"

inductive settles :: "('s \<Rightarrow> 'v) \<Rightarrow> ('s, 'r) prog \<Rightarrow> bool" for view where
  over: "settles view (Done r)"
| before: "settles view (Stmt f k)"
  if "\<forall>s. view (f s) = view s" and "\<forall>s. k s = p" and "settles view p"
| final: "settles view (Stmt f k)"
  if "determined view f k" and "\<forall>s. is_done (k s)"

lemma is_done_map [simp]: "is_done (map_prog h p) = is_done p"
  by (cases p) simp_all

lemma settles_map: "settles view p \<Longrightarrow> settles view (map_prog h p)"
proof (induction rule: settles.induct)
  case (before f k p)
  then show ?case by (auto intro: settles.before)
next
  case (final f k)
  have "determined view f (\<lambda>s. map_prog h (k s))"
    using final(1) unfolding determined_def by metis
  with final(2) show ?case by (auto simp: comp_def intro!: settles.final)
qed (simp add: settles.over)

text \<open>Two programs that cannot be told apart by their result and by the view of what they leave.\<close>

definition alike :: "('s \<Rightarrow> 'v) \<Rightarrow> ('s, 'r) prog \<Rightarrow> ('s, 'r) prog \<Rightarrow> bool" where
  "alike view p q \<longleftrightarrow> (\<forall>s t. view s = view t \<longrightarrow>
     fst (run_prog p s) = fst (run_prog q t) \<and> view (snd (run_prog p s)) = view (snd (run_prog q t)))"

lemma settles_alike: "settles view p \<Longrightarrow> alike view p p"
proof (induction rule: settles.induct)
  case (final f k)
  have "\<exists>r. k s = Done r" for s using spec [OF final(2), of s] by (cases "k s") simp_all
  then have run: "run_prog (k s) a = (fst (run_prog (k s) b), a)" for s a b
    by (metis fst_conv run_prog.simps(1))
  show ?case unfolding alike_def
  proof (intro allI impI)
    fix s t assume "view s = view t"
    with final(1) have "view (f s) = view (f t) \<and> k s = k t" unfolding determined_def by blast
    then show "fst (run_prog (Stmt f k) s) = fst (run_prog (Stmt f k) t)
      \<and> view (snd (run_prog (Stmt f k) s)) = view (snd (run_prog (Stmt f k) t))"
      using run [of s "f s" "f t"] run [of t "f t" "f t"] by (metis fst_conv run_prog.simps(2) snd_conv)
  qed
next
  case (before f k p)
  then show ?case unfolding alike_def run_prog.simps(2) by metis
qed (simp add: alike_def)

lemma settles_step:
  assumes "settles view (Stmt f k)"
  shows "settles view (k s) \<and>
    (if is_done (k s) then True else view (f s) = view s \<and> (\<forall>q. alike view (Stmt f k) q \<longrightarrow> alike view (k s) q))"
  using assms
proof (cases rule: settles.cases)
  case (before p)
  have "alike view p q" if "alike view (Stmt f k) q" for q
    unfolding alike_def
  proof (intro allI impI)
    fix s t assume "view s = view t"
    with that before(1,2) have "fst (run_prog p (f s)) = fst (run_prog q t)
      \<and> view (snd (run_prog p (f s))) = view (snd (run_prog q t))"
      unfolding alike_def by (metis run_prog.simps(2))
    moreover have "fst (run_prog p s) = fst (run_prog p (f s))
      \<and> view (snd (run_prog p s)) = view (snd (run_prog p (f s)))"
      using settles_alike [OF before(3)] before(1) unfolding alike_def by metis
    ultimately show "fst (run_prog p s) = fst (run_prog q t)
      \<and> view (snd (run_prog p s)) = view (snd (run_prog q t))" by simp
  qed
  with before show ?thesis by simp
next
  case final
  then have "is_done (k s)" by blast
  moreover from this have "settles view (k s)" by (cases "k s") (auto intro: settles.over)
  ultimately show ?thesis by simp
qed

locale two_phase_driver =
  fixes D :: "'s driver" and prog :: "call_env \<Rightarrow> driver_call \<Rightarrow> ('s, go_error + answer) prog"
    and view :: "'s \<Rightarrow> 'v"
  assumes prog_alone: "run_prog (prog c x) s = (call_answer D c x s, apply_call D c x s)"
    and prog_settles: "settles view (prog c x)"
    and prog_starts: "\<not> is_done (prog c x)"
begin

definition threads_inv :: "(call_env \<times> driver_call) list \<Rightarrow> 's \<Rightarrow> ('s, go_error + answer) threads \<Rightarrow> bool" where
  "threads_inv xs s0 t \<longleftrightarrow> (case t of (s, ps, ended) \<Rightarrow>
     length ps = length xs \<and> distinct ended \<and> set ended = {i. i < length xs \<and> is_done (ps ! i)}
     \<and> (\<forall>i < length xs. settles view (ps ! i))
     \<and> (\<forall>i < length xs. i \<notin> set ended \<longrightarrow> alike view (ps ! i) (prog (fst (xs ! i)) (snd (xs ! i))))
     \<and> view s = view (run_calls D (map ((!) xs) ended) s0)
     \<and> map ((!) ps) ended = map Done (run_answers D (map ((!) xs) ended) s0))"

lemma threads_inv_start: "threads_inv xs s0 (s0, map (\<lambda>(c, x). prog c x) xs, [])"
  by (auto simp: threads_inv_def case_prod_beta prog_settles settles_alike prog_starts)

lemma threads_inv_step:
  assumes "threads_inv xs s0 (s, ps, ended)"
  shows "threads_inv xs s0 (thread_step i (s, ps, ended))"
proof (cases "i < length xs")
  case False
  with assms show ?thesis by (simp add: threads_inv_def)
next
  case i: True
  note inv = assms [unfolded threads_inv_def prod.case]
  from inv have len: "length ps = length xs" by blast
  show ?thesis
  proof (cases "ps ! i")
    case (Done r)
    with assms i show ?thesis by simp
  next
    case (Stmt f k)
    then have new: "i \<notin> set ended" using inv by auto
    have old: "map ((!) (ps[i := k s])) ended = map ((!) ps) ended"
      using new by (intro map_cong [OF refl]) (metis nth_list_update_neq)
    have sets: "\<forall>j < length xs. settles view (ps[i := k s] ! j)"
      using inv settles_step [of view f k s] Stmt i len by (auto simp: nth_list_update)
    obtain c x where x: "xs ! i = (c, x)" by (cases "xs ! i")
    have same: "alike view (Stmt f k) (prog c x)" using inv i new Stmt x by force
    show ?thesis
    proof (cases "is_done (k s)")
      case False
      then have "view (f s) = view s" and "alike view (k s) (prog c x)"
        using settles_step [of view f k s] inv i Stmt same by auto
      with False inv i len old sets x Stmt show ?thesis
        by (auto simp: threads_inv_def nth_list_update)
    next
      case True
      then obtain r where r: "k s = Done r" by (cases "k s") auto
      let ?seq = "run_calls D (map ((!) xs) ended) s0"
      have "view s = view ?seq" using inv by blast
      with same have "r = call_answer D c x ?seq" and "view (f s) = view (apply_call D c x ?seq)"
        by (auto simp: alike_def prog_alone r dest!: spec)
      with True r inv i len old sets new x Stmt show ?thesis
        by (auto simp: threads_inv_def run_calls_append run_answers_append nth_list_update)
    qed
  qed
qed

lemma run_schedule_inv:
  "threads_inv xs s0 (run_schedule is (s0, map (\<lambda>(c, x). prog c x) xs, []))"
proof (induction "is" rule: rev_induct)
  case (snoc i js)
  then show ?case
    by (cases "run_schedule js (s0, map (\<lambda>(c, x). prog c x) xs, [])")
      (simp add: run_schedule_snoc threads_inv_step del: thread_step.simps)
qed (simp add: threads_inv_start)

lemma calls_linearize:
  assumes "run_schedule is (s0, map (\<lambda>(c, x). prog c x) xs, []) = (s, ps, ended)"
  shows "length ps = length xs \<and> distinct ended \<and> set ended = {i. i < length xs \<and> is_done (ps ! i)}
    \<and> view s = view (run_calls D (map ((!) xs) ended) s0)
    \<and> map ((!) ps) ended = map Done (run_answers D (map ((!) xs) ended) s0)"
  using run_schedule_inv [of xs s0 "is"] assms by (auto simp: threads_inv_def)

end

end
