(* ===== verification/Concurrent.thy ===== *)
theory Concurrent
  imports Interleave Driver_Pg Driver_Sqlite
begin

text \<open>
  The two drivers under concurrency: their methods statement by statement, and the proof that
  every interleaving of calls comes to the same jobs, pauses and answers as the calls one after
  another (\<open>two_phase_driver\<close>, with both drivers as instances).
\<close>

subsection \<open>The two methods with two statements\<close>

text \<open>\<open>CreateJob\<close>: the queue is upserted; then, with a new ULID, the row is inserted unless its id
  is taken.\<close>

definition create_prog ::
  "(queue_row list \<Rightarrow> queue_row list) \<Rightarrow> (string \<Rightarrow> job) \<Rightarrow> string \<Rightarrow> (job \<Rightarrow> job_row) \<Rightarrow> call_env
     \<Rightarrow> (database, go_error + job_row) prog" where
  "create_prog upsert new_job dup out c =
     (case fault c 0 of Some e \<Rightarrow> failing_stmt e
      | None \<Rightarrow>
        Stmt (\<lambda>s. s\<lparr>queues := upsert (queues s)\<rparr>) (\<lambda>_.
          case fresh_ulid c of Inl e \<Rightarrow> Done (Inl (DBError e))
          | Inr u \<Rightarrow>
            (case fault c 1 of Some e \<Rightarrow> failing_stmt e
             | None \<Rightarrow>
               (let r = new_job (to_lower u) in
                Stmt (\<lambda>s. if j_id r \<in> j_id ` set (jobs s) then s else s\<lparr>jobs := jobs s @ [r]\<rparr>)
                  (\<lambda>s. Done (if j_id r \<in> j_id ` set (jobs s) then Inl (DBError dup) else Inr (out r)))))))"

text \<open>\<open>ClaimJob\<close>: the worker's row is touched; then one statement takes the best row.\<close>

definition take_stmt ::
  "(database \<Rightarrow> job option) \<Rightarrow> (job \<Rightarrow> job) \<Rightarrow> (job \<Rightarrow> job_row)
     \<Rightarrow> (database, go_error + job_row option) prog" where
  "take_stmt best set_row out =
     Stmt (\<lambda>s. case best s of None \<Rightarrow> s
           | Some r \<Rightarrow> s\<lparr>jobs := update_where (\<lambda>x. j_id x = j_id r) set_row (jobs s)\<rparr>)
       (\<lambda>s. Done (Inr (map_option (\<lambda>r. out (set_row r)) (best s))))"

definition claim_prog ::
  "(worker_row list \<Rightarrow> worker_row list) \<Rightarrow> (database, go_error + job_row option) prog \<Rightarrow> call_env
     \<Rightarrow> (database, go_error + job_row option) prog" where
  "claim_prog touch take_row c =
     (case fault c 0 of Some e \<Rightarrow> failing_stmt e
      | None \<Rightarrow>
        Stmt (\<lambda>s. s\<lparr>workers := touch (workers s)\<rparr>) (\<lambda>_.
          case fault c 1 of Some e \<Rightarrow> failing_stmt e | None \<Rightarrow> take_row))"

lemma run_take_stmt:
  "run_prog (take_stmt best set_row out) s =
     (case best s of None \<Rightarrow> (Inr None, s)
      | Some r \<Rightarrow> (Inr (Some (out (set_row r))),
          s\<lparr>jobs := update_where (\<lambda>x. j_id x = j_id r) set_row (jobs s)\<rparr>))"
  by (simp add: take_stmt_def split: option.split)

subsection \<open>What the statements depend on\<close>

definition paused_names :: "queue_row list \<Rightarrow> string set" where
  "paused_names qs = {q_name q | q. q \<in> set qs \<and> q_paused_at q \<noteq> None}"

definition sched_view :: "database \<Rightarrow> job list \<times> string set" where
  "sched_view s = (jobs s, paused_names (queues s))"

lemma sched_view_eq:
  "sched_view s = sched_view t \<longleftrightarrow> jobs s = jobs t \<and> paused_names (queues s) = paused_names (queues t)"
  by (simp add: sched_view_def)

lemma in_paused_names: "n \<in> paused_names qs \<longleftrightarrow> (\<exists>q \<in> set qs. q_name q = n \<and> q_paused_at q \<noteq> None)"
  by (auto simp: paused_names_def)

lemma paused_names_append:
  "paused_names (qs @ [\<lparr>q_name = name, q_paused_at = None, q_created_at = now, q_updated_at = now\<rparr>])
     = paused_names qs"
  "paused_names (qs @ [\<lparr>q_name = name, q_paused_at = Some now, q_created_at = now, q_updated_at = now\<rparr>])
     = insert name (paused_names qs)"
  by (auto simp: in_paused_names)

lemma in_paused_names_Cons:
  "n \<in> paused_names (q # qs) \<longleftrightarrow> q_name q = n \<and> q_paused_at q \<noteq> None \<or> n \<in> paused_names qs"
  by (simp add: in_paused_names)

lemma not_in_paused_names_Nil: "n \<notin> paused_names []"
  by (simp add: paused_names_def)

lemmas in_paused_names_simps = in_paused_names_Cons not_in_paused_names_Nil

lemma paused_names_touch:
  "paused_names (update_where (\<lambda>q. q_name q = name) (\<lambda>q. q\<lparr>q_updated_at := now\<rparr>) qs) = paused_names qs"
proof (rule set_eqI)
  show "n \<in> paused_names (update_where (\<lambda>q. q_name q = name) (\<lambda>q. q\<lparr>q_updated_at := now\<rparr>) qs)
      \<longleftrightarrow> n \<in> paused_names qs" for n
    by (induction qs) (auto simp: in_paused_names_simps)
qed

lemma paused_names_resume:
  "paused_names (update_where (\<lambda>q. q_name q = name) (\<lambda>q. q\<lparr>q_paused_at := None, q_updated_at := now\<rparr>) qs)
     = paused_names qs - {name}"
proof (rule set_eqI)
  show "n \<in> paused_names (update_where (\<lambda>q. q_name q = name)
        (\<lambda>q. q\<lparr>q_paused_at := None, q_updated_at := now\<rparr>) qs) \<longleftrightarrow> n \<in> paused_names qs - {name}" for n
    by (induction qs) (auto simp: in_paused_names_simps)
qed

lemma paused_names_pause:
  "paused_names (update_where (\<lambda>q. q_name q = name) (\<lambda>q. q\<lparr>q_paused_at := Some now, q_updated_at := now\<rparr>) qs)
     = (if name \<in> q_name ` set qs then insert name (paused_names qs) else paused_names qs)"
proof (rule set_eqI)
  show "n \<in> paused_names (update_where (\<lambda>q. q_name q = name)
        (\<lambda>q. q\<lparr>q_paused_at := Some now, q_updated_at := now\<rparr>) qs)
      \<longleftrightarrow> n \<in> (if name \<in> q_name ` set qs then insert name (paused_names qs) else paused_names qs)" for n
    by (induction qs) (auto simp: in_paused_names_simps)
qed

lemmas paused_names_update = paused_names_append paused_names_touch paused_names_resume paused_names_pause

lemma one_call_settles:
  assumes "\<And>s t. sched_view s = sched_view t \<Longrightarrow>
      sched_view (apply_call D c x s) = sched_view (apply_call D c x t)
      \<and> call_answer D c x s = call_answer D c x t"
  shows "settles sched_view (Stmt (apply_call D c x) (\<lambda>s. Done (call_answer D c x s)))"
proof (rule settles.final)
  show "determined sched_view (apply_call D c x) (\<lambda>s. Done (call_answer D c x s))"
    unfolding determined_def using assms by blast
qed simp

lemma failing_settles: "settles view (failing_stmt e)"
  by (rule settles.final) (simp_all add: determined_def)

lemma create_settles:
  assumes "\<And>qs. paused_names (upsert qs) = paused_names qs"
  shows "settles sched_view (create_prog upsert new_job dup out c)"
proof (cases "fault c 0")
  case None
  have last: "settles sched_view (Stmt (\<lambda>s. if i \<in> j_id ` set (jobs s) then s else s\<lparr>jobs := jobs s @ [r]\<rparr>)
      (\<lambda>s. Done (if i \<in> j_id ` set (jobs s) then x else y)))" for i r and x y :: "go_error + job_row"
    by (rule settles.final) (simp_all add: determined_def sched_view_eq)
  show ?thesis
    unfolding create_prog_def None option.case
    by (rule settles.before) (auto simp: sched_view_def assms Let_def last
        failing_settles settles.over split: sum.split option.split)
qed (simp add: create_prog_def failing_settles)

lemma take_settles:
  assumes "\<And>s t. sched_view s = sched_view t \<Longrightarrow> best s = best t"
  shows "settles sched_view (take_stmt best set_row out)"
  unfolding take_stmt_def
proof (rule settles.final)
  show "determined sched_view (\<lambda>s. case best s of None \<Rightarrow> s
      | Some r \<Rightarrow> s\<lparr>jobs := update_where (\<lambda>x. j_id x = j_id r) set_row (jobs s)\<rparr>)
    (\<lambda>s. Done (Inr (map_option (\<lambda>r. out (set_row r)) (best s))))"
    unfolding determined_def
  proof (intro allI impI)
    fix s t assume v: "sched_view s = sched_view t"
    show "sched_view (case best s of None \<Rightarrow> s
        | Some r \<Rightarrow> s\<lparr>jobs := update_where (\<lambda>x. j_id x = j_id r) set_row (jobs s)\<rparr>)
      = sched_view (case best t of None \<Rightarrow> t
        | Some r \<Rightarrow> t\<lparr>jobs := update_where (\<lambda>x. j_id x = j_id r) set_row (jobs t)\<rparr>)
      \<and> Done (Inr (map_option (\<lambda>r. out (set_row r)) (best s)))
        = Done (Inr (map_option (\<lambda>r. out (set_row r)) (best t)))"
      using v by (simp add: assms [OF v] sched_view_eq split: option.split)
  qed
qed simp

lemma claim_settles:
  assumes "settles sched_view take_row"
  shows "settles sched_view (claim_prog touch take_row c)"
proof (cases "fault c 0")
  case None
  show ?thesis
    unfolding claim_prog_def None option.case
    by (rule settles.before) (auto simp: sched_view_def assms failing_settles split: option.split)
qed (simp add: claim_prog_def failing_settles)

lemma call_prog_settles:
  assumes "\<And>opts. settles sched_view (create opts c)" and "\<And>q w. settles sched_view (claim q w c)"
    and "\<And>s t. sched_view s = sched_view t \<Longrightarrow> \<nexists>opts. x = CallCreate opts \<Longrightarrow> \<nexists>q w. x = CallClaim q w \<Longrightarrow>
      sched_view (apply_call D c x s) = sched_view (apply_call D c x t)
      \<and> call_answer D c x s = call_answer D c x t"
  shows "settles sched_view (call_prog D create claim c x)"
proof (cases "(\<exists>opts. x = CallCreate opts) \<or> (\<exists>q w. x = CallClaim q w)")
  case True
  then show ?thesis
    by (auto intro!: settles_map [OF assms(1)] settles_map [OF assms(2)])
next
  case False
  then have "call_prog D create claim c x = Stmt (apply_call D c x) (\<lambda>s. Done (call_answer D c x s))"
    by (cases x) simp_all
  moreover have "settles sched_view (Stmt (apply_call D c x) (\<lambda>s. Done (call_answer D c x s)))"
    by (rule one_call_settles, erule assms(3)) (use False in blast)+
  ultimately show ?thesis by simp
qed

subsection \<open>PostgreSQL\<close>

definition pg_create_prog :: "pg_cfg \<Rightarrow> create_opts \<Rightarrow> call_env \<Rightarrow> (database, go_error + job_row) prog" where
  "pg_create_prog cfg opts c =
     create_prog (pg_upsert_queue (db_now c 0) (o_Queue opts)) (pg_new_job cfg c opts) unique_error
       job_row.truncate c"

definition pg_best :: "string \<Rightarrow> call_env \<Rightarrow> database \<Rightarrow> job option" where
  "pg_best queue c s =
     (if pg_paused queue (queues s) then None
      else case select_limit (pg_claimable c queue) claim_key 1 (jobs s) of [] \<Rightarrow> None | r # _ \<Rightarrow> Some r)"

definition pg_claim_prog ::
  "pg_cfg \<Rightarrow> string \<Rightarrow> string \<Rightarrow> call_env \<Rightarrow> (database, go_error + job_row option) prog" where
  "pg_claim_prog cfg queue worker c =
     claim_prog (pg_touch_worker (db_now c 0) worker)
       (take_stmt (pg_best queue c) (pg_claim_set cfg (db_now c 1) worker) job_row.truncate) c"

definition pg_prog :: "pg_cfg \<Rightarrow> call_env \<Rightarrow> driver_call \<Rightarrow> (database, go_error + answer) prog" where
  "pg_prog cfg = call_prog (pg_driver cfg) (pg_create_prog cfg) (pg_claim_prog cfg)"

lemma run_pg_create_prog: "run_prog (pg_create_prog cfg opts c) s = pg_CreateJob cfg opts c s"
  by (simp add: pg_create_prog_def create_prog_def pg_CreateJob_def Let_def split: option.split sum.split)

lemma run_pg_claim_prog: "run_prog (pg_claim_prog cfg q w c) s = pg_ClaimJob cfg q w c s"
  by (simp add: pg_claim_prog_def claim_prog_def pg_ClaimJob_def run_take_stmt pg_best_def Let_def
      split: option.split list.split)

lemma run_pg_prog:
  "run_prog (pg_prog cfg c x) s = (call_answer (pg_driver cfg) c x s, apply_call (pg_driver cfg) c x s)"
  by (cases x) (simp_all add: pg_prog_def run_pg_create_prog run_pg_claim_prog pg_driver_simps)

lemma pg_paused_names: "pg_paused q qs \<longleftrightarrow> q \<in> paused_names qs"
  by (simp add: pg_paused_def in_paused_names)

lemma pg_prog_starts: "\<not> is_done (pg_prog cfg c x)"
  by (cases x) (simp_all add: pg_prog_def pg_create_prog_def create_prog_def pg_claim_prog_def
      claim_prog_def split: option.split)

lemma pg_create_settles: "settles sched_view (pg_create_prog cfg opts c)"
  unfolding pg_create_prog_def
  by (rule create_settles) (simp add: pg_upsert_queue_def paused_names_update)

lemma pg_claim_settles: "settles sched_view (pg_claim_prog cfg q w c)"
  unfolding pg_claim_prog_def
  by (intro claim_settles take_settles) (simp add: sched_view_eq pg_best_def pg_paused_names)

lemma pg_exec_update_view:
  "jobs s = jobs t \<Longrightarrow> fst (pg_exec_update P f c s) = fst (pg_exec_update P f c t)
     \<and> jobs (snd (pg_exec_update P f c s)) = jobs (snd (pg_exec_update P f c t))
     \<and> queues (snd (pg_exec_update P f c s)) = queues s
     \<and> queues (snd (pg_exec_update P f c t)) = queues t"
  by (simp add: pg_exec_update_def split: option.split)

lemma pg_update_selected_view:
  "jobs s = jobs t \<Longrightarrow> fst (pg_update_selected P k n f c s) = fst (pg_update_selected P k n f c t)
     \<and> jobs (snd (pg_update_selected P k n f c s)) = jobs (snd (pg_update_selected P k n f c t))
     \<and> queues (snd (pg_update_selected P k n f c s)) = queues s
     \<and> queues (snd (pg_update_selected P k n f c t)) = queues t"
  by (simp add: pg_update_selected_def Let_def split: option.split)

lemma pg_call_view:
  assumes "sched_view s = sched_view t" and "\<nexists>opts. x = CallCreate opts" and "\<nexists>q w. x = CallClaim q w"
  shows "sched_view (apply_call (pg_driver cfg) c x s) = sched_view (apply_call (pg_driver cfg) c x t)
    \<and> call_answer (pg_driver cfg) c x s = call_answer (pg_driver cfg) c x t"
proof -
  have j: "jobs s = jobs t" and q: "paused_names (queues s) = paused_names (queues t)"
    using assms(1) by (simp_all add: sched_view_eq)
  note e = pg_exec_update_view [OF j] and u = pg_update_selected_view [OF j]
  show ?thesis
  proof (cases x)
    case (CallHeartbeat i p)
    then show ?thesis using j q e by (simp add: pg_driver_simps pg_HeartbeatJob_def sched_view_eq)
  next
    case (CallPause n)
    then show ?thesis using j q
      by (auto simp: pg_driver_simps pg_PauseQueue_def sched_view_eq Let_def paused_names_update split: option.split)
  next
    case (CallResume n)
    then show ?thesis using j q
      by (auto simp: pg_driver_simps pg_ResumeQueue_def sched_view_eq paused_names_update split: option.split)
  qed (use assms(2,3) j q e u in \<open>simp_all add: pg_driver_simps sched_view_eq pg_CompleteJob_def
      pg_FailJob_def pg_CancelJob_def pg_PromoteJob_def pg_PromoteScheduledJobs_def pg_FailExpiredJobs_def\<close>)
qed

interpretation pgc: two_phase_driver "pg_driver cfg" "pg_prog cfg" sched_view for cfg
proof unfold_locales
  show "settles sched_view (pg_prog cfg c x)" for c x
    unfolding pg_prog_def by (rule call_prog_settles) (erule pg_call_view pg_create_settles pg_claim_settles | rule pg_create_settles pg_claim_settles | assumption)+
qed (rule run_pg_prog pg_prog_starts)+

subsection \<open>SQLite\<close>

definition sq_create_prog :: "sqlite_cfg \<Rightarrow> create_opts \<Rightarrow> call_env \<Rightarrow> (database, go_error + job_row) prog" where
  "sq_create_prog cfg opts c =
     create_prog (sq_upsert_queue (sq_now c 0) (o_Queue opts)) (sq_new_job c opts) sq_unique_error
       scanJobRowSqlite c"

definition sq_best :: "string \<Rightarrow> call_env \<Rightarrow> database \<Rightarrow> job option" where
  "sq_best queue c s =
     (if sq_paused queue (queues s) then None
      else case select_limit (sq_claimable c queue) sq_claim_key 1 (jobs s) of [] \<Rightarrow> None | r # _ \<Rightarrow> Some r)"

definition sq_claim_prog ::
  "sqlite_cfg \<Rightarrow> string \<Rightarrow> string \<Rightarrow> call_env \<Rightarrow> (database, go_error + job_row option) prog" where
  "sq_claim_prog cfg queue worker c =
     claim_prog (sq_touch_worker (sq_now c 0) worker)
       (if sq_cte_update cfg
        then take_stmt (sq_best queue c) (sq_claim_set cfg (sq_now c 1) worker) scanJobRowSqlite
        else failing_stmt sq_syntax_error) c"

definition sq_prog :: "sqlite_cfg \<Rightarrow> call_env \<Rightarrow> driver_call \<Rightarrow> (database, go_error + answer) prog" where
  "sq_prog cfg = call_prog (sqlite_driver cfg) (sq_create_prog cfg) (sq_claim_prog cfg)"

lemma run_sq_create_prog: "run_prog (sq_create_prog cfg opts c) s = sq_CreateJob opts c s"
  by (simp add: sq_create_prog_def create_prog_def sq_CreateJob_def Let_def split: option.split sum.split)

lemma run_sq_claim_prog: "run_prog (sq_claim_prog cfg q w c) s = sq_ClaimJob cfg q w c s"
  by (simp add: sq_claim_prog_def claim_prog_def sq_ClaimJob_def run_take_stmt sq_best_def Let_def
      split: option.split list.split)

lemma run_sq_prog:
  "run_prog (sq_prog cfg c x) s = (call_answer (sqlite_driver cfg) c x s, apply_call (sqlite_driver cfg) c x s)"
  by (cases x) (simp_all add: sq_prog_def run_sq_create_prog run_sq_claim_prog sqlite_driver_simps)

lemma sq_paused_names: "sq_paused q qs \<longleftrightarrow> q \<in> paused_names qs"
  by (simp add: sq_paused_def in_paused_names)

lemma sq_prog_starts: "\<not> is_done (sq_prog cfg c x)"
  by (cases x) (simp_all add: sq_prog_def sq_create_prog_def create_prog_def sq_claim_prog_def
      claim_prog_def split: option.split)

lemma sq_create_settles: "settles sched_view (sq_create_prog cfg opts c)"
  unfolding sq_create_prog_def
  by (rule create_settles) (simp add: sq_upsert_queue_def paused_names_update)

lemma sq_claim_settles: "settles sched_view (sq_claim_prog cfg q w c)"
proof -
  have "settles sched_view (take_stmt (sq_best q c) set_row out)" for set_row out
    by (rule take_settles) (simp add: sched_view_eq sq_best_def sq_paused_names)
  then show ?thesis
    by (simp add: sq_claim_prog_def claim_settles failing_settles)
qed

lemma sq_exec_update_view:
  "jobs s = jobs t \<Longrightarrow> fst (sq_exec_update P f c s) = fst (sq_exec_update P f c t)
     \<and> jobs (snd (sq_exec_update P f c s)) = jobs (snd (sq_exec_update P f c t))
     \<and> queues (snd (sq_exec_update P f c s)) = queues s
     \<and> queues (snd (sq_exec_update P f c t)) = queues t"
  by (simp add: sq_exec_update_def split: option.split)

lemma sq_update_selected_view:
  "jobs s = jobs t \<Longrightarrow> fst (sq_update_selected P k n f c s) = fst (sq_update_selected P k n f c t)
     \<and> jobs (snd (sq_update_selected P k n f c s)) = jobs (snd (sq_update_selected P k n f c t))
     \<and> queues (snd (sq_update_selected P k n f c s)) = queues s
     \<and> queues (snd (sq_update_selected P k n f c t)) = queues t"
  by (simp add: sq_update_selected_def Let_def split: option.split)

lemma sq_call_view:
  assumes "sched_view s = sched_view t" and "\<nexists>opts. x = CallCreate opts" and "\<nexists>q w. x = CallClaim q w"
  shows "sched_view (apply_call (sqlite_driver cfg) c x s) = sched_view (apply_call (sqlite_driver cfg) c x t)
    \<and> call_answer (sqlite_driver cfg) c x s = call_answer (sqlite_driver cfg) c x t"
proof -
  have j: "jobs s = jobs t" and q: "paused_names (queues s) = paused_names (queues t)"
    using assms(1) by (simp_all add: sched_view_eq)
  note e = sq_exec_update_view [OF j] and u = sq_update_selected_view [OF j]
  show ?thesis
  proof (cases x)
    case (CallHeartbeat i p)
    then show ?thesis using j q e by (simp add: sqlite_driver_simps sq_HeartbeatJob_def sched_view_eq)
  next
    case (CallFail i m b)
    then show ?thesis using j q
      by (cases "fault c 0"; cases "sq_json cfg (buildErrorEntry (clock c 0) m)";
          cases "sq_plus cfg (sq_now c 0) (sq_backoffSec b)")
        (auto simp: sqlite_driver_simps sq_FailJob_def sched_view_eq e)
  next
    case (CallFailExpired n)
    then show ?thesis using j q u
      by (simp add: sqlite_driver_simps sq_FailExpiredJobs_def sched_view_eq split: option.split)
  next
    case (CallPause n)
    then show ?thesis using j q
      by (auto simp: sqlite_driver_simps sq_PauseQueue_def sched_view_eq Let_def paused_names_update split: option.split)
  next
    case (CallResume n)
    then show ?thesis using j q
      by (auto simp: sqlite_driver_simps sq_ResumeQueue_def sched_view_eq paused_names_update split: option.split)
  qed (use assms(2,3) j q e u in \<open>simp_all add: sqlite_driver_simps sched_view_eq sq_CompleteJob_def
      sq_CancelJob_def sq_PromoteJob_def sq_PromoteScheduledJobs_def\<close>)
qed

interpretation sqlitec: two_phase_driver "sqlite_driver cfg" "sq_prog cfg" sched_view for cfg
proof unfold_locales
  show "settles sched_view (sq_prog cfg c x)" for c x
    unfolding sq_prog_def by (rule call_prog_settles) (erule sq_call_view sq_create_settles sq_claim_settles | rule sq_create_settles sq_claim_settles | assumption)+
qed (rule run_sq_prog sq_prog_starts)+

end
