(* ===== verification/Concurrent_Props.thy ===== *)
theory Concurrent_Props
  imports Concurrent Samples
begin

text \<open>
  What holds however the statements of concurrent calls interleave: the calls come to the same
  as one after another, in the order in which they end, and no attempt is handed out twice.
\<close>

subsection \<open>Claims, one after another\<close>

text \<open>A claim hands out the next attempt of an available job.\<close>

locale job_driver_claims = job_driver_rows +
  assumes claim_next: "fst (d_ClaimJob D q w c s) = Inr (Some v) \<Longrightarrow>
      \<exists>r \<in> set (table s). j_id r = j_id v \<and> j_status r = Available \<and> j_attempt v = j_attempt r + 1"
begin

lemma run_answers_nth:
  "n < length xs \<Longrightarrow> run_answers D xs s ! n
     = call_answer D (fst (xs ! n)) (snd (xs ! n)) (run_calls D (take n xs) s)"
proof (induction xs arbitrary: s n)
  case (Cons x xs)
  obtain c y where "x = (c, y)" by (cases x)
  with Cons show ?case by (cases n) simp_all
qed simp

lemma answer_is_claim:
  "call_answer D c x s = Inr (AnswerClaim (Some v)) \<Longrightarrow>
     \<exists>q w. x = CallClaim q w \<and> fst (d_ClaimJob D q w c s) = Inr (Some v)"
  by (cases x) (auto simp: map_sum_def split: sum.splits)

lemma claims_increase:
  assumes ok: "\<forall>x \<in> set xs. call_ok (snd x)" and ids: "ids_ok (table s)"
    and mn: "m < n" "n < length xs"
    and a: "run_answers D xs s ! m = Inr (AnswerClaim (Some a))"
    and b: "run_answers D xs s ! n = Inr (AnswerClaim (Some b))"
    and same: "j_id a = j_id b"
  shows "j_attempt a < j_attempt b"
proof -
  let ?s1 = "run_calls D (take m xs) s"
  let ?between = "drop (Suc m) (take n xs)"
  obtain c x where m: "xs ! m = (c, x)" by (cases "xs ! m")
  have tm: "take (Suc m) xs = take m xs @ [(c, x)]"
    using mn m by (simp add: take_Suc_conv_app_nth)
  have tn: "take n xs = take (Suc m) xs @ ?between"
    using mn by (metis append_take_drop_id min.absorb1 Suc_leI take_take)
  have "run_calls D (take (Suc m) xs @ ?between) s = run_calls D ?between (apply_call D c x ?s1)"
    unfolding tm by (simp only: run_calls_append run_calls.simps)
  then have sn: "run_calls D (take n xs) s = run_calls D ?between (apply_call D c x ?s1)"
    using tn by simp
  have sub: "set (take k xs) \<subseteq> set xs" for k by (rule set_take_subset)
  have ids1: "ids_ok (table ?s1)" using ok ids sub by (intro run_calls_ids) auto
  obtain q w where x: "x = CallClaim q w" and ca: "fst (d_ClaimJob D q w c ?s1) = Inr (Some a)"
    using a mn m answer_is_claim by (force simp: run_answers_nth)
  from claim_row [OF ca] x obtain r where r: "r \<in> set (table (apply_call D c x ?s1))" "a = view r" by auto
  have "call_ok x" by (simp add: x)
  then have ids2: "ids_ok (table (apply_call D c x ?s1))"
    using apply_call_step ids1 table_step_ids by blast
  have "\<forall>y \<in> set ?between. call_ok (snd y)"
    using ok by (meson in_set_dropD in_set_takeD)
  then obtain r' where r': "r' \<in> set (table (run_calls D (take n xs) s))" "same_job r r'"
    using run_calls_same_job [OF _ ids2 r(1)] sn by auto
  obtain c' q' w' where cb: "fst (d_ClaimJob D q' w' c' (run_calls D (take n xs) s)) = Inr (Some b)"
    using b mn answer_is_claim by (force simp: run_answers_nth)
  from claim_next [OF cb] obtain t where t: "t \<in> set (table (run_calls D (take n xs) s))"
    "j_id t = j_id b" "j_attempt b = j_attempt t + 1" by blast
  have "ids_ok (table (run_calls D (take n xs) s))"
    using ok ids sub by (intro run_calls_ids) auto
  then have "t = r'"
    using ids_ok_unique t r r' same by (auto simp: same_job_def view_id)
  with t r r' show ?thesis by (simp add: same_job_def view_attempt)
qed

end

lemma pg_claim_next:
  assumes "fst (pg_ClaimJob cfg q w c s) = Inr (Some v)"
  shows "\<exists>r \<in> set (jobs s). j_id r = j_id v \<and> j_status r = Available \<and> j_attempt v = j_attempt r + 1"
proof -
  from assms obtain r rs where
    r: "select_limit (pg_claimable c q) claim_key 1 (jobs s) = r # rs"
    and v: "v = job_row.truncate (pg_claim_set cfg (db_now c 1) w r)"
    by (auto simp: pg_ClaimJob_def Let_def split: option.splits if_splits list.splits)
  show ?thesis
    using select_limitD [of r "pg_claimable c q" claim_key 1 "jobs s"] r v
    by (intro bexI [of _ r]) (simp_all add: pg_claimable_def pg_claim_set_def job_row.defs)
qed

interpretation pgn: job_driver_claims "pg_driver cfg" jobs job_row.truncate for cfg
  by unfold_locales (simp add: pg_driver_simps pg_claim_next)

lemma sq_claim_next:
  assumes "fst (sq_ClaimJob cfg q w c s) = Inr (Some v)"
  shows "\<exists>r \<in> set (jobs s). j_id r = j_id v \<and> j_status r = Available \<and> j_attempt v = j_attempt r + 1"
proof -
  from assms obtain r rs where
    r: "select_limit (sq_claimable c q) sq_claim_key 1 (jobs s) = r # rs"
    and v: "v = scanJobRowSqlite (sq_claim_set cfg (sq_now c 1) w r)"
    by (auto simp: sq_ClaimJob_def Let_def split: option.splits if_splits list.splits)
  show ?thesis
    using select_limitD [of r "sq_claimable c q" sq_claim_key 1 "jobs s"] r v
    by (intro bexI [of _ r]) (simp_all add: sq_claimable_def sq_claim_set_def scanJobRowSqlite_def job_row.defs)
qed

interpretation sqliten: job_driver_claims "sqlite_driver cfg" jobs scanJobRowSqlite for cfg
  by unfold_locales (simp add: sqlite_driver_simps sq_claim_next)

subsection \<open>Any interleaving\<close>

text \<open>A driver of the program with its methods as statements, and the threads that run the calls
  \<open>xs\<close>, each from its start.\<close>

definition backend_prog ::
  "database driver \<Rightarrow> (call_env \<Rightarrow> driver_call \<Rightarrow> (database, go_error + answer) prog) \<Rightarrow> bool" where
  "backend_prog D P \<longleftrightarrow> (\<exists>cfg. D = pg_driver cfg \<and> P = pg_prog cfg)
     \<or> (\<exists>cfg. D = sqlite_driver cfg \<and> P = sq_prog cfg)"

definition start_threads ::
  "(call_env \<Rightarrow> driver_call \<Rightarrow> (database, go_error + answer) prog) \<Rightarrow> (call_env \<times> driver_call) list
     \<Rightarrow> database \<Rightarrow> (database, go_error + answer) threads" where
  "start_threads P xs s = (s, map (\<lambda>(c, x). P c x) xs, [])"

lemma backend_linearize:
  assumes "backend_prog D P" and "run_schedule sched (start_threads P xs s0) = (s, ps, ended)"
  shows "length ps = length xs \<and> distinct ended \<and> set ended = {i. i < length xs \<and> is_done (ps ! i)}
    \<and> sched_view s = sched_view (run_calls D (map ((!) xs) ended) s0)
    \<and> map ((!) ps) ended = map Done (run_answers D (map ((!) xs) ended) s0)"
proof -
  from assms(1) consider cfg where "D = pg_driver cfg" "P = pg_prog cfg"
    | cfg where "D = sqlite_driver cfg" "P = sq_prog cfg" by (auto simp: backend_prog_def)
  then show ?thesis
  proof cases
    case (1 cfg)
    with assms(2) show ?thesis unfolding start_threads_def using pgc.calls_linearize by simp
  next
    case (2 cfg)
    with assms(2) show ?thesis unfolding start_threads_def using sqlitec.calls_linearize by simp
  qed
qed

text \<open>C4. Concurrency changes nothing: let any number of calls run on either backend, each
  statement atomic and the statements of different calls in any order, some calls not yet over.
  Then the jobs, the paused queues and the answer of every call that has ended are those of the
  ended calls one after another in the order in which they ended (so a call that ended before
  another began also comes before it).\<close>

theorem interleaving_serializable:
  assumes "backend_prog D P" and "run_schedule sched (start_threads P xs s0) = (s, ps, ended)"
  shows "distinct ended \<and> set ended = {i. i < length xs \<and> is_done (ps ! i)}
    \<and> jobs s = jobs (run_calls D (map ((!) xs) ended) s0)
    \<and> paused_names (queues s) = paused_names (queues (run_calls D (map ((!) xs) ended) s0))
    \<and> map ((!) ps) ended = map Done (run_answers D (map ((!) xs) ended) s0)"
  using backend_linearize [OF assms] by (simp add: sched_view_eq)

text \<open>Two claims and a cancellation on the sample database; the claims' statements interleave, the
  second thread ends first.\<close>

definition sample_calls :: "(call_env \<times> driver_call) list" where
  "sample_calls = [(sample_env, CallClaim ''q'' ''w''), (sample_env, CallClaim ''q'' ''v''),
     (sample_env, CallCancel ''r'')]"

definition sample_schedule :: "nat list" where
  "sample_schedule = [0, 1, 2, 1, 0]"

lemma sample_backend: "backend_prog (pg_driver sample_pg) (pg_prog sample_pg)"
  by (auto simp: backend_prog_def)

lemma sample_ended:
  "snd (snd (run_schedule sample_schedule (start_threads (pg_prog sample_pg) sample_calls sample_db)))
     = [2, 1, 0]"
  by code_simp

lemma interleaving_serializable_witness:
  "jobs (fst (run_schedule sample_schedule (start_threads (pg_prog sample_pg) sample_calls sample_db)))
     = jobs (run_calls (pg_driver sample_pg) (map ((!) sample_calls) [2, 1, 0]) sample_db)"
  using interleaving_serializable [OF sample_backend, of sample_schedule sample_calls sample_db]
    sample_ended by (metis prod.collapse)

text \<open>C2. No attempt of a job is handed out twice: whatever calls run concurrently on either
  backend, in whatever interleaving, two different claims that both return a job return
  different jobs or different attempts of a job.\<close>

theorem concurrent_claims_distinct:
  assumes "backend_prog D P" and "\<forall>x \<in> set xs. call_ok (snd x)" and "ids_ok (jobs s0)"
    and "run_schedule sched (start_threads P xs s0) = (s, ps, ended)"
    and "i < length xs" and "j < length xs" and "i \<noteq> j"
    and "ps ! i = Done (Inr (AnswerClaim (Some a)))" and "ps ! j = Done (Inr (AnswerClaim (Some b)))"
  shows "(j_id a, j_attempt a) \<noteq> (j_id b, j_attempt b)"
proof -
  let ?ys = "map ((!) xs) ended"
  from backend_linearize [OF assms(1,4)]
  have ended: "set ended = {i. i < length xs \<and> is_done (ps ! i)}" and len: "length ps = length xs"
    and ans: "map ((!) ps) ended = map Done (run_answers D ?ys s0)"
    by blast+
  obtain m where m: "m < length ended" "ended ! m = i"
    using ended assms(5,8) by (metis (mono_tags, lifting) in_set_conv_nth is_done.simps(1) mem_Collect_eq)
  obtain n where n: "n < length ended" "ended ! n = j"
    using ended assms(6,9) by (metis (mono_tags, lifting) in_set_conv_nth is_done.simps(1) mem_Collect_eq)
  have la: "length (run_answers D ?ys s0) = length ended" using ans by (metis length_map)
  have am: "run_answers D ?ys s0 ! m = Inr (AnswerClaim (Some a))"
    using ans m assms(8) la by (metis (no_types, lifting) nth_map prog.inject(1))
  have an: "run_answers D ?ys s0 ! n = Inr (AnswerClaim (Some b))"
    using ans n assms(9) la by (metis (no_types, lifting) nth_map prog.inject(1))
  have ok: "\<forall>x \<in> set ?ys. call_ok (snd x)" using assms(2) ended by auto
  have less: "j_attempt u < j_attempt v"
    if "k < l" "l < length ?ys" "run_answers D ?ys s0 ! k = Inr (AnswerClaim (Some u))"
      "run_answers D ?ys s0 ! l = Inr (AnswerClaim (Some v))" "j_id u = j_id v" for k l u v
    using assms(1) pgn.claims_increase [OF ok assms(3) that(1,2)]
      sqliten.claims_increase [OF ok assms(3) that(1,2)] that(3-5)
    unfolding backend_prog_def by metis
  have "m \<noteq> n" using m n assms(7) by auto
  then consider "m < n" | "n < m" by linarith
  then show ?thesis
    using less [of m n a b] less [of n m b a] m n am an by cases auto
qed

lemma concurrent_claims_distinct_witness:
  "case run_schedule sample_schedule (start_threads (pg_prog sample_pg) sample_calls sample_db) of
     (s, ps, ended) \<Rightarrow> (case (ps ! 0, ps ! 1) of
       (Done (Inr (AnswerClaim (Some a))), Done (Inr (AnswerClaim (Some b)))) \<Rightarrow>
          (j_id a, j_attempt a) \<noteq> (j_id b, j_attempt b)
     | _ \<Rightarrow> False)"
proof -
  let ?t = "run_schedule sample_schedule (start_threads (pg_prog sample_pg) sample_calls sample_db)"
  have "case (fst (snd ?t) ! 0, fst (snd ?t) ! 1) of
      (Done (Inr (AnswerClaim (Some a))), Done (Inr (AnswerClaim (Some b)))) \<Rightarrow> True | _ \<Rightarrow> False"
    by code_simp
  then obtain s ps ended a b where t: "?t = (s, ps, ended)"
    and ab: "ps ! 0 = Done (Inr (AnswerClaim (Some a)))" "ps ! 1 = Done (Inr (AnswerClaim (Some b)))"
    by (cases ?t) (auto split: prog.splits sum.splits answer.splits option.splits)
  have "(j_id a, j_attempt a) \<noteq> (j_id b, j_attempt b)"
    by (rule concurrent_claims_distinct [OF sample_backend _ sample_ids_ok t _ _ _ ab])
      (simp_all add: sample_calls_def)
  with t ab show ?thesis by simp
qed

end
