(* ===== verification/Time_Order.thy ===== *)
theory Time_Order
  imports Go_Time
begin

text \<open>
  The order of times and of their texts: the calendar is monotone, and texts of the layout
  \<open>2006-01-02 15:04:05\<close> with a year of four digits compare as the times do.
\<close>

subsection \<open>Years and the order of times\<close>

lemma div_Suc_int: "0 < k \<Longrightarrow> (y + 1) div k = y div k + (if (y + 1) mod k = 0 then 1 else 0)" for k :: int
proof -
  assume k: "0 < k"
  show ?thesis
  proof (cases "(y + 1) mod k = 0")
    case True
    then obtain q where q: "y + 1 = k * q" by (auto elim: dvdE simp: mod_0_imp_dvd)
    then have "y = k * (q - 1) + (k - 1)" by (simp add: algebra_simps)
    then have "y div k = q - 1" using k by (simp add: div_mult_self1 div_pos_pos_trivial)
    with q True k show ?thesis by simp
  next
    case False
    let ?r = "(y + 1) mod k"
    have r: "0 \<le> ?r" "?r < k" using k by simp_all
    have "y = k * ((y + 1) div k) + (?r - 1)" using mult_div_mod_eq [of k "y + 1"] by linarith
    moreover have "0 \<le> ?r - 1" "?r - 1 < k" using r False by linarith+
    ultimately have "y div k = (y + 1) div k" by (metis int_div_pos_eq)
    with False show ?thesis by simp
  qed
qed

lemma mod_0_factor:
  fixes y :: int
  assumes "y mod k = 0" and "j dvd k"
  shows "y mod j = 0"
proof -
  from assms(1) have "k dvd y" by (rule mod_0_imp_dvd)
  with assms(2) have "j dvd y" by (rule dvd_trans)
  then show ?thesis by (rule dvd_imp_mod_0)
qed

lemma march_start_Suc: "march_start (y + 1) = march_start y + (if leap_year (y + 1) then 366 else 365)"
proof -
  define P where "P \<longleftrightarrow> (y + 1) mod 4 = 0"
  define Q where "Q \<longleftrightarrow> (y + 1) mod 100 = 0"
  define R where "R \<longleftrightarrow> (y + 1) mod 400 = 0"
  have RQ: "R \<Longrightarrow> Q" unfolding R_def Q_def by (erule mod_0_factor) simp
  have QP: "Q \<Longrightarrow> P" unfolding P_def Q_def by (erule mod_0_factor) simp
  have leap: "leap_year (y + 1) \<longleftrightarrow> P \<and> (\<not> Q \<or> R)"
    by (simp only: leap_year_def P_def Q_def R_def)
  have "march_start (y + 1) = (y + 1) * 365 + (y div 4 + (if P then 1 else 0))
      - (y div 100 + (if Q then 1 else 0)) + (y div 400 + (if R then 1 else 0)) - 719468"
    unfolding march_start_def P_def Q_def R_def by (simp only: div_Suc_int zero_less_numeral)
  moreover have "(y + 1) * 365 + (a + (if P then 1 else 0)) - (b + (if Q then 1 else 0))
      + (c + (if R then 1 else 0)) - 719468
      = y * 365 + a - b + c - 719468 + (if P \<and> (\<not> Q \<or> R) then 366 else 365)" for a b c :: int
    using RQ QP by (cases P; cases Q; cases R) simp_all
  ultimately show ?thesis
    unfolding leap march_start_def by (simp only:)
qed

lemma march_start_mono: "y \<le> y' \<Longrightarrow> march_start y \<le> march_start y'"
proof -
  assume "y \<le> y'"
  then obtain k where "y' = y + int k" by (metis zle_iff_zadd)
  moreover have "march_start y \<le> march_start (y + int k)" for k
  proof (induction k)
    case (Suc k)
    have "march_start (y + int (Suc k)) = march_start (y + int k + 1)" by (simp add: algebra_simps)
    with Suc march_start_Suc [of "y + int k"] show ?case by (simp split: if_splits)
  qed simp
  ultimately show ?thesis by simp
qed

lemma march_year_less:
  assumes "n < n'" and "march_year n = (y, doy)" and "march_year n' = (y', doy')"
  shows "y < y' \<or> y = y' \<and> doy < doy'"
proof -
  note b = march_year_bounds [OF assms(2)] and b' = march_year_bounds [OF assms(3)]
  have "y \<le> y'"
  proof (rule ccontr)
    assume "\<not> y \<le> y'"
    then have "march_start (y' + 1) \<le> march_start y" by (intro march_start_mono) simp
    moreover have "n' < march_start (y' + 1)"
      using b' march_start_Suc [of y'] by (cases "doy' = 365") (simp_all split: if_splits)
    ultimately show False using assms(1) b by linarith
  qed
  then show ?thesis using assms(1) b(1) b'(1) by auto
qed

lemma month_day_less:
  fixes doy doy' :: int
  assumes "doy < doy'"
  defines "mp \<equiv> (5 * doy + 2) div 153" and "mp' \<equiv> (5 * doy' + 2) div 153"
  shows "mp < mp' \<or> mp = mp' \<and> doy - (153 * mp + 2) div 5 < doy' - (153 * mp' + 2) div 5"
proof -
  have "mp \<le> mp'" unfolding mp_def mp'_def using assms(1) by (intro zdiv_mono1) simp_all
  then show ?thesis using assms(1) by auto
qed

lemma civil_of_days_less:
  assumes "n < n'"
  shows "civil_of_days n < civil_of_days n'"
proof -
  obtain y doy where c: "march_year n = (y, doy)" by (cases "march_year n")
  obtain y' doy' where c': "march_year n' = (y', doy')" by (cases "march_year n'")
  note b = march_year_bounds [OF c] and b' = march_year_bounds [OF c']
  define mp where "mp = (5 * doy + 2) div 153"
  define mp' where "mp' = (5 * doy' + 2) div 153"
  have mp: "0 \<le> mp" "mp \<le> 11" "0 \<le> mp'" "mp' \<le> 11"
    using b b' unfolding mp_def mp'_def by linarith+
  consider "y < y'" | "y = y'" "mp < mp'"
    | "y = y'" "mp = mp'" "doy - (153 * mp + 2) div 5 < doy' - (153 * mp' + 2) div 5"
    using march_year_less [OF assms c c'] month_day_less [of doy doy'] unfolding mp_def mp'_def by blast
  then show ?thesis
    unfolding civil_of_days_def c c' prod.case Let_def mp_def [symmetric] mp'_def [symmetric]
    using mp by cases (auto simp: less_prod_def')
qed

text \<open>The seconds with a year of four digits: from 0000 to 9999.\<close>

lemma civil_year_range:
  assumes "civil_of_days n = (y, m, d)"
  shows "0 \<le> y \<longleftrightarrow> - 719528 \<le> n" and "y \<le> 9999 \<longleftrightarrow> n < 2932897"
proof -
  have lo: "civil_of_days (- 719528) = (0, 1, 1)" and hi: "civil_of_days 2932897 = (10000, 1, 1)"
    by code_simp+
  have m: "1 \<le> m" "1 \<le> d" using days_of_civil_of_days [OF assms] by simp_all
  consider "n < - 719528" | "n = - 719528" | "- 719528 < n" by linarith
  then show "0 \<le> y \<longleftrightarrow> - 719528 \<le> n"
    using civil_of_days_less [of n "- 719528"] civil_of_days_less [of "- 719528" n] assms lo m
    by cases (auto simp: less_prod_def')
  consider "n < 2932897" | "n = 2932897" | "2932897 < n" by linarith
  then show "y \<le> 9999 \<longleftrightarrow> n < 2932897"
    using civil_of_days_less [of n "2932897"] civil_of_days_less [of "2932897" n] assms hi m
    by cases (auto simp: less_prod_def')
qed

lemma four_digit_year_range:
  "four_digit_year sec \<longleftrightarrow> - 62167219200 \<le> sec \<and> sec < 253402300800"
proof -
  obtain y m d where c: "civil_of_days (sec div 86400) = (y, m, d)" by (cases "civil_of_days (sec div 86400)")
  have bounds: "(- 719528 \<le> q \<longleftrightarrow> - 62167219200 \<le> q * 86400 + r) \<and> (q < 2932897 \<longleftrightarrow> q * 86400 + r < 253402300800)"
    if "0 \<le> r" "r < 86400" for q r :: int using that by linarith
  have "0 \<le> sec mod 86400" "sec mod 86400 < 86400" by simp_all
  from bounds [OF this, of "sec div 86400"]
  have "(- 719528 \<le> sec div 86400 \<longleftrightarrow> - 62167219200 \<le> sec) \<and> (sec div 86400 < 2932897 \<longleftrightarrow> sec < 253402300800)"
    by (simp only: div_mult_mod_eq)
  then show ?thesis
    unfolding four_digit_year_def c prod.case civil_year_range [OF c] by blast
qed

text \<open>Strings of equal length compare from the left, and digits as numbers.\<close>

lemma less_append_same: "length a = length b \<Longrightarrow> (a @ s :: string) < b @ t \<longleftrightarrow> a < b \<or> a = b \<and> s < t"
  by (induction a b rule: list_induct2) auto

lemma read_nat_Cons: "read_nat (c # s) = (of_char c - 48) * 10 ^ length s + read_nat s"
proof (induction s rule: rev_induct)
  case Nil
  then show ?case by (simp add: read_nat.simps)
next
  case (snoc x s)
  have "read_nat (c # s @ [x]) = 10 * read_nat (c # s) + (of_char x - 48)"
    using read_nat_snoc [of "c # s" x] by simp
  with snoc show ?case by (simp add: read_nat_snoc algebra_simps)
qed

lemma read_nat_bound: "list_all digit_char s \<Longrightarrow> read_nat s < 10 ^ length s"
proof (induction s)
  case (Cons c s)
  then have "of_char c - 48 \<le> (9 :: nat)" by (auto simp: digit_char_def)
  then have "(of_char c - 48) * 10 ^ length s \<le> (9 :: nat) * 10 ^ length s" by (intro mult_right_mono) simp_all
  moreover have "read_nat s < 10 ^ length s" using Cons by simp
  ultimately have "(of_char c - 48) * 10 ^ length s + read_nat s < 9 * 10 ^ length s + 10 ^ length s" by linarith
  then show ?case by (simp add: read_nat_Cons)
qed (simp add: read_nat_Nil)

lemma digits_less:
  assumes "length s = length t" and "list_all digit_char s" and "list_all digit_char t"
    and "read_nat s < read_nat t"
  shows "s < t"
  using assms
proof (induction s t rule: list_induct2)
  case (Cons c s d t)
  let ?c = "of_char c - 48 :: nat" and ?d = "of_char d - 48 :: nat" and ?w = "10 ^ length s :: nat"
  have dig: "48 \<le> (of_char c :: nat)" "48 \<le> (of_char d :: nat)" using Cons.prems by (simp_all add: digit_char_def)
  have lt: "?c * ?w + read_nat s < ?d * ?w + read_nat t"
    using Cons.prems(3) Cons.hyps by (simp add: read_nat_Cons)
  have bt: "read_nat t < ?w" using Cons by (simp add: read_nat_bound)
  consider "?c < ?d" | "?c = ?d" | "?d < ?c" by linarith
  then show ?case
  proof cases
    case 1
    then have "(of_char c :: nat) < of_char d" by linarith
    then show ?thesis by (simp add: less_char_def)
  next
    case 2
    with dig have "(of_char c :: nat) = of_char d" by linarith
    then have "c = d" by simp
    with 2 lt Cons show ?thesis by simp
  next
    case 3
    then have "(?d + 1) * ?w \<le> ?c * ?w" by (intro mult_right_mono) simp_all
    with lt bt show ?thesis by simp
  qed
qed (simp add: read_nat_Nil)

lemma zero_pad_less: "0 < w \<Longrightarrow> m < n \<Longrightarrow> n < 10 ^ w \<Longrightarrow> zero_pad w m < zero_pad w n"
  by (rule digits_less) (simp_all add: length_zero_pad zero_pad_digits)

lemma pad_less:
  assumes "0 < w" and "m < 10 ^ w" and "n < 10 ^ w"
  shows "zero_pad w m @ s < zero_pad w n @ t \<longleftrightarrow> m < n \<or> m = n \<and> s < t"
proof -
  have "zero_pad w m < zero_pad w n \<longleftrightarrow> m < n"
    using zero_pad_less [of w m n] zero_pad_less [of w n m] assms
    by (metis less_asym linorder_neqE_nat order_less_irrefl)
  moreover have "zero_pad w m = zero_pad w n \<longleftrightarrow> m = n" by (metis read_zero_pad)
  ultimately show ?thesis using assms by (simp add: less_append_same length_zero_pad)
qed

lemma pad_less_2: "m < 100 \<Longrightarrow> n < 100 \<Longrightarrow> zero_pad 2 m @ s < zero_pad 2 n @ t \<longleftrightarrow> m < n \<or> m = n \<and> s < t"
  by (rule pad_less) simp_all

lemma pad_end_2: "m < 100 \<Longrightarrow> n < 100 \<Longrightarrow> zero_pad 2 m < zero_pad 2 n \<longleftrightarrow> m < n"
  using pad_less_2 [of m n "[]" "[]"] by simp

lemma clock_less:
  fixes h mi se :: int
  assumes "h * 3600 + mi * 60 + se < h' * 3600 + mi' * 60 + se'"
    and "0 \<le> mi" "mi < 60" "0 \<le> se" "se < 60" "0 \<le> mi'" "mi' < 60" "0 \<le> se'" "se' < 60"
  shows "h < h' \<or> h = h' \<and> (mi < mi' \<or> mi = mi' \<and> se < se')"
proof -
  have "h \<le> h'" using assms by linarith
  moreover have "h = h' \<Longrightarrow> mi \<le> mi'" using assms by linarith
  moreover have "h = h' \<Longrightarrow> mi = mi' \<Longrightarrow> se < se'" using assms by simp
  ultimately show ?thesis by linarith
qed

text \<open>Texts with a year of four digits are in the order of the times: what SQLite compares as
  text it compares as time.\<close>

lemma stamp_text_less:
  assumes "a < b" and "four_digit_year a" and "four_digit_year b"
  shows "stamp_text sep a < stamp_text sep b"
proof -
  obtain y m d where c: "civil_of_days (a div 86400) = (y, m, d)" by (cases "civil_of_days (a div 86400)")
  obtain y' m' d' where c': "civil_of_days (b div 86400) = (y', m', d')" by (cases "civil_of_days (b div 86400)")
  define h where "h = a mod 86400 div 3600"
  define mi where "mi = a mod 86400 mod 3600 div 60"
  define se where "se = a mod 86400 mod 60"
  define h' where "h' = b mod 86400 div 3600"
  define mi' where "mi' = b mod 86400 mod 3600 div 60"
  define se' where "se' = b mod 86400 mod 60"
  note defs = h_def mi_def se_def h'_def mi'_def se'_def
  have y: "0 \<le> y" "y \<le> 9999" "0 \<le> y'" "y' \<le> 9999" using assms c c' by (simp_all add: four_digit_year_def)
  have t: "0 \<le> h" "h < 24" "0 \<le> mi" "mi < 60" "0 \<le> se" "se < 60"
    "0 \<le> h'" "h' < 24" "0 \<le> mi'" "mi' < 60" "0 \<le> se'" "se' < 60"
    unfolding defs by simp_all
  note b = days_of_civil_of_days [OF c] and b' = days_of_civil_of_days [OF c']
  have d: "d \<le> 31" "d' \<le> 31" using b(5) b'(5) days_in_month_le order_trans by blast+
  have shape: "stamp_text sep a = zero_pad 4 (nat y) @ CHR ''-'' # zero_pad 2 (nat m) @ CHR ''-'' #
      zero_pad 2 (nat d) @ sep # zero_pad 2 (nat h) @ CHR '':'' # zero_pad 2 (nat mi) @ CHR '':'' # zero_pad 2 (nat se)"
    using y by (simp add: stamp_text_def c year_text_def defs Let_def)
  have shape': "stamp_text sep b = zero_pad 4 (nat y') @ CHR ''-'' # zero_pad 2 (nat m') @ CHR ''-'' #
      zero_pad 2 (nat d') @ sep # zero_pad 2 (nat h') @ CHR '':'' # zero_pad 2 (nat mi') @ CHR '':'' # zero_pad 2 (nat se')"
    using y by (simp add: stamp_text_def c' year_text_def defs Let_def)
  have four: "zero_pad 4 (nat y) @ u < zero_pad 4 (nat y') @ v \<longleftrightarrow> nat y < nat y' \<or> nat y = nat y' \<and> u < v" for u v
    by (rule pad_less) (use y in simp_all)
  have less: "stamp_text sep a < stamp_text sep b \<longleftrightarrow>
      y < y' \<or> y = y' \<and> (m < m' \<or> m = m' \<and> (d < d' \<or> d = d' \<and>
        (h < h' \<or> h = h' \<and> (mi < mi' \<or> mi = mi' \<and> se < se'))))"
  proof -
    have small: "nat m < 100" "nat m' < 100" "nat d < 100" "nat d' < 100" "nat h < 100" "nat h' < 100"
      "nat mi < 100" "nat mi' < 100" "nat se < 100" "nat se' < 100"
      using t b b' d by simp_all
    have lt: "0 < y' \<and> y < y' \<longleftrightarrow> y < y'" "0 < m' \<and> m < m' \<longleftrightarrow> m < m'" "0 < d' \<and> d < d' \<longleftrightarrow> d < d'"
      "0 < h' \<and> h < h' \<longleftrightarrow> h < h'" "0 < mi' \<and> mi < mi' \<longleftrightarrow> mi < mi'" "0 < se' \<and> se < se' \<longleftrightarrow> se < se'"
      using y t b(2,4) b'(2,4) by auto
    have eq: "nat y = nat y' \<longleftrightarrow> y = y'" "nat m = nat m' \<longleftrightarrow> m = m'" "nat d = nat d' \<longleftrightarrow> d = d'"
      "nat h = nat h' \<longleftrightarrow> h = h'" "nat mi = nat mi' \<longleftrightarrow> mi = mi'"
      using y t b(2,4) b'(2,4) by (simp_all add: eq_nat_nat_iff)
    show ?thesis
      unfolding shape shape' four by (simp add: pad_less_2 [OF small(1,2)] pad_less_2 [OF small(3,4)]
          pad_less_2 [OF small(5,6)] pad_less_2 [OF small(7,8)] pad_end_2 [OF small(9,10)] lt eq)
  qed
  show ?thesis
  proof (cases "a div 86400 < b div 86400")
    case True
    from civil_of_days_less [OF this] c c' show ?thesis unfolding less by (auto simp: less_prod_def')
  next
    case False
    have "a div 86400 \<le> b div 86400" using assms(1) by (intro zdiv_mono1) simp_all
    with False have eq: "a div 86400 = b div 86400" by simp
    then have same: "y = y'" "m = m'" "d = d'" using c c' by simp_all
    have sa: "a = a div 86400 * 86400 + h * 3600 + mi * 60 + se"
      unfolding h_def mi_def se_def by (rule seconds_split)
    have sb: "b = a div 86400 * 86400 + h' * 3600 + mi' * 60 + se'"
      unfolding eq h'_def mi'_def se'_def by (rule seconds_split)
    have drop: "x < z \<Longrightarrow> x = q * 86400 + u + v + w \<Longrightarrow> z = q * 86400 + u' + v' + w' \<Longrightarrow> u + v + w < u' + v' + w'"
      for x z q u v w u' v' w' :: int by simp
    have "h * 3600 + mi * 60 + se < h' * 3600 + mi' * 60 + se'"
      by (rule drop [OF assms(1) sa sb])
    from clock_less [OF this t(3-6) t(9-12)] same show ?thesis unfolding less by blast
  qed
qed

end
