(* ===== verification/Sqlite_Text.thy ===== *)
theory Sqlite_Text
  imports Sqlite_Props Service_Props Json_Props Json_Text_Props Time_Order
begin

text \<open>
  What the SQLite driver stores as text: the error log of a job, from the entry the driver writes to
  the message and the time the API answers with, and the times of its columns.
\<close>


















subsection \<open>What the API answers\<close>









subsection \<open>Every call keeps the logs readable\<close>











subsection \<open>What the API answers\<close>






subsection \<open>Times as text\<close>

lemma format_sqlite_le:
  assumes "four_digit_year (a div 1000000000)" and "four_digit_year (b div 1000000000)"
  shows "format_sqlite a \<le> format_sqlite b \<longleftrightarrow> sq_format a \<le> sq_format b"
proof -
  consider "sq_format a < sq_format b" | "sq_format a = sq_format b" | "sq_format b < sq_format a" by linarith
  then show ?thesis
    using stamp_text_less [of "sq_format a" "sq_format b" "CHR '' ''"]
      stamp_text_less [of "sq_format b" "sq_format a" "CHR '' ''"] assms
    unfolding format_sqlite_def sq_format_def by cases auto
qed

lemma format_sqlite_parseTime:
  "four_digit_year (t div 1000000000) \<Longrightarrow> parse_sqlite (format_sqlite t) = Some (parseTime (sq_format t))"
  by (simp add: format_sqlite_parse sq_format_def parseTime_def)

lemma wrap64_bounds: "- (2 ^ 63) \<le> wrap64 x" "wrap64 x < 2 ^ 63"
  using in_int64_wrap64 [of x] by (simp_all add: in_int64_def)

text \<open>C31. The SQLite columns hold times as text, the model as whole seconds; nothing is lost: the time a
  delayed job is scheduled for, whatever delay its request asks for (it wraps to less than 293
  years either way), when the request arrives between the years 1970 and 9500, has a text that
  the driver reads back as that whole second, and SQLite's comparison of this text with the text
  of any other time (\<open>scheduled_at <= CURRENT_TIMESTAMP\<close>, the order of claims and promotions) is the
  comparison of the seconds.\<close>

theorem sqlite_scheduled_text:
  assumes "0 \<le> now" and "now < 240000000000 * 1000000000"
    and "o_ScheduledAt (create_opts_of m now) = Some t"
  shows "parse_sqlite (format_sqlite t) = Some (parseTime (sq_format t))
    \<and> (\<forall>u. four_digit_year (u div 1000000000) \<longrightarrow>
         (format_sqlite t \<le> format_sqlite u \<longleftrightarrow> sq_format t \<le> sq_format u)
         \<and> (format_sqlite u \<le> format_sqlite t \<longleftrightarrow> sq_format u \<le> sq_format t))"
proof -
  obtain k where t: "t = now + wrap64 k"
    using assms(3) by (auto simp: create_opts_of_def Let_def split: option.splits if_splits)
  have "- 62167219200 * 1000000000 \<le> t" "t < 253402300800 * 1000000000"
    using assms(1,2) wrap64_bounds [of k] unfolding t by simp_all
  then have "four_digit_year (t div 1000000000)"
    unfolding four_digit_year_range by linarith
  then show ?thesis by (simp add: format_sqlite_parseTime format_sqlite_le)
qed

definition delayed_request :: create_job_request where
  "delayed_request = \<lparr>cr_queue = ''q'', cr_kind = ''k'', cr_payload = [],
     cr_options = Some \<lparr>jo_pending = False, jo_delay = 5000, jo_attempts = 0, jo_priority = 0,
       jo_backoff = None\<rparr>\<rparr>"

lemma sqlite_scheduled_text_witness:
  "parse_sqlite (format_sqlite 1700000005123456789) = Some 1700000005000000000
   \<and> format_sqlite 1700000005123456789 \<le> format_sqlite 1700000006000000000"
proof -
  have o: "o_ScheduledAt (create_opts_of delayed_request 1700000000123456789) = Some 1700000005123456789"
    by (simp add: delayed_request_def create_opts_of_def Let_def wrap64_def)
  have y: "four_digit_year (1700000006000000000 div 1000000000)" by (simp add: four_digit_year_range)
  from sqlite_scheduled_text [OF _ _ o] y show ?thesis
    by (auto simp: parseTime_def sq_format_def dest!: spec [of _ 1700000006000000000])
qed

end
