(* ===== verification/Sqlite_Delay.thy ===== *)
theory Sqlite_Delay
  imports Sqlite_Props Retry_Props
begin

text \<open>
  A delayed job on SQLite, from its request to the pass of the scheduler that makes it available.
\<close>

subsection \<open>Calls that leave a scheduled job alone\<close>

text \<open>A scheduled job waits for its second: only its cancellation and a pass of the scheduler at or after
  that second change it.\<close>

fun leaves :: "string \<Rightarrow> int \<Rightarrow> call_env \<Rightarrow> driver_call \<Rightarrow> bool" where
  "leaves i sec c (CallCancel j) = (j \<noteq> i)"
| "leaves i sec c (CallPromoteScheduled n) = (sq_now c 0 < sec)"
| "leaves i sec c _ = True"

lemma rows_step_keeps:
  assumes "rows_step E P xs ys" and "r \<in> set xs" and "\<And>e r'. P r \<Longrightarrow> e \<in> E \<Longrightarrow> job_trans e r r' \<Longrightarrow> False"
  shows "r \<in> set ys"
  using assms(1,2) unfolding rows_step_def
  by (induction rule: list_all2_induct) (auto dest: assms(3))

lemma scheduled_keeps:
  assumes "rows_step {e} P xs ys" and "e \<noteq> Cancel" and "e \<noteq> Promote" and "r \<in> set xs" and "j_status r = Scheduled"
  shows "r \<in> set ys"
proof (rule rows_step_keeps [OF assms(1,4)])
  fix e' r' assume "e' \<in> {e}" and "job_trans e' r r'"
  with assms(2,3,5) show False by (auto elim: job_transE)
qed

lemma selected_keeps:
  assumes "ids_ok (jobs s)" and "r \<in> set (jobs s)" and "\<not> P r"
  shows "r \<in> set (jobs (snd (sq_update_selected P k n f c s)))"
proof -
  have "j_id r \<notin> j_id ` set (select_limit P k n (jobs s))"
    using ids_ok_selected(2) [OF assms(1,2)] assms(3) by blast
  then have "r = (if j_id r \<in> j_id ` set (select_limit P k n (jobs s)) then f r else r)" by simp
  then have "r \<in> set (update_where (\<lambda>x. j_id x \<in> j_id ` set (select_limit P k n (jobs s))) f (jobs s))"
    unfolding set_update_where using assms(2) by (rule image_eqI)
  with assms(2) show ?thesis by (simp add: sq_update_selected_def Let_def split: option.split)
qed

lemma apply_leaves:
  assumes "call_ok x" and "ids_ok (jobs s)" and "r \<in> set (jobs s)" and "j_status r = Scheduled"
    and "leaves (j_id r) (j_scheduled_at r) c x"
  shows "r \<in> set (jobs (apply_call (sqlite_driver q) c x s))"
proof (cases x)
  case (CallCreate opts)
  with assms(1,3) sqlite.create_rows [of opts s q c] show ?thesis by (auto simp: appends_fresh_def)
next
  case (CallClaim name w)
  show ?thesis unfolding CallClaim apply_call.simps
    by (rule scheduled_keeps [OF sqlite.claim_rows [OF assms(2)]]) (simp_all add: assms(3,4))
next
  case (CallComplete i v)
  show ?thesis unfolding CallComplete apply_call.simps
    by (rule scheduled_keeps [OF sqlite.complete_rows]) (simp_all add: assms(3,4))
next
  case (CallFail i m b)
  show ?thesis unfolding CallFail apply_call.simps
    by (rule scheduled_keeps [OF sqlite.fail_rows]) (simp_all add: assms(3,4))
next
  case (CallHeartbeat i p)
  show ?thesis unfolding CallHeartbeat apply_call.simps
    by (rule scheduled_keeps [OF sqlite.heartbeat_rows]) (simp_all add: assms(3,4))
next
  case (CallPromote i)
  show ?thesis unfolding CallPromote apply_call.simps
    by (rule scheduled_keeps [OF sqlite.promote_rows]) (simp_all add: assms(3,4))
next
  case (CallFailExpired n)
  show ?thesis unfolding CallFailExpired apply_call.simps
    by (rule scheduled_keeps [OF sqlite.fail_expired_rows [OF assms(2)]]) (simp_all add: assms(3,4))
next
  case (CallCancel i)
  have "i \<noteq> j_id r" using assms(5) CallCancel by simp
  then show ?thesis unfolding CallCancel apply_call.simps
    by (intro rows_step_keeps [OF sqlite.cancel_rows assms(3)]) simp
next
  case (CallPromoteScheduled n)
  then have "\<not> sq_due c r" using assms(5) by (simp add: sq_due_def)
  from selected_keeps [where P = "sq_due c", OF assms(2,3) this] show ?thesis
    by (simp add: CallPromoteScheduled sqlite_driver_simps sq_PromoteScheduledJobs_def)
qed (use assms(3) in \<open>simp_all add: sqlite.pause_step sqlite.resume_step\<close>)

lemma run_leaves:
  "\<forall>x \<in> set xs. call_ok (snd x) \<and> leaves (j_id r) (j_scheduled_at r) (fst x) (snd x) \<Longrightarrow> ids_ok (jobs s) \<Longrightarrow>
     r \<in> set (jobs s) \<Longrightarrow> j_status r = Scheduled \<Longrightarrow>
     r \<in> set (jobs (run_calls (sqlite_driver q) xs s)) \<and> ids_ok (jobs (run_calls (sqlite_driver q) xs s))"
proof (induction xs arbitrary: s)
  case (Cons x xs)
  obtain c y where x: "x = (c, y)" by (cases x)
  with Cons.prems have ok: "call_ok y" "leaves (j_id r) (j_scheduled_at r) c y" by auto
  have "ids_ok (jobs (apply_call (sqlite_driver q) c y s))"
    using sqlite.apply_call_step [OF ok(1) Cons.prems(2)] Cons.prems(2) table_step_ids by blast
  moreover have "r \<in> set (jobs (apply_call (sqlite_driver q) c y s))"
    using apply_leaves [OF ok(1) Cons.prems(2,3,4) ok(2)] .
  ultimately show ?case using Cons x by simp
qed simp

subsection \<open>The pass that promotes\<close>

lemma promote_scheduled_row:
  assumes "ids_ok (jobs s)" and "r \<in> set (jobs s)" and "j_status r = Scheduled" and "fault c 0 = None"
    and "length (filter (sq_due c) (jobs s)) \<le> 1000"
  shows "lookup_job (j_id r) (jobs (snd (sq_PromoteScheduledJobs 1000 c s)))
    = Some (if j_scheduled_at r \<le> sq_now c 0 then r\<lparr>j_status := Available\<rparr> else r)"
proof -
  let ?ids = "j_id ` set (select_limit (sq_due c) j_scheduled_at 1000 (jobs s))"
  have "set (select_limit (sq_due c) j_scheduled_at 1000 (jobs s)) = {x \<in> set (jobs s). sq_due c x}"
    by (rule select_limit_all [OF assms(5)])
  then have "j_id r \<in> ?ids \<longleftrightarrow> sq_due c r"
    using assms(2) ids_ok_unique [OF assms(1)] by (auto simp: image_iff)
  then have "j_id r \<in> ?ids \<longleftrightarrow> j_scheduled_at r \<le> sq_now c 0" by (simp add: sq_due_def assms(3))
  then show ?thesis
    by (simp add: sq_PromoteScheduledJobs_def sq_update_selected_def sq_default_limit_def assms(4) Let_def
        find_key_update_where ids_ok_lookup [OF assms(1,2)])
qed

text \<open>C30. A delayed job on SQLite. A request creates a job for a time that lies ahead, a delay after the
  request. Then, whatever calls follow except its cancellation and passes of the scheduler at or
  after its second, it waits; and the next pass, if no more than its 1000 jobs are due, makes it
  available when that time has come, and does not when the time is a second or more away: the
  columns of whole seconds release a job early by less than a second, and never late.\<close>

theorem sqlite_delay:
  assumes "svc_CreateJob (sqlite_driver q) rt m now c s = (Inr p, s1)" and "ids_ok (jobs s)"
    and "0 < jo_delay (options_of m)" and "jo_delay (options_of m) * 1000000 < 2 ^ 63"
    and "\<not> jo_pending (options_of m)" and "clock c 1 < now + jo_delay (options_of m) * 1000000"
    and "\<forall>x \<in> set ys. call_ok (snd x) \<and>
      leaves (p_id p) (sq_format (now + jo_delay (options_of m) * 1000000)) (fst x) (snd x)"
    and "fault c' 0 = None"
    and "length (filter (sq_due c') (jobs (run_calls (sqlite_driver q) ys s1))) \<le> 1000"
  shows "(\<exists>r. lookup_job (p_id p) (jobs (run_calls (sqlite_driver q) ys s1)) = Some r \<and> j_status r = Scheduled)
    \<and> (\<exists>r. lookup_job (p_id p) (jobs (snd (d_PromoteScheduledJobs (sqlite_driver q) 1000 c'
          (run_calls (sqlite_driver q) ys s1)))) = Some r
        \<and> (now + jo_delay (options_of m) * 1000000 \<le> db_now c' 0 \<longrightarrow> j_status r = Available)
        \<and> (db_now c' 0 + nanos \<le> now + jo_delay (options_of m) * 1000000 \<longrightarrow> j_status r = Scheduled))"
proof -
  let ?start = "now + jo_delay (options_of m) * 1000000"
  let ?s = "run_calls (sqlite_driver q) ys s1"
  from assms(1) obtain i where i: "jobs s1 = jobs s @ [sq_new_job c (create_opts_of m now) i]"
    "j_id (sq_new_job c (create_opts_of m now) i) \<notin> j_id ` set (jobs s)"
    "p = rowToProto rt (scanJobRowSqlite (sq_new_job c (create_opts_of m now) i))"
    by (auto simp: svc_CreateJob_def sqlite_driver_simps sq_CreateJob_def Let_def
        split: option.splits sum.splits prod.splits if_splits)
  let ?r = "sq_new_job c (create_opts_of m now) i"
  have start: "wanted_start m now c = ?start" using assms(3) by (simp add: wanted_start_def)
  have r: "j_status ?r = Scheduled" "j_scheduled_at ?r = sq_format ?start"
    using new_job_stored_from(2) [OF assms(4), of now c i] assms(5,6)
    by (simp_all add: stored_from_def created_from_def wanted_status_def start)
  have p: "p_id p = j_id ?r" by (simp add: i(3) rowToProto_id scanJobRowSqlite_def job_row.defs)
  have "ids_ok (jobs s1)" "?r \<in> set (jobs s1)" using assms(2) i(1,2) by (simp_all add: ids_ok_def)
  with assms(7) r have S: "?r \<in> set (jobs ?s)" "ids_ok (jobs ?s)"
    using run_leaves [of ys ?r s1 q] by (simp_all add: p)
  have second: "(?start \<le> db_now c' 0 \<longrightarrow> sq_format ?start \<le> sq_now c' 0)
      \<and> (db_now c' 0 + nanos \<le> ?start \<longrightarrow> \<not> sq_format ?start \<le> sq_now c' 0)"
    unfolding sq_format_def sq_now_def by (auto dest: zdiv_mono1 [where b = nanos])
  have "lookup_job (p_id p) (jobs ?s) = Some ?r" using ids_ok_lookup [OF S(2,1)] p by simp
  moreover have "lookup_job (p_id p) (jobs (snd (d_PromoteScheduledJobs (sqlite_driver q) 1000 c' ?s)))
      = Some (if sq_format ?start \<le> sq_now c' 0 then ?r\<lparr>j_status := Available\<rparr> else ?r)"
    using promote_scheduled_row [OF S(2,1) r(1) assms(8,9)] r(2) by (simp add: p sqlite_driver_simps)
  ultimately show ?thesis using r(1) second by simp
qed

definition later_request :: create_job_request where
  "later_request = \<lparr>cr_queue = ''q'', cr_kind = ''k'', cr_payload = [],
     cr_options = Some \<lparr>jo_pending = False, jo_delay = 5500, jo_attempts = 0, jo_priority = 0,
       jo_backoff = None\<rparr>\<rparr>"

lemma sqlite_delay_witness:
  "\<exists>p s1. svc_CreateJob (sqlite_driver sample_sqlite) sample_rt later_request 90000000000 sample_env empty_db = (Inr p, s1)
     \<and> (\<exists>r. lookup_job (p_id p) (jobs (snd (d_PromoteScheduledJobs (sqlite_driver sample_sqlite) 1000
          (sample_env\<lparr>db_now := (\<lambda>_. 95500000000)\<rparr>)
          (run_calls (sqlite_driver sample_sqlite) [(sample_env, CallPromoteScheduled 0)] s1)))) = Some r
        \<and> j_status r = Available)"
proof -
  let ?x = "svc_CreateJob (sqlite_driver sample_sqlite) sample_rt later_request 90000000000 sample_env empty_db"
  let ?e = "sample_env\<lparr>db_now := (\<lambda>_. 95500000000)\<rparr>"
  have "case fst ?x of Inr p \<Rightarrow> True | _ \<Rightarrow> False" by code_simp
  then obtain p where x: "?x = (Inr p, snd ?x)" by (cases "fst ?x") (auto simp: prod_eq_iff)
  have d: "options_of later_request = \<lparr>jo_pending = False, jo_delay = 5500, jo_attempts = 0, jo_priority = 0,
       jo_backoff = None\<rparr>" by (simp add: options_of_def later_request_def)
  have few: "length (filter (sq_due ?e) (jobs (run_calls (sqlite_driver sample_sqlite)
      [(sample_env, CallPromoteScheduled 0)] (snd ?x)))) \<le> 1000"
    by code_simp
  from sqlite_delay [OF x ids_empty _ _ _ _ _ _ few] show ?thesis
    using x by (fastforce simp: d sq_now_def sq_format_def simp del: run_calls.simps)
qed

end
