(* ===== verification/Http_Props.thy ===== *)
theory Http_Props
  imports Access_Props Json_Text_Props
begin

text \<open>
  The bodies of the HTTP interface: what a client reads out of an answer, and what the page of a
  job shows of its documents.
\<close>

subsection \<open>Issuing a worker key\<close>

lemma ascii_base64url: "ascii_text (base64url s)"
proof -
  have "\<forall>c \<in> set b64_alphabet. (of_char c :: nat) < 128" by code_simp
  with set_base64url show ?thesis unfolding ascii_text_def by blast
qed

lemma job_id_ascii: "job_id_ok i \<Longrightarrow> ascii_text i"
  by (cases i) (auto simp: ascii_text_def ulid_char_def char_in_def list_all_iff)

lemma newID_ascii: "ulid_ok c \<Longrightarrow> newID c = Inr i \<Longrightarrow> ascii_text i"
  by (auto simp: ulid_ok_def newID_def job_id_ascii split: sum.splits)

lemma worker_key_json_printable:
  assumes "ascii_text i" and "ascii_text key" and "valid_utf8 name"
  shows "printable (worker_key_json i name key) \<and> json_depth (worker_key_json i name key) = 1"
proof -
  have "ascii_text ''id''" "ascii_text ''key''" "ascii_text ''name''" by (simp_all add: ascii_text_def)
  with assms show ?thesis by (simp add: worker_key_json_def valid_ascii)
qed

lemma CreateWorkerKey_parts:
  assumes "CreateWorkerKey d sha rnd u name c s = (Inr (i, key), s1)"
  shows "newID c = Inr i" and "\<exists>b. rnd = Some b \<and> key = ''stw_'' @ base64url b"
  using assms by (auto simp: CreateWorkerKey_def Let_def split: option.splits sum.splits if_splits)

lemma CreateWorker_created:
  assumes "fst (web_CreateWorker d mac sha rnd cookies body c s) = HttpBody n b"
  obtains raw i key s1 where "n = 201" and "decode_string_body ''name'' body = Some raw"
    and "CreateWorkerKey d sha rnd (session_UserID mac cookies) (trim_space raw) c s = (Inr (i, key), s1)"
    and "b = json_text compact (worker_key_json i (trim_space raw) key) @ [CHR 0x0A]"
    and "snd (web_CreateWorker d mac sha rnd cookies body c s) = s1"
  using assms
  by (auto simp: web_CreateWorker_def writeJSON_def Let_def split: if_splits option.splits prod.splits sum.splits)

text \<open>C19. A worker key from the dashboard to the API. When \<open>POST /workers\<close> answers 201, the request came
  with a session and a name that is not blank, and the body of the answer is a JSON object with
  the new worker's id, its name and a key. Sent as bearer token, that key is accepted for exactly
  the four worker methods, as that worker; every other procedure is denied, and in all of this
  the database is left as the creation made it.\<close>

theorem worker_key_issued:
  assumes "mux_route (serve_routes a) (hr_method r) (hr_path r) = MuxHandler rt EpCreateWorker"
    and "http_serve a x r s = (HttpOutcome 201 body, s1)"
    and "ulid_ok (x_first x)"
    and "\<forall>raw. decode_string_body ''name'' (hr_body r) = Some raw \<longrightarrow> valid_utf8 (trim_space raw)"
  shows "session_UserID (a_mac a) (hr_cookies r) \<in> u_id ` set (users s)
    \<and> (\<exists>i name key. name \<noteq> [] \<and> read_json body = Some (JObj [(''id'', JStr i), (''key'', JStr key), (''name'', JStr name)])
        \<and> map_option trim_space (decode_string_body ''name'' (hr_body r)) = Some name
        \<and> (\<forall>y proc received. fault (x_first y) 0 = None \<longrightarrow>
            rpc_call a y (''Bearer '' @ key) proc received s1
            = (if proc \<in> set workerMethods
               then (case validating_Receive (a_validate a) received of Inl e \<Rightarrow> (Inl e, s1)
                     | Inr m \<Rightarrow> dispatch (a_driver a) (a_rt a) y (ContextWithWorkerID empty_context i) m s1)
               else (Inl (RpcError CodePermissionDenied []), s1))))"
proof -
  let ?W = "web_CreateWorker (a_dialect a) (a_mac a) (a_sha a) (x_random x) (hr_cookies r) (hr_body r) (x_first x) s"
  have W: "status_code (fst ?W) = 201" "body_text (fst ?W) = body" "snd ?W = s1"
    using assms(1,2) by (auto simp: http_serve_def http_outcome_def)
  from W(1) obtain b where b: "fst ?W = HttpBody 201 b"
    by (auto simp: web_CreateWorker_def writeJSON_def Let_def split: if_splits option.splits prod.splits sum.splits)
  obtain raw i key where raw: "decode_string_body ''name'' (hr_body r) = Some raw"
    and new: "CreateWorkerKey (a_dialect a) (a_sha a) (x_random x) (session_UserID (a_mac a) (hr_cookies r))
      (trim_space raw) (x_first x) s = (Inr (i, key), s1)"
    and out: "b = json_text compact (worker_key_json i (trim_space raw) key) @ [CHR 0x0A]"
    using CreateWorker_created [OF b] W(3) by metis
  have "session_UserID (a_mac a) (hr_cookies r) \<in> u_id ` set (users s)"
    using new by (rule CreateWorkerKey_Some)
  moreover have "trim_space raw \<noteq> []"
    using b raw by (auto simp: web_CreateWorker_def Let_def split: if_splits)
  moreover have "read_json body = Some (worker_key_json i (trim_space raw) key)"
  proof -
    obtain rb where "key = ''stw_'' @ base64url rb" using CreateWorkerKey_parts(2) [OF new] by blast
    moreover have "ascii_text ''stw_''" by (simp add: ascii_text_def)
    ultimately have "ascii_text key" using ascii_base64url by (simp only: ascii_append)
    then have p: "printable (worker_key_json i (trim_space raw) key)
        \<and> json_depth (worker_key_json i (trim_space raw) key) = 1"
      using worker_key_json_printable newID_ascii [OF assms(3) CreateWorkerKey_parts(1) [OF new]] assms(4) raw
      by blast
    then have "read_json b = Some (worker_key_json i (trim_space raw) key)"
      unfolding out by (intro read_json_text(2)) simp_all
    with W(2) b show ?thesis by simp
  qed
  moreover have "rpc_call a y (''Bearer '' @ key) proc received s1
      = (if proc \<in> set workerMethods
         then (case validating_Receive (a_validate a) received of Inl e \<Rightarrow> (Inl e, s1)
               | Inr m \<Rightarrow> dispatch (a_driver a) (a_rt a) y (ContextWithWorkerID empty_context i) m s1)
         else (Inl (RpcError CodePermissionDenied []), s1))" if "fault (x_first y) 0 = None" for y proc received
    unfolding rpc_call_def by (simp only: worker_key_accepted [OF new that])
  ultimately show ?thesis using raw by (auto simp: worker_key_json_def)
qed

text \<open>The registration of a worker by a signed-in user.\<close>

definition worker_request :: http_request where
  "worker_request = (sample_http ''POST'' ''/workers'')
     \<lparr>hr_cookies := [(''queue_session'', ''u.hash:u'')],
      hr_body := json_text compact (JObj [(''name'', JStr ''n2'')]) @ [CHR 0x0A]\<rparr>"

definition worker_exec :: exec_env where
  "worker_exec = sample_exec\<lparr>x_first := sample_env\<lparr>fresh_ulid := Inr sample_ulid\<rparr>\<rparr>"

lemma worker_request_name: "decode_string_body ''name'' (hr_body worker_request) = Some ''n2''"
proof -
  have "to_lower ''name'' = ''name''" by code_simp
  with decode_string_body_text [of compact "''name''" "''n2''"] show ?thesis
    by (simp add: worker_request_def valid_ascii ascii_text_def)
qed

lemma worker_route: "mux_route (serve_routes sample_app) (hr_method worker_request) (hr_path worker_request)
    = MuxHandler (parse_pattern ''POST /workers'') EpCreateWorker"
proof -
  have "mux_route (serve_routes sample_app) ''POST'' ''/workers'' = MuxHandler (parse_pattern ''POST /workers'') EpCreateWorker"
    by code_simp
  then show ?thesis by (simp add: worker_request_def sample_http_def)
qed

lemma worker_request_created:
  "\<exists>body s1. http_serve sample_app worker_exec worker_request sample_db = (HttpOutcome 201 body, s1)"
proof -
  let ?a = sample_app
  have c: "hr_cookies worker_request = [(''queue_session'', ''u.hash:u'')]" by (simp add: worker_request_def)
  have user: "session_UserID (a_mac ?a) [(''queue_session'', ''u.hash:u'')] = ''u''" by code_simp
  have name: "trim_space ''n2'' = ''n2''" by code_simp
  have "case fst (CreateWorkerKey (a_dialect ?a) (a_sha ?a) (x_random worker_exec) ''u'' ''n2'' (x_first worker_exec)
      sample_db) of Inl _ \<Rightarrow> False | Inr _ \<Rightarrow> True"
    by code_simp
  then show ?thesis
    by (auto simp: http_serve_def worker_route http_outcome_def web_CreateWorker_def c user worker_request_name name
        writeJSON_def Let_def split: prod.splits sum.splits)
qed

lemma worker_key_issued_witness:
  "\<exists>i key s1. (\<forall>proc. proc \<notin> set workerMethods \<longrightarrow>
      rpc_call sample_app sample_exec (''Bearer '' @ key) proc (Inr (ClaimJobRequest ''q'')) s1
        = (Inl (RpcError CodePermissionDenied []), s1))
    \<and> rpc_call sample_app sample_exec (''Bearer '' @ key) claim_method (Inr (ClaimJobRequest ''q'')) s1
        = dispatch (a_driver sample_app) (a_rt sample_app) sample_exec
            (ContextWithWorkerID empty_context i) (ClaimJobRequest ''q'') s1"
proof -
  obtain body s1 where s: "http_serve sample_app worker_exec worker_request sample_db = (HttpOutcome 201 body, s1)"
    using worker_request_created by blast
  have u: "ulid_ok (x_first worker_exec)" by code_simp
  have n: "\<forall>raw. decode_string_body ''name'' (hr_body worker_request) = Some raw \<longrightarrow> valid_utf8 (trim_space raw)"
  proof -
    have "trim_space ''n2'' = ''n2''" by code_simp
    then show ?thesis by (simp add: worker_request_name valid_ascii ascii_text_def)
  qed
  have v: "validating_Receive (a_validate sample_app) (Inr (ClaimJobRequest ''q'')) = Inr (ClaimJobRequest ''q'')"
    by code_simp
  have m: "claim_method \<in> set workerMethods" by (simp add: workerMethods_def)
  have f: "fault (x_first sample_exec) 0 = None" by (simp add: sample_exec_def)
  from worker_key_issued [OF worker_route s u n] obtain i key where
    "\<forall>y proc received. fault (x_first y) 0 = None \<longrightarrow>
            rpc_call sample_app y (''Bearer '' @ key) proc received s1
            = (if proc \<in> set workerMethods
               then (case validating_Receive (a_validate sample_app) received of Inl e \<Rightarrow> (Inl e, s1)
                     | Inr m \<Rightarrow> dispatch (a_driver sample_app) (a_rt sample_app) y (ContextWithWorkerID empty_context i) m s1)
               else (Inl (RpcError CodePermissionDenied []), s1))"
    by blast
  note call = this [rule_format, OF f]
  show ?thesis
    by (rule exI [of _ i], rule exI [of _ key], rule exI [of _ s1],
      simp only: call v m sum.case if_True if_False simp_thms, simp)
qed

subsection \<open>The documents of a job\<close>

text \<open>What the page shows of a document: its value as \<open>any\<close>, or the document itself when a number of it is
  out of the range of floats.\<close>

definition shown :: "(string \<Rightarrow> string option) \<Rightarrow> json \<Rightarrow> json" where
  "shown ft v = (case as_any ft v of None \<Rightarrow> v | Some w \<Rightarrow> w)"

definition document :: "json \<Rightarrow> bool" where
  "document v \<longleftrightarrow> printable v \<and> json_depth v \<le> 10000"

text \<open>Documents whose numbers are whole and have at most 53 bits, and the form in which the members of every
  object are ordered and the last of equal names stays.\<close>

fun whole_numbers :: "json \<Rightarrow> bool" where
  "whole_numbers (JInt k) = (\<bar>k\<bar> \<le> 2 ^ 53)"
| "whole_numbers (JFrac l) = False"
| "whole_numbers (JArr vs) = list_all whole_numbers vs"
| "whole_numbers (JObj fs) = list_all (\<lambda>f. whole_numbers (snd f)) fs"
| "whole_numbers _ = True"

fun ordered :: "json \<Rightarrow> json" where
  "ordered (JArr vs) = JArr (map ordered vs)"
| "ordered (JObj fs) = JObj (sort_members (map (\<lambda>f. (fst f, ordered (snd f))) fs))"
| "ordered v = v"

lemma all_some_map: "\<forall>x \<in> set xs. f x = Some (g x) \<Longrightarrow> all_some (map f xs) = Some (map g xs)"
  by (induction xs) simp_all

lemma as_any_whole: "whole_numbers v \<Longrightarrow> as_any ft v = Some (ordered v)"
proof (induction v rule: whole_numbers.induct)
  case (3 vs)
  then have "all_some (map (as_any ft) vs) = Some (map ordered vs)"
    by (intro all_some_map) (simp add: list_all_iff)
  then show ?case by simp
next
  case (4 fs)
  then have "all_some (map (\<lambda>f. map_option (Pair (fst f)) (as_any ft (snd f))) fs)
      = Some (map (\<lambda>f. (fst f, ordered (snd f))) fs)"
    by (intro all_some_map) (simp add: list_all_iff)
  then show ?case by simp
qed simp_all

lemma canonical_whole: "canonical v \<Longrightarrow> whole_numbers v \<and> ordered v = v"
proof (induction v rule: canonical.induct)
  case (3 vs)
  then show ?case by (auto simp: list_all_iff intro: map_idI)
next
  case (4 fs)
  then have "map (\<lambda>f. (fst f, ordered (snd f))) fs = fs" by (intro map_idI) (simp add: list_all_iff)
  with 4 show ?case by (simp add: sort_members_sorted list_all_iff)
qed simp_all

text \<open>What is asked of the text that the database returns for a stored document: it is JSON, and a document
  of whole numbers keeps its numbers and its values, in any layout and any order of the members;
  of members of equal name the last stays or all do. So it is with the text that SQLite stores, and
  with JSONB, which drops and orders members and reprints numbers.\<close>

definition column_texts :: "(json \<Rightarrow> string) \<Rightarrow> bool" where
  "column_texts raw \<longleftrightarrow> (\<forall>v. document v \<longrightarrow> (\<exists>w. read_json (raw v) = Some w \<and> document w
     \<and> (whole_numbers v \<longrightarrow> whole_numbers w \<and> ordered w = ordered v)))"

lemma read_json_empty [simp]: "read_json [] = None"
  by (simp add: read_json_def skip_ws_def)

lemma prettyJSON_reads:
  assumes "float_texts ft" and "document v" and "read_json b = Some v"
  shows "read_json (prettyJSON ft b) = Some (shown ft v)"
proof (cases "as_any ft v")
  case (Some w)
  then have "printable w \<and> json_depth w \<le> 10000"
    using as_any_printable [OF assms(1), of v w] assms(2) by (auto simp: document_def)
  with Some assms(3) show ?thesis by (simp add: prettyJSON_def shown_def read_json_text(1))
qed (use assms(3) in \<open>simp add: prettyJSON_def shown_def\<close>)

text \<open>A text on the page against the document that is stored and the one that the database returns.\<close>

definition shows_document :: "(string \<Rightarrow> string option) \<Rightarrow> (json \<Rightarrow> string) \<Rightarrow> json \<Rightarrow> string \<Rightarrow> bool" where
  "shows_document ft raw v t \<longleftrightarrow>
     (\<exists>w. read_json (raw v) = Some w \<and> read_json t = Some (shown ft w))
     \<and> (whole_numbers v \<longrightarrow> read_json t = Some (ordered v)) \<and> (canonical v \<longrightarrow> read_json t = Some v)"

lemma page_document_reads:
  assumes "float_texts ft" and "column_texts raw" and "document v"
  shows "shows_document ft raw v (page_document ft (raw v))"
proof -
  from assms(2,3) obtain w where r: "read_json (raw v) = Some w" and w: "document w"
    and same: "whole_numbers v \<longrightarrow> whole_numbers w \<and> ordered w = ordered v"
    unfolding column_texts_def by blast
  from r have "raw v \<noteq> []" by auto
  with prettyJSON_reads [OF assms(1) w r]
  have t: "read_json (page_document ft (raw v)) = Some (shown ft w)" by (simp add: page_document_def)
  have "shown ft w = ordered v" if "whole_numbers v"
    using that same as_any_whole [of w ft] by (simp add: shown_def)
  with r t canonical_whole [of v] show ?thesis unfolding shows_document_def by metis
qed

text \<open>C37. The page of a job shows its documents. For a signed-in user and a job that the driver finds, the
  texts on the page for the payload and, when there is one, the result are JSON: they read back as
  what Go's \<open>any\<close> holds of the text that the database returns (numbers as floats, the members of an
  object ordered, the last of equal names). If the stored document has only whole numbers of at most
  53 bits, that is the stored document with its members in order and the last of equal names,
  whatever layout and order the database returns; and if it is in that form already, it is the
  stored document itself. A job without a result shows none.\<close>

theorem job_page_documents:
  assumes "currentUser mac cookies cu s = Some u" and "fst (d_GetJob D i c s) = Inr row"
    and "float_texts ft" and "column_texts raw"
    and "document (j_payload row)" and "\<forall>v. j_result row = Some v \<longrightarrow> document v"
  shows "\<exists>p. web_JobPage D mac pt fmt ft raw cookies i cu c s = HttpBody 200 p
    \<and> shows_document ft raw (j_payload row) (jp_Payload p)
    \<and> (case j_result row of None \<Rightarrow> jp_Result p = []
       | Some v \<Rightarrow> shows_document ft raw v (jp_Result p))"
proof -
  have "page_document ft [] = []" by (simp add: page_document_def)
  then show ?thesis
    using assms(1,2,6) page_document_reads [OF assms(3,4)] assms(5)
    by (simp add: web_JobPage_def split: option.split)
qed

definition page_db :: database where
  "page_db = sample_db\<lparr>jobs := [(sample_job ''f'' Completed)
     \<lparr>j_payload := JObj [(''b'', JInt 1), (''a'', JArr [JBool True, JNull]), (''b'', JInt 2)],
      j_result := Some (JStr ''ok'')\<rparr>]\<rparr>"

lemma sample_texts: "float_texts (\<lambda>_. None)" "column_texts (json_text compact)"
  by (simp_all add: float_texts_def column_texts_def document_def read_json_text(1))

lemma job_page_documents_witness:
  "\<exists>p. web_JobPage (pg_driver sample_pg) sample_sha parse_rfc3339 (\<lambda>_. ''t'') (\<lambda>_. None) (json_text compact)
      [(''queue_session'', ''u.hash:u'')] ''f'' sample_env sample_env page_db = HttpBody 200 p
    \<and> read_json (jp_Payload p) = Some (JObj [(''a'', JArr [JBool True, JNull]), (''b'', JInt 2)])
    \<and> read_json (jp_Result p) = Some (JStr ''ok'')"
proof -
  let ?v = "JObj [(''b'', JInt 1), (''a'', JArr [JBool True, JNull]), (''b'', JInt 2)]"
  let ?row = "job_row.truncate ((sample_job ''f'' Completed)\<lparr>j_payload := ?v, j_result := Some (JStr ''ok'')\<rparr>)"
  have row: "j_payload ?row = ?v" "j_result ?row = Some (JStr ''ok'')" by (simp_all add: job_row.defs)
  have user: "currentUser sample_sha [(''queue_session'', ''u.hash:u'')] sample_env page_db
      = Some \<lparr>u_id = ''u'', u_google_id = ''g'', u_email = ''a@b.c'', u_name = ''n'', u_created_at = 1\<rparr>"
    by code_simp
  have got: "fst (d_GetJob (pg_driver sample_pg) ''f'' sample_env page_db) = Inr ?row" by code_simp
  have ascii: "valid_utf8 ''a''" "valid_utf8 ''b''" "valid_utf8 ''ok''"
    by (simp_all add: valid_ascii ascii_text_def)
  have docs: "document (j_payload ?row)" "\<forall>v. j_result ?row = Some v \<longrightarrow> document v"
    unfolding row by (simp_all add: document_def ascii)
  have "whole_numbers ?v" "canonical (JStr ''ok'')" by simp_all
  moreover have "ordered ?v = JObj [(''a'', JArr [JBool True, JNull]), (''b'', JInt 2)]" by code_simp
  ultimately show ?thesis
    using job_page_documents [OF user got sample_texts docs, of parse_rfc3339 "\<lambda>_. ''t''"]
    unfolding row option.case shows_document_def by metis
qed

subsection \<open>The pages\<close>

text \<open>No handler asks for a page that \<open>NewHandler\<close> has not composed: while the templates execute, a page
  is answered with 200, a redirect or a 404.\<close>

definition page_code :: "nat \<Rightarrow> bool" where
  "page_code n \<longleftrightarrow> n \<in> {200, 303, 404}"

definition never_fails :: "(string list \<Rightarrow> 'd \<Rightarrow> string \<times> string option) \<Rightarrow> bool" where
  "never_fails ex \<longleftrightarrow> (\<forall>files d. snd (ex files d) = None)"

lemma page_codes:
  "page_code (status_code (web_QueuesPage D mac cookies cu c s))"
  "page_code (status_code (web_WorkersPage mac cookies cu s))"
  "page_code (status_code (web_KeysPage mac cookies cu s))"
  "page_code (status_code (web_JobPage D mac pt fmt ft raw cookies i cu c s))"
  by (simp_all add: page_code_def web_QueuesPage_def web_WorkersPage_def web_KeysPage_def web_JobPage_def
      requireUser_def split: option.split sum.split)

lemma executed_ok:
  assumes "never_fails ex"
  shows "executed (ex files d) = HttpBody 200 (fst (ex files d))"
proof -
  have "snd (ex files d) = None" using assms by (simp add: never_fails_def)
  then show ?thesis by (cases "ex files d") (simp add: executed_def)
qed

lemma rendered_page_code:
  assumes "never_fails ex" and "page_code (status_code r)"
  shows "page_code (status_code (rendered_page ex r))"
proof -
  have "page_name p \<in> set page_names" for p by (cases p) (simp_all add: page_names_def)
  with assms show ?thesis
    by (cases r) (simp_all add: renderPage_def NewHandler_pages_def executed_ok page_code_def)
qed

lemma rendered_index_code:
  "never_fails ex \<Longrightarrow> rendered ex (IndexOutcome p) = Some ans \<Longrightarrow> page_code (status_code ans)"
  by (cases p) (auto simp: renderStandalone_def renderPage_def NewHandler_pages_def page_names_def executed_ok
      page_code_def)

lemma rendered_outcomes:
  "rendered ex (fst (http_outcome z)) = None" "rendered ex (fst (cookie_outcome y)) = None"
  "rendered ex (fst (page_outcome f (v, s))) = Some (rendered_page ex (map_http_response f v))"
  "rendered ex (fst (rpc_endpoint a x r s)) = None"
  by (simp_all add: http_outcome_def cookie_outcome_def page_outcome_def rpc_endpoint_def
      split: option.split prod.split)

lemma pages_rendered:
  assumes "never_fails ex" and "rendered ex (fst (http_serve a x r s)) = Some ans"
  shows "page_code (status_code ans)"
proof (cases "mux_route (serve_routes a) (hr_method r) (hr_path r)")
  case (MuxHandler rt e)
  with assms(2) show ?thesis
    by (cases e) (auto simp: http_serve_def rendered_outcomes page_codes rendered_page_code [OF assms(1)]
        intro: rendered_index_code [OF assms(1)])
qed (use assms(2) in \<open>simp_all add: http_serve_def\<close>)

end
