(* ===== verification/Spec2Isabelle.thy ===== *)
theory Spec2Isabelle
  imports Pg_Sched Sqlite_Props Json_Props Retry_Props List_Props Account_Props Web_Props
    Life_Props Route_Props Concurrent_Props Sqlite_Text Sqlite_Delay Http_Props
begin

text \<open>
  Stevy, a job queue service in Go: clients create jobs over RPC, workers claim, heartbeat,
  complete and fail them, a scheduler makes due jobs available and ends the attempts of crashed
  workers, people watch in a dashboard. The jobs live in PostgreSQL or SQLite.

  \<^bold>\<open>The program and the theories that model it\<close>

  \<^item> Data (\<open>Job_Table\<close>): the rows of the tables of \<open>internal/db/migrations\<close>, the structs of
    \<open>internal/service/driver.go\<close>, the errors, and the environment of one call (\<open>call_env\<close>): the
    clocks it reads, the statements that fail, the rows that others hold locked, the ULID and the
    random number it draws.
  \<^item> The parts of Go's library that the code uses: \<open>Go_Int\<close> (64- and 32-bit wrap-around, truncated
    division), \<open>Go_Strings\<close>, \<open>Utf8\<close> (runes), \<open>Encoding\<close> (base64 and hex), \<open>Sha256\<close> (the digest and the HMAC), \<open>Go_Time\<close> (the calendar, the
    text of a time in the layout of the SQLite columns and in RFC 3339), \<open>Go_Duration\<close>
    (\<open>time.ParseDuration\<close>), \<open>Json\<close> (JSON values, \<open>jsonString\<close>, the entries of the error log) and
    \<open>Json_Text\<close> (reading and printing documents, decoding into \<open>any\<close> and into a struct).
  \<^item> Drivers: \<open>Driver_Iface\<close> is the interface \<open>Driver\<close> as a record of methods, with its contract
    as three locales. \<open>Driver_Pg\<close> is \<open>driver_pg.go\<close>, \<open>Driver_Sqlite\<close> is \<open>driver_sqlite.go\<close>: every
    statement as an update or a selection of rows, with its condition, order and limit, on times in
    nanoseconds and in whole seconds respectively. Both are interpretations of the three locales.
    \<open>Interleave\<close> and \<open>Concurrent\<close> give the methods once more as programs of single statements
    (\<open>CreateJob\<close> and \<open>ClaimJob\<close> have two, and no transaction), run by threads in any interleaving.
  \<^item> Services: \<open>Job_Service\<close> (\<open>job.go\<close>) and \<open>Queue_Service\<close> (\<open>queue.go\<close>), over any driver, ending
    with a response, a Connect error or a panic.
  \<^item> Identity: \<open>Session\<close> (\<open>session.go\<close>), \<open>Accounts\<close> (\<open>db.go\<close>), \<open>Auth\<close> (\<open>middleware.go\<close>,
    \<open>apikey.go\<close>, \<open>oauth.go\<close>), \<open>Dialect\<close> (\<open>dialect.go\<close>).
  \<^item> Front: \<open>Web\<close> (\<open>web.go\<close>), \<open>Validate\<close> (\<open>validate.go\<close> and the annotated rules of
    \<open>proto/stevy/v1\<close>), \<open>Main_Cmd\<close> and \<open>Server\<close> (\<open>main.go\<close>, \<open>migrate.go\<close>): configuration, commands
    and flags, the RPC server with its two interceptors, the routes with the choice that
    \<open>net/http\<close> makes among them, and one request from its path to the changed database.

  \<^bold>\<open>The specification\<close>

  \<open>Job_Spec\<close> states the life cycle of a row (\<open>job_trans\<close>, one rule for each way the code changes a
  row), what a well-formed row is, and what one statement may do to the table. \<open>Life_Spec\<close> abstracts
  a job to its status and attempts and gives the automaton of the README; the theories that prove
  it of a driver do so once, in the locale.

  \<^bold>\<open>What the lemmas show\<close>

  \<^item> \<open>Pg_Props\<close>, \<open>Pg_Attempts\<close>, \<open>Pg_Sched\<close>: claiming (the best job, no job twice, nothing only
    when there is nothing), the end of an attempt, the scheduler and its recovery of crashed
    workers' jobs, on PostgreSQL. \<open>Driver_Equiv\<close>, \<open>Sqlite_Props\<close>: up to the
    claim, on whole seconds, the SQLite driver does the same; its claim never succeeds on an engine
    with SQLite's published grammar. \<open>Sqlite_Delay\<close>: when a delayed job becomes available there.
    \<open>Time_Order\<close>, \<open>Sqlite_Text\<close>: its texts, the error log and the columns of times, read back as what
    was stored and compare as it does.
  \<^item> \<open>Concurrent_Props\<close>: any interleaving of calls comes to the calls one after another, in the order
    in which they end (locale \<open>two_phase_driver\<close>, both drivers being instances), and no attempt is
    handed out twice.
  \<^item> \<open>Life_Props\<close>: both drivers refine the automaton, and no job changes for ever.
  \<^item> \<open>Service_Props\<close>, \<open>Retry_Props\<close>, \<open>List_Props\<close>: the codes of all outcomes, invariants under any
    requests, what is created from a request, the delay before a retry with its overflows,
    priorities, and paging that visits every job once.
  \<^item> \<open>Account_Props\<close>: sessions, keys, who may call what, signing in, the attribution of claims.
    \<open>Json_Props\<close>, \<open>Json_Text_Props\<close>, \<open>Web_Props\<close>: string literals, what is printed can be read, the
    job page, paging in the dashboard.
  \<^item> \<open>Conform\<close>, \<open>Server_Props\<close>, \<open>Access_Props\<close>, \<open>Route_Props\<close>: the composition. Every request is a
    step that keeps the database within the rules of the protocol, and the rules that an answer can
    break are listed; without credentials nothing is read or changed but by one route; what the validation keeps from the
    handlers; which path reaches which handler; when a process starts at all, and the lock that its
    configuration gives a claimed job. \<open>Http_Props\<close>: a worker's key from the JSON answer that issues it to
    its calls, and the documents on the page of a job.

  \<^bold>\<open>Parameters and assumptions\<close>

  Code outside the repository is a parameter: the random bytes, the text of floats and the arithmetic of a duration's
  fraction, the local time zone, the OAuth client, protovalidate (\<open>enforces_rules\<close>: it accepts
  only what the rules allow), ULIDs (\<open>ulid_ok\<close>), the conversions of PostgreSQL and SQLite (\<open>pg_cfg\<close>,
  \<open>sqlite_cfg\<close>) and the text they return for a document (\<open>column_texts\<close>: it keeps the values, not the layout, the
  order of members or the form of numbers), Connect's mount paths. What the database refuses for a
  reason that the model does not look into (a NUL byte in a text, on PostgreSQL) is a failing
  statement of the environment. A request that makes several database calls has an environment for
  each and, where others may write in between, a function for what they do; the invariants ask
  of that function that it takes steps of the same kind (\<open>db_step\<close>). One statement is atomic; what
  is made of several is taken apart in \<open>Concurrent\<close>.

  \<^bold>\<open>Bounds\<close>

  Loops are structural recursion or have a measure. The two browsing loops of \<open>List_Props\<close> and
  \<open>Web_Props\<close> take fuel, and as many rounds as there are jobs are shown to be enough. The JSON reader
  takes one unit of fuel per rune and one more, which \<open>read_print\<close> shows to be enough for every
  printed document; its 10000 levels are the package's own limit. The scheduler loop is a run over
  a given list of ticks, a schedule of threads a given list of turns.

  \<^bold>\<open>Not modelled\<close>

  The HTML templates and their execution (the engine is a parameter of \<open>renderPage\<close>), the bodies that
  \<open>http.Redirect\<close> adds, the decoding of an HTTP request into an RPC by Connect and Vanguard (a
  request carries the decoded message) and their encoding of the answer, logging, signals and
  shutdown, goose's run of the SQL files, isolation of PostgreSQL below one statement. These are
  library code or plain output: nothing of the program's own logic is in them.
\<close>

end
